(* ===== verification/Prelude.thy ===== *)
theory Prelude
  imports Main "HOL-Library.Word"
begin

text \<open>
  Shared vocabulary of the development: machine-integer abbreviations, outcomes of
  C/C++ functions, little-endian byte encodings, byte-range overlays (what a positioned
  write leaves in a file) and the generic list lemmas the components use.
\<close>

unbundle bit_operations_syntax

section \<open>Types\<close>

type_synonym byte = "8 word"
type_synonym u16 = "16 word"
type_synonym u32 = "32 word"
type_synonym u64 = "64 word"

text \<open>
  What a call of a C/C++ function may do: return a value, hand the machine over to a
  reboot that never returns to the caller, or touch memory outside an object (the
  standard gives such a call no meaning).
\<close>

datatype 'a outcome = Ret 'a | Rebooting | Undefined

named_theorems layout_simps \<open>byte layout of structures\<close>
named_theorems crc_simps \<open>the CRC-32 register\<close>
named_theorems boot_defs \<open>definitions of the boot-control operations\<close>
named_theorems fs_simps \<open>positioned reads and writes of device files\<close>

section \<open>Little-endian encodings\<close>

definition le_bytes :: "nat \<Rightarrow> 'a::len word \<Rightarrow> byte list" where
  "le_bytes n w = map (\<lambda>i. ucast (drop_bit (8 * i) w)) [0..<n]"

primrec le_word :: "byte list \<Rightarrow> 'a::len word" where
  "le_word [] = 0"
| "le_word (b # bs) = ucast b OR push_bit 8 (le_word bs)"

lemma length_le_bytes [simp]: "length (le_bytes n w) = n"
  by (simp add: le_bytes_def)

lemma bit_le_word:
  "bit (le_word bs :: 'a::len word) i \<longleftrightarrow>
     i < LENGTH('a) \<and> i div 8 < length bs \<and> bit (bs ! (i div 8)) (i mod 8)"
proof (induction bs arbitrary: i)
  case Nil
  then show ?case by simp
next
  case (Cons b bs)
  show ?case
  proof (cases "i < 8")
    case True
    then show ?thesis by (simp add: bit_or_iff bit_push_bit_iff bit_ucast_iff conj_commute)
  next
    case False
    then have i: "i = (i - 8) + 8" by simp
    have "\<not> bit b i" using False bit_imp_le_length [of b i] by auto
    moreover have "i div 8 = Suc ((i - 8) div 8)" "i mod 8 = (i - 8) mod 8"
      by (subst i, simp)+
    ultimately show ?thesis
      using False by (simp add: bit_or_iff bit_push_bit_iff bit_ucast_iff Cons) auto
  qed
qed

declare le_word.simps [simp del]

lemma le_bytes_le_word:
  assumes "LENGTH('a::len) = 8 * length bs"
  shows "le_bytes (length bs) (le_word bs :: 'a word) = bs"
proof (rule nth_equalityI)
  fix i assume "i < length (le_bytes (length bs) (le_word bs :: 'a word))"
  then have i: "i < length bs" by simp
  show "le_bytes (length bs) (le_word bs :: 'a word) ! i = bs ! i"
  proof (rule bit_word_eqI)
    fix n assume n: "n < LENGTH(8)"
    then have "(8 * i + n) div 8 = i" "(8 * i + n) mod 8 = n" "8 * i + n < LENGTH('a)"
      using i assms by auto
    then show "bit (le_bytes (length bs) (le_word bs :: 'a word) ! i) n = bit (bs ! i) n"
      using i n by (simp add: le_bytes_def bit_simps bit_le_word)
  qed
qed simp

lemma le_word_le_bytes:
  assumes "LENGTH('a::len) \<le> 8 * n"
  shows "le_word (le_bytes n (w :: 'a word)) = w"
proof (rule bit_word_eqI)
  fix i assume i: "i < LENGTH('a)"
  then have "i div 8 < n" using assms by auto
  moreover have "8 * (i div 8) + i mod 8 = i" by simp
  ultimately show "bit (le_word (le_bytes n w) :: 'a word) i = bit w i"
    using i by (simp add: bit_le_word le_bytes_def bit_simps)
qed

lemma le_word_inj:
  assumes "(le_word xs :: 'a::len word) = le_word ys" and "length xs = length ys"
    and "8 * length xs \<le> LENGTH('a)"
  shows "xs = ys"
proof (rule nth_equalityI)
  fix i assume i: "i < length xs"
  show "xs ! i = ys ! i"
  proof (rule bit_word_eqI)
    fix n assume n: "n < LENGTH(8)"
    then have "(8 * i + n) div 8 = i" "(8 * i + n) mod 8 = n" "8 * i + n < LENGTH('a)"
      using i assms(3) by auto
    then show "bit (xs ! i) n = bit (ys ! i) n"
      using assms(1,2) i bit_le_word [of xs "8 * i + n", where 'a = 'a]
        bit_le_word [of ys "8 * i + n", where 'a = 'a] by simp
  qed
qed (rule assms(2))

text \<open>A bound that is a numeral turns a quantifier over indices into a finite check.\<close>

lemma index_cases: "i < n \<Longrightarrow> list_all P [0..<n] \<Longrightarrow> P i"
  by (auto simp: list_all_iff)

lemma word_xor_eq_0: "(a XOR b = 0) = (a = (b :: 'a::len word))"
proof
  assume "a XOR b = 0"
  then have "(a XOR b) XOR b = 0 XOR b" by simp
  then show "a = b" by (simp add: xor.assoc)
qed simp

section \<open>Byte-range overlays\<close>

text \<open>A positioned write replaces the bytes it covers and keeps every other one.\<close>

definition overlay :: "nat \<Rightarrow> byte list \<Rightarrow> byte list \<Rightarrow> byte list" where
  "overlay off bs xs = take off xs @ bs @ drop (off + length bs) xs"

lemma length_overlay [simp]:
  "off + length bs \<le> length xs \<Longrightarrow> length (overlay off bs xs) = length xs"
  by (simp add: overlay_def)

lemma overlay_read [fs_simps]:
  "off \<le> length xs \<Longrightarrow> take (length bs) (drop off (overlay off bs xs)) = bs"
  by (simp add: overlay_def)

lemma overlay_read_before:
  "off \<le> length xs \<Longrightarrow> n \<le> off \<Longrightarrow> take n (overlay off bs xs) = take n xs"
  by (simp add: overlay_def)

lemma overlay_read_after:
  "off \<le> length xs \<Longrightarrow> off + length bs \<le> k \<Longrightarrow> drop k (overlay off bs xs) = drop k xs"
  by (simp add: overlay_def)

section \<open>Lists\<close>

lemma list_update_keeps_all:
  "(\<And>x. P x \<Longrightarrow> P (f x)) \<Longrightarrow> \<forall>x \<in> set xs. P x \<Longrightarrow> i < length xs \<Longrightarrow>
   \<forall>x \<in> set (xs[i := f (xs ! i)]). P x"
  by (metis insertE nth_mem set_update_subset_insert subsetD)

end
