(* ===== verification/Boot_Layout.thy ===== *)
theory Boot_Layout
  imports Prelude
begin

text \<open>
  The A/B metadata block of the misc partition and its checksum, from
  \<^verbatim>\<open>boot_control_definition.h\<close> and the first part of \<^verbatim>\<open>libboot_control.cpp\<close>.
  Structures are records whose bit-fields are words of the field's width, so that an
  assignment truncates as C does. The layout functions give the packed little-endian
  image the code writes to and reads from the device: bit-fields are allocated from the
  least significant bit, and a packed bit-field may straddle a byte.
\<close>

section \<open>The packed structures\<close>

record slot_metadata =
  priority :: "4 word"
  tries_remaining :: "3 word"
  successful_boot :: "1 word"
  verity_corrupted :: "1 word"
  slot_reserved :: "7 word"

record bootloader_control =
  slot_suffix :: "byte list"
  magic :: u32
  version :: byte
  nb_slot :: "3 word"
  recovery_tries_remaining :: "3 word"
  merge_status :: "3 word"
  bitfield_padding :: "7 word"
  roll_flag :: byte
  slot_info :: "slot_metadata list"
  merge_flag :: byte
  firstboot :: byte
  boot_tries_remaining :: byte
  reserved1 :: "byte list"
  crc32_le :: u32

definition BOOT_CTRL_MAGIC :: u32 where
  "BOOT_CTRL_MAGIC = 0x42414342"

definition BOOT_CTRL_VERSION :: byte where
  "BOOT_CTRL_VERSION = 1"

definition kMaxNumSlots :: nat where
  "kMaxNumSlots = 4"

definition kSlotSuffixes :: "string list" where
  "kSlotSuffixes = [''_a'', ''_b'', ''_c'', ''_d'']"

text \<open>Array members have the lengths the structure declares.\<close>

definition bc_wf :: "bootloader_control \<Rightarrow> bool" where
  "bc_wf bc \<longleftrightarrow> length (slot_suffix bc) = 4 \<and> length (slot_info bc) = 4 \<and> length (reserved1 bc) = 5"

definition slot_word :: "slot_metadata \<Rightarrow> u16" where
  "slot_word s =
     ucast (priority s) OR push_bit 4 (ucast (tries_remaining s))
     OR push_bit 7 (ucast (successful_boot s)) OR push_bit 8 (ucast (verity_corrupted s))
     OR push_bit 9 (ucast (slot_reserved s))"

definition word_slot :: "u16 \<Rightarrow> slot_metadata" where
  "word_slot w =
     \<lparr>priority = ucast w, tries_remaining = ucast (drop_bit 4 w),
      successful_boot = ucast (drop_bit 7 w), verity_corrupted = ucast (drop_bit 8 w),
      slot_reserved = ucast (drop_bit 9 w)\<rparr>"

definition counts_word :: "bootloader_control \<Rightarrow> u16" where
  "counts_word bc =
     ucast (nb_slot bc) OR push_bit 3 (ucast (recovery_tries_remaining bc))
     OR push_bit 6 (ucast (merge_status bc)) OR push_bit 9 (ucast (bitfield_padding bc))"

fun encode_slots :: "slot_metadata list \<Rightarrow> byte list" where
  "encode_slots [] = []"
| "encode_slots (s # ss) = le_bytes 2 (slot_word s) @ encode_slots ss"

fun decode_slots :: "byte list \<Rightarrow> slot_metadata list" where
  "decode_slots (b0 # b1 # bs) = word_slot (le_word [b0, b1]) # decode_slots bs"
| "decode_slots _ = []"

text \<open>The 28 bytes before the \<^verbatim>\<open>crc32_le\<close> member, then the whole structure.\<close>

definition encode_prefix :: "bootloader_control \<Rightarrow> byte list" where
  "encode_prefix bc =
     slot_suffix bc @ le_bytes 4 (magic bc) @ [version bc] @ le_bytes 2 (counts_word bc)
     @ [roll_flag bc] @ encode_slots (slot_info bc)
     @ [merge_flag bc, firstboot bc, boot_tries_remaining bc] @ reserved1 bc"

definition encode_bc :: "bootloader_control \<Rightarrow> byte list" where
  "encode_bc bc = encode_prefix bc @ le_bytes 4 (crc32_le bc)"

definition decode_bc :: "byte list \<Rightarrow> bootloader_control" where
  "decode_bc bs =
     (let counts = (le_word (take 2 (drop 9 bs)) :: u16) in
      \<lparr>slot_suffix = take 4 bs,
       magic = le_word (take 4 (drop 4 bs)),
       version = bs ! 8,
       nb_slot = ucast counts,
       recovery_tries_remaining = ucast (drop_bit 3 counts),
       merge_status = ucast (drop_bit 6 counts),
       bitfield_padding = ucast (drop_bit 9 counts),
       roll_flag = bs ! 11,
       slot_info = decode_slots (take 8 (drop 12 bs)),
       merge_flag = bs ! 20,
       firstboot = bs ! 21,
       boot_tries_remaining = bs ! 22,
       reserved1 = take 5 (drop 23 bs),
       crc32_le = le_word (take 4 (drop 28 bs))\<rparr>)"

section \<open>Round trips of the layout\<close>

lemma word_slot_slot_word [simp]: "word_slot (slot_word s) = s"
proof -
  have "ucast (slot_word s) = priority s"
    by (rule bit_word_eqI) (auto simp: slot_word_def bit_simps dest: bit_imp_le_length)
  moreover have "ucast (drop_bit 4 (slot_word s)) = tries_remaining s"
    by (rule bit_word_eqI) (auto simp: slot_word_def bit_simps dest: bit_imp_le_length)
  moreover have "ucast (drop_bit 7 (slot_word s)) = successful_boot s"
    by (rule bit_word_eqI) (auto simp: slot_word_def bit_simps dest: bit_imp_le_length)
  moreover have "ucast (drop_bit 8 (slot_word s)) = verity_corrupted s"
    by (rule bit_word_eqI) (auto simp: slot_word_def bit_simps dest: bit_imp_le_length)
  moreover have "ucast (drop_bit 9 (slot_word s)) = slot_reserved s"
    by (rule bit_word_eqI) (auto simp: slot_word_def bit_simps dest: bit_imp_le_length)
  ultimately show ?thesis by (simp add: word_slot_def)
qed


lemma slot_word_word_slot [simp]: "slot_word (word_slot w) = w"
proof (rule bit_word_eqI)
  fix n assume "n < LENGTH(16)"
  then have "n < 16" by simp
  then show "bit (slot_word (word_slot w)) n = bit w n"
    by (rule index_cases) (simp add: slot_word_def word_slot_def bit_simps upt_conv_Cons, simp add: numeral_eq_Suc)
qed

lemma counts_fields [layout_simps]:
  "ucast (counts_word bc) = nb_slot bc"
  "ucast (drop_bit 3 (counts_word bc)) = recovery_tries_remaining bc"
  "ucast (drop_bit 6 (counts_word bc)) = merge_status bc"
  "ucast (drop_bit 9 (counts_word bc)) = bitfield_padding bc"
  by (rule bit_word_eqI, auto simp: counts_word_def bit_simps dest: bit_imp_le_length)+

lemma counts_word_split [layout_simps]:
  "nb_slot bc = ucast w \<Longrightarrow> recovery_tries_remaining bc = ucast (drop_bit 3 w) \<Longrightarrow>
   merge_status bc = ucast (drop_bit 6 w) \<Longrightarrow> bitfield_padding bc = ucast (drop_bit 9 w) \<Longrightarrow>
   counts_word bc = w"
proof (rule bit_word_eqI)
  fix n assume fields: "nb_slot bc = ucast w" "recovery_tries_remaining bc = ucast (drop_bit 3 w)"
    "merge_status bc = ucast (drop_bit 6 w)" "bitfield_padding bc = ucast (drop_bit 9 w)"
    and "n < LENGTH(16)"
  then have "n < 16" by simp
  then show "bit (counts_word bc) n = bit w n"
    by (rule index_cases) (simp add: counts_word_def fields bit_simps upt_conv_Cons, simp add: numeral_eq_Suc)
qed

lemma length_encode_slots [simp]: "length (encode_slots ss) = 2 * length ss"
  by (induction ss) simp_all

lemma le_bytes_2: "le_bytes 2 (w :: u16) = [ucast w, ucast (drop_bit 8 w)]"
  by (simp add: le_bytes_def upt_rec)

lemma le_word_le_bytes_2 [simp]: "le_word [ucast (w :: u16), ucast (drop_bit 8 w)] = w"
  using le_word_le_bytes [where n = 2 and w = w] by (simp add: le_bytes_2)

lemma le_bytes_le_word_2 [simp]: "le_bytes 2 (le_word [b0, b1] :: u16) = [b0, b1]"
  using le_bytes_le_word [where 'a = 16 and bs = "[b0, b1]"] by (simp add: numeral_2_eq_2)

lemma decode_encode_slots [simp]: "decode_slots (encode_slots ss) = ss"
  by (induction ss) (simp_all add: le_bytes_2)

lemma encode_decode_slots: "even (length bs) \<Longrightarrow> encode_slots (decode_slots bs) = bs"
  by (induction bs rule: decode_slots.induct) simp_all

lemma length_decode_slots [simp]: "length (decode_slots bs) = length bs div 2"
  by (induction bs rule: decode_slots.induct) simp_all

lemma length_encode_prefix [layout_simps]: "bc_wf bc \<Longrightarrow> length (encode_prefix bc) = 28"
  by (simp add: bc_wf_def encode_prefix_def)

lemma length_encode_bc [layout_simps]: "bc_wf bc \<Longrightarrow> length (encode_bc bc) = 32"
  by (simp add: encode_bc_def layout_simps)

lemma decode_bc_wf: "length bs = 32 \<Longrightarrow> bc_wf (decode_bc bs)"
  by (simp add: bc_wf_def decode_bc_def Let_def)

lemma list_eq_4: "length xs = 4 \<Longrightarrow> \<exists>a b c d. xs = [a, b, c, d]"
  by (auto simp: numeral_eq_Suc length_Suc_conv)

lemma decode_encode_bc:
  assumes "bc_wf bc"
  shows "decode_bc (encode_bc bc) = bc"
proof -
  obtain a0 a1 a2 a3 where suffix: "slot_suffix bc = [a0, a1, a2, a3]"
    using assms by (auto simp: bc_wf_def dest!: list_eq_4)
  obtain m0 m1 m2 m3 where magic: "le_bytes 4 (magic bc) = [m0, m1, m2, m3]"
    using list_eq_4 [of "le_bytes 4 (magic bc)"] by auto
  obtain k0 k1 k2 k3 where crc: "le_bytes 4 (crc32_le bc) = [k0, k1, k2, k3]"
    using list_eq_4 [of "le_bytes 4 (crc32_le bc)"] by auto
  obtain s0 s1 s2 s3 where slots: "slot_info bc = [s0, s1, s2, s3]"
    using assms by (auto simp: bc_wf_def dest!: list_eq_4)
  obtain r0 rs where res: "reserved1 bc = r0 # rs" "length rs = 4"
    using assms by (auto simp: bc_wf_def length_Suc_conv numeral_eq_Suc)
  then obtain r1 r2 r3 r4 where rs: "rs = [r1, r2, r3, r4]" using list_eq_4 by blast
  have "le_word [m0, m1, m2, m3] = magic bc" "le_word [k0, k1, k2, k3] = crc32_le bc"
    using le_word_le_bytes [where n = 4 and w = "magic bc"]
      le_word_le_bytes [where n = 4 and w = "crc32_le bc"] by (simp_all add: magic crc)
  then show ?thesis
    by (simp add: decode_bc_def encode_bc_def encode_prefix_def Let_def suffix magic crc slots res rs
        le_bytes_2 counts_fields)
qed

lemma split_32:
  assumes "length (bs :: byte list) = 32"
  shows "bs = take 4 bs @ take 4 (drop 4 bs) @ [bs ! 8] @ take 2 (drop 9 bs) @ [bs ! 11]
    @ take 8 (drop 12 bs) @ [bs ! 20, bs ! 21, bs ! 22] @ take 5 (drop 23 bs) @ take 4 (drop 28 bs)"
  using assms
  by (intro nth_equalityI) (auto simp: nth_append nth_Cons' intro!: arg_cong [where f = "(!) bs"])

lemma encode_decode_bc:
  assumes "length bs = 32"
  shows "encode_bc (decode_bc bs) = bs"
proof -
  have w4: "length xs = 4 \<Longrightarrow> le_bytes 4 (le_word xs :: u32) = xs" for xs
    using le_bytes_le_word [where 'a = 32 and bs = xs] by simp
  have w2: "length xs = 2 \<Longrightarrow> le_bytes 2 (le_word xs :: u16) = xs" for xs
    using le_bytes_le_word [where 'a = 16 and bs = xs] by simp
  have "counts_word (decode_bc bs) = le_word (take 2 (drop 9 bs))"
    by (rule counts_word_split) (simp_all add: decode_bc_def Let_def)
  then show ?thesis
    using assms split_32 [OF assms]
    by (simp add: encode_bc_def encode_prefix_def) (simp add: decode_bc_def Let_def w2 w4 encode_decode_slots)
qed

end
