(* ===== verification/Boot_Crc.thy ===== *)
theory Boot_Crc
  imports Prelude
begin

text \<open>
  The checksum routine \<^verbatim>\<open>CRC32\<close> of \<^verbatim>\<open>libboot_control.cpp\<close>: a table of 256 words filled on
  the first call and kept in a static array, then one table look-up per byte. The
  reference it is compared with is the bit-serial CRC-32 shift register. The register
  step is linear and injective, which gives the detection of corrupted bytes.
\<close>

section \<open>The routine\<close>

definition crc_poly :: u32 where
  "crc_poly = 0xEDB88320"

text \<open>One round of the inner loop: \<^verbatim>\<open>mask = -(crc & 1); crc = (crc >> 1) ^ (0xEDB88320 & mask)\<close>.\<close>

definition crc_round :: "u32 \<Rightarrow> u32" where
  "crc_round crc = (let mask = - (crc AND 1) in drop_bit 1 crc XOR (crc_poly AND mask))"

definition crc_table_entry :: "u32 \<Rightarrow> u32" where
  "crc_table_entry i = (crc_round ^^ 8) i"

definition crc_fill :: "u32 list" where
  "crc_fill = map (\<lambda>i. crc_table_entry (of_nat i)) [0..<256]"

text \<open>The static array starts zeroed.\<close>

definition crc_table0 :: "u32 list" where
  "crc_table0 = replicate 256 0"

definition crc_byte :: "u32 list \<Rightarrow> u32 \<Rightarrow> byte \<Rightarrow> u32" where
  "crc_byte tbl ret b = drop_bit 8 ret XOR tbl ! unat ((ret XOR ucast b) AND 0xFF)"

text \<open>A call takes the static table and returns the checksum and the table it leaves.\<close>

definition CRC32_call :: "u32 list \<Rightarrow> byte list \<Rightarrow> u32 \<times> u32 list" where
  "CRC32_call tbl buf =
     (let tbl' = (if tbl ! 1 = 0 then crc_fill else tbl)
      in (NOT (foldl (crc_byte tbl') (- 1) buf), tbl'))"

definition CRC32 :: "byte list \<Rightarrow> u32" where
  "CRC32 buf = fst (CRC32_call crc_table0 buf)"

section \<open>The bit-serial reference\<close>

definition crc_shift :: "u32 \<Rightarrow> bool \<Rightarrow> u32" where
  "crc_shift r m = (if odd r \<noteq> m then drop_bit 1 r XOR crc_poly else drop_bit 1 r)"

definition byte_bits :: "byte \<Rightarrow> bool list" where
  "byte_bits b = map (bit b) [0..<8]"

definition crc32_reference :: "byte list \<Rightarrow> u32" where
  "crc32_reference buf = NOT (foldl crc_shift (NOT 0) (concat (map byte_bits buf)))"

section \<open>Linearity of the register\<close>

lemma crc_mask: "- (c AND 1) = (if odd c then - 1 else (0 :: u32))"
  by (simp add: and_one_eq odd_iff_mod_2_eq_one even_iff_mod_2_eq_zero)

lemma crc_round_alt [crc_simps]: "crc_round c = drop_bit 1 c XOR (if odd c then crc_poly else 0)"
  by (simp add: crc_round_def Let_def crc_mask)

lemma crc_round_xor: "crc_round (a XOR b) = crc_round a XOR crc_round b"
  by (auto simp: crc_simps drop_bit_xor even_xor_iff ac_simps)

lemma crc_rounds_xor: "(crc_round ^^ n) (a XOR b) = (crc_round ^^ n) a XOR (crc_round ^^ n) b"
  by (induction n) (simp_all add: crc_round_xor)

lemma crc_rounds_0 [simp]: "(crc_round ^^ n) 0 = 0"
  by (induction n) (simp_all add: crc_simps)

lemma crc_round_inj: "crc_round a = crc_round b \<Longrightarrow> a = b"
proof -
  have kernel: "crc_round c = 0 \<Longrightarrow> c = 0" for c
  proof (rule bit_word_eqI)
    fix n assume z: "crc_round c = 0" and n: "n < LENGTH(32)"
    have "even c"
    proof (rule ccontr)
      assume "odd c"
      with z have "drop_bit 1 c = crc_poly" by (simp add: crc_simps word_xor_eq_0)
      then have "bit (drop_bit 1 c) 31 = bit crc_poly 31" by simp
      then show False by (auto simp: crc_poly_def bit_simps dest: bit_imp_le_length)
    qed
    with z have "drop_bit 1 c = 0" by (simp add: crc_simps)
    then have "bit (drop_bit 1 c) m = bit 0 m" for m by simp
    then have "\<not> bit c (Suc m)" for m by (simp add: bit_drop_bit_eq)
    with \<open>even c\<close> show "bit c n = bit 0 n" by (cases n) (simp_all add: bit_0)
  qed
  assume "crc_round a = crc_round b"
  then have "crc_round (a XOR b) = 0" by (simp add: crc_round_xor)
  then have "a XOR b = 0" by (rule kernel)
  then show "a = b" by (simp add: word_xor_eq_0)
qed

lemma crc_rounds_inj: "(crc_round ^^ n) a = (crc_round ^^ n) b \<Longrightarrow> a = b"
  by (induction n arbitrary: a b) (auto dest: crc_round_inj)

text \<open>Rounds over zero low bits only shift.\<close>

lemma crc_rounds_shift: "take_bit n c = 0 \<Longrightarrow> (crc_round ^^ n) c = drop_bit n c"
proof (induction n)
  case 0
  then show ?case by simp
next
  case (Suc n)
  then have low: "\<not> bit c i" if "i \<le> n" for i
    using that by (metis bit_0_eq bit_take_bit_iff bot_apply le_imp_less_Suc bot_bool_def)
  then have "take_bit n c = 0"
    by (intro bit_word_eqI) (auto simp: bit_simps)
  then have "(crc_round ^^ n) c = drop_bit n c" by (rule Suc.IH)
  moreover have "even (drop_bit n c)" using low [of n] by (simp add: bit_iff_odd_drop_bit)
  ultimately show ?case by (simp add: crc_round_alt [of "drop_bit n c"])
qed


section \<open>The table step is eight register rounds\<close>

lemma crc_fill_nth: "i < 256 \<Longrightarrow> crc_fill ! i = (crc_round ^^ 8) (of_nat i)"
  by (simp add: crc_fill_def crc_table_entry_def)

lemma low_byte_mask: "(0xFF :: u32) = mask 8"
  by (simp add: mask_eq_exp_minus_1)

lemma and_FF_less: "unat (c AND 0xFF :: u32) < 256"
proof -
  have "unat (c AND 0xFF) \<le> unat (0xFF :: u32)"
    by (rule word_and_le1 [THEN word_le_nat_alt [THEN iffD1]])
  then show ?thesis by simp
qed

lemma crc_eight_rounds: "(crc_round ^^ 8) c = drop_bit 8 c XOR crc_fill ! unat (c AND 0xFF)"
proof -
  let ?low = "c AND mask 8" and ?high = "c AND NOT (mask 8)"
  have split: "c = ?low XOR ?high"
    by (rule bit_word_eqI) (auto simp: bit_simps)
  have "take_bit 8 ?high = 0"
    by (rule bit_word_eqI) (auto simp: bit_simps)
  then have high: "(crc_round ^^ 8) ?high = drop_bit 8 ?high"
    by (rule crc_rounds_shift)
  have shift: "drop_bit 8 ?high = drop_bit 8 c"
    by (rule bit_word_eqI) (auto simp: bit_simps dest: bit_imp_le_length)
  have low: "(crc_round ^^ 8) ?low = crc_fill ! unat ?low"
    using and_FF_less [of c] by (simp add: crc_fill_nth low_byte_mask)
  have "(crc_round ^^ 8) c = (crc_round ^^ 8) ?low XOR (crc_round ^^ 8) ?high"
    by (subst (1) split) (rule crc_rounds_xor)
  then show ?thesis by (simp only: high low shift low_byte_mask xor.commute)
qed

lemma crc_byte_rounds: "crc_byte crc_fill r b = (crc_round ^^ 8) (r XOR ucast b)"
proof -
  have "drop_bit 8 (ucast b :: u32) = 0"
    by (rule bit_word_eqI) (auto simp: bit_simps dest: bit_imp_le_length)
  then show ?thesis by (simp add: crc_byte_def crc_eight_rounds drop_bit_xor)
qed

lemma crc_fill_1: "crc_fill ! 1 \<noteq> 0"
proof
  assume "crc_fill ! 1 = 0"
  then have "(crc_round ^^ 8) 1 = (crc_round ^^ 8) 0" by (simp add: crc_fill_nth del: funpow.simps)
  then have "(1 :: u32) = 0" by (rule crc_rounds_inj)
  then show False by simp
qed

lemma CRC32_alt: "CRC32 buf = NOT (foldl (crc_byte crc_fill) (- 1) buf)"
  by (simp add: CRC32_def CRC32_call_def crc_table0_def)

lemma CRC32_call_cached:
  "tbl = crc_table0 \<or> tbl = crc_fill \<Longrightarrow> CRC32_call tbl buf = (CRC32 buf, crc_fill)"
  using crc_fill_1 by (auto simp: CRC32_alt CRC32_call_def crc_table0_def Let_def)

section \<open>Equality with the reference\<close>

lemma crc_shift_round: "crc_shift r m = crc_round (r XOR of_bool m)"
  by (cases m) (auto simp: crc_shift_def crc_simps drop_bit_xor even_xor_iff)

lemma crc_shift_bits:
  "k \<le> 8 \<Longrightarrow> foldl crc_shift r (map (bit b) [0..<k]) = (crc_round ^^ k) (r XOR take_bit k (ucast (b :: byte)))"
proof (induction k)
  case 0
  then show ?case by simp
next
  case (Suc k)
  let ?m = "push_bit k (of_bool (bit b k)) :: u32"
  have "take_bit (Suc k) (ucast b :: u32) = take_bit k (ucast b) XOR ?m"
    by (rule bit_word_eqI) (use Suc.prems in \<open>auto simp: bit_simps bit_of_bool_iff less_Suc_eq\<close>)
  moreover have "(crc_round ^^ k) ?m = of_bool (bit b k)"
  proof -
    have "take_bit k ?m = 0" by (simp add: take_bit_push_bit)
    then have "(crc_round ^^ k) ?m = drop_bit k ?m" by (rule crc_rounds_shift)
    also have "\<dots> = of_bool (bit b k)"
      by (rule bit_word_eqI) (use Suc.prems in \<open>auto simp: bit_simps bit_of_bool_iff\<close>)
    finally show ?thesis .
  qed
  ultimately show ?case
    using Suc by (simp add: crc_shift_round crc_rounds_xor xor.assoc [symmetric])
qed

lemma crc_shift_byte: "foldl crc_shift r (byte_bits b) = crc_byte crc_fill r b"
proof -
  have "take_bit 8 (ucast b :: u32) = ucast b"
    by (rule bit_word_eqI) (auto simp: bit_simps dest: bit_imp_le_length)
  then show ?thesis
    by (simp add: byte_bits_def crc_shift_bits crc_byte_rounds)
qed

lemma crc_reference_register:
  "foldl crc_shift r (concat (map byte_bits buf)) = foldl (crc_byte crc_fill) r buf"
  by (induction buf arbitrary: r) (simp_all add: crc_shift_byte)

lemma CRC32_reference: "CRC32 buf = crc32_reference buf"
  by (simp add: CRC32_alt crc32_reference_def crc_reference_register)

section \<open>Detection of burst corruption\<close>

lemma crc_bytes_rounds:
  "length bs \<le> 4 \<Longrightarrow>
   foldl (crc_byte crc_fill) r bs = (crc_round ^^ (8 * length bs)) (r XOR le_word bs)"
proof (induction bs arbitrary: r)
  case Nil
  then show ?case by (simp add: le_word.simps)
next
  case (Cons b bs)
  let ?w = "le_word bs :: u32"
  have "le_word (b # bs) = ucast b XOR push_bit 8 ?w"
    by (rule bit_word_eqI) (auto simp: le_word.simps bit_simps dest: bit_imp_le_length)
  moreover have "(crc_round ^^ 8) (push_bit 8 ?w) = ?w"
  proof -
    have "take_bit 8 (push_bit 8 ?w) = 0" by (simp add: take_bit_push_bit)
    then have "(crc_round ^^ 8) (push_bit 8 ?w) = drop_bit 8 (push_bit 8 ?w)" by (rule crc_rounds_shift)
    also have "\<dots> = ?w"
      by (rule bit_word_eqI) (use Cons.prems in \<open>auto simp: bit_simps bit_le_word\<close>)
    finally show ?thesis .
  qed
  moreover have "8 * length (b # bs) = 8 * length bs + 8" by simp
  ultimately have "(crc_round ^^ (8 * length (b # bs))) (r XOR le_word (b # bs))
      = (crc_round ^^ (8 * length bs)) ((crc_round ^^ 8) (r XOR ucast b) XOR ?w)"
    by (simp only: funpow_add o_apply crc_rounds_xor xor.assoc)
  moreover have "foldl (crc_byte crc_fill) r (b # bs)
      = (crc_round ^^ (8 * length bs)) ((crc_round ^^ 8) (r XOR ucast b) XOR ?w)"
    using Cons by (simp only: foldl_Cons crc_byte_rounds [of r b]) simp
  ultimately show ?case by (simp only:)
qed

lemma crc_register_inj:
  "foldl (crc_byte crc_fill) r bs = foldl (crc_byte crc_fill) r' bs \<Longrightarrow> r = r'"
proof (induction bs arbitrary: r r')
  case Nil
  then show ?case by simp
next
  case (Cons b bs)
  then have "crc_byte crc_fill r b = crc_byte crc_fill r' b" by simp
  then have "r XOR ucast b = r' XOR ucast b" unfolding crc_byte_rounds by (rule crc_rounds_inj)
  then have "(r XOR ucast b) XOR ucast b = (r' XOR ucast b) XOR ucast b" by simp
  then show ?case by (simp add: xor.assoc)
qed

lemma CRC32_burst:
  assumes "length xs = length ys" and "length xs \<le> 4"
    and "CRC32 (pre @ xs @ post) = CRC32 (pre @ ys @ post)"
  shows "xs = ys"
proof -
  let ?r = "foldl (crc_byte crc_fill) (- 1) pre"
  from assms(3) have "foldl (crc_byte crc_fill) ?r xs = foldl (crc_byte crc_fill) ?r ys"
    by (auto simp: CRC32_alt dest: crc_register_inj)
  then have "(crc_round ^^ (8 * length xs)) (?r XOR le_word xs) = (crc_round ^^ (8 * length xs)) (?r XOR le_word ys)"
    using assms(1,2) by (simp add: crc_bytes_rounds)
  then have "?r XOR le_word xs = ?r XOR le_word ys" by (rule crc_rounds_inj)
  then have "?r XOR (?r XOR le_word xs) = ?r XOR (?r XOR le_word ys)" by simp
  then have "(le_word xs :: u32) = le_word ys" by (simp add: xor.assoc [symmetric])
  with assms(1,2) show ?thesis by (intro le_word_inj) auto
qed

text \<open>A message followed by its own checksum always leaves the same residue.\<close>

lemma CRC32_residue:
  assumes "length bs = 4" and "le_word bs = CRC32 msg"
  shows "CRC32 (msg @ bs) = NOT ((crc_round ^^ 32) (- 1))"
proof -
  have "r XOR NOT r = - 1" for r :: u32
    by (rule bit_word_eqI) (simp add: bit_simps)
  then show ?thesis
    using assms(2) crc_bytes_rounds [of bs "foldl (crc_byte crc_fill) (- 1) msg"] assms(1)
    by (simp add: CRC32_alt del: funpow.simps)
qed

end
