(* ===== verification/Boot_Device.thy ===== *)
theory Boot_Device
  imports Boot_Layout Boot_Crc
begin

text \<open>
  The world the boot-control library runs in, and the helper routines of
  \<^verbatim>\<open>libboot_control.cpp\<close> that touch it: loading and saving the metadata block, the GPT
  check, the system-boot-complete flag, copying the bootloader image, the U-Boot
  environment.

  Block devices are byte lists with permissions and a write limit (the offset at which
  the medium stops accepting data), so that short transfers occur in the model.
  Everything the library obtains from code outside this repository (Android properties,
  \<^verbatim>\<open>libbootloader_message\<close>, \<^verbatim>\<open>Ubootenv\<close>, the system-control service, the \<^verbatim>\<open>tee_info\<close>
  driver, reboot) is a field of the parameter record \<open>services\<close>, acting on a state of its
  own.
\<close>

section \<open>World and services\<close>

record device =
  content :: "byte list"
  readable :: bool
  writable :: bool
  write_limit :: nat

datatype stat_result = StatOk | StatNoEntry | StatError

record 'x world =
  devices :: "string \<Rightarrow> device option"
  stat_of :: "string \<Rightarrow> stat_result"
  malloc_ok :: bool
  outside :: 'x

text \<open>The members of the Virtual A/B message that the source reads or writes.\<close>

record misc_virtual_ab_message =
  vab_version :: byte
  vab_magic :: u32
  vab_merge_status :: byte
  vab_source_slot :: nat

record 'x services =
  GetProperty :: "string \<Rightarrow> string \<Rightarrow> 'x \<Rightarrow> string"
  get_bootloader_message_blk_device :: "'x \<Rightarrow> string"
  ReadMiscVirtualAbMessage :: "'x \<Rightarrow> misc_virtual_ab_message option"
  WriteMiscVirtualAbMessage :: "misc_virtual_ab_message \<Rightarrow> 'x \<Rightarrow> bool \<times> 'x"
  MISC_VIRTUAL_AB_MESSAGE_VERSION :: byte
  MISC_VIRTUAL_AB_MAGIC_HEADER :: u32
  HIDL_NONE :: u32
  HIDL_UNKNOWN :: u32
  HIDL_SNAPSHOTTED :: u32
  HIDL_MERGING :: u32
  HIDL_CANCELLED :: u32
  updateValue :: "string \<Rightarrow> string \<Rightarrow> 'x \<Rightarrow> int \<times> 'x"
  getValue :: "string \<Rightarrow> 'x \<Rightarrow> string option"
  setBootEnv :: "string \<Rightarrow> string \<Rightarrow> 'x \<Rightarrow> 'x"
  getBootEnv :: "string \<Rightarrow> 'x \<Rightarrow> string"
  write_sys_boot_complete :: "byte list \<Rightarrow> 'x \<Rightarrow> int option \<times> 'x"
  read_sys_boot_complete :: "'x \<Rightarrow> byte list option"
  android_reboot :: "'x \<Rightarrow> int \<times> 'x"

section \<open>Device files\<close>

definition open_ro :: "'x world \<Rightarrow> string \<Rightarrow> device option" where
  "open_ro w p = (case devices w p of Some d \<Rightarrow> if readable d then Some d else None | None \<Rightarrow> None)"

definition open_wo :: "'x world \<Rightarrow> string \<Rightarrow> device option" where
  "open_wo w p = (case devices w p of Some d \<Rightarrow> if writable d then Some d else None | None \<Rightarrow> None)"

definition open_rw :: "'x world \<Rightarrow> string \<Rightarrow> device option" where
  "open_rw w p = (case devices w p of
     Some d \<Rightarrow> if readable d \<and> writable d then Some d else None | None \<Rightarrow> None)"

definition dev_read :: "device \<Rightarrow> nat \<Rightarrow> nat \<Rightarrow> byte list" where
  "dev_read d off n = take n (drop off (content d))"

text \<open>The number of bytes transferred and the device after the transfer.\<close>

definition dev_write :: "device \<Rightarrow> nat \<Rightarrow> byte list \<Rightarrow> nat \<times> device" where
  "dev_write d off bs =
     (let k = min (length bs) (min (write_limit d) (length (content d)) - off)
      in (k, d\<lparr>content := overlay off (take k bs) (content d)\<rparr>))"

definition put_device :: "string \<Rightarrow> device \<Rightarrow> 'x world \<Rightarrow> 'x world" where
  "put_device p d w = w\<lparr>devices := (devices w)(p \<mapsto> d)\<rparr>"

section \<open>The metadata block\<close>

text \<open>
  \<^verbatim>\<open>offsetof(bootloader_message_ab, slot_suffix)\<close>: the structure is 4096 bytes long and
  32 + 128 + 1888 of them follow the leading \<^verbatim>\<open>bootloader_message\<close>.
\<close>

definition kBootloaderControlOffset :: nat where
  "kBootloaderControlOffset = 4096 - (32 + 128 + 1888)"

definition sizeof_bootloader_control :: nat where
  "sizeof_bootloader_control = 32"

definition offsetof_crc32_le :: nat where
  "offsetof_crc32_le = 28"

definition BootloaderControlLECRC :: "bootloader_control \<Rightarrow> u32" where
  "BootloaderControlLECRC boot_ctrl = CRC32 (take offsetof_crc32_le (encode_bc boot_ctrl))"

definition LoadBootloaderControl :: "'x world \<Rightarrow> string \<Rightarrow> bootloader_control option" where
  "LoadBootloaderControl w misc_device =
     (case open_ro w misc_device of
        None \<Rightarrow> None
      | Some d \<Rightarrow>
          (let bs = dev_read d kBootloaderControlOffset sizeof_bootloader_control
           in if length bs = sizeof_bootloader_control then Some (decode_bc bs) else None))"

definition UpdateAndSaveBootloaderControl ::
  "'x world \<Rightarrow> string \<Rightarrow> bootloader_control \<Rightarrow> bool \<times> bootloader_control \<times> 'x world" where
  "UpdateAndSaveBootloaderControl w misc_device buffer =
     (let buffer' = buffer\<lparr>crc32_le := BootloaderControlLECRC buffer\<rparr> in
      case open_wo w misc_device of
        None \<Rightarrow> (False, buffer', w)
      | Some d \<Rightarrow>
          (if length (content d) < kBootloaderControlOffset then (False, buffer', w)
           else let (k, d') = dev_write d kBootloaderControlOffset (encode_bc buffer')
                in (k = sizeof_bootloader_control, buffer', put_device misc_device d' w)))"

section \<open>GPT detection and the bootloader image\<close>

definition GPT_HEADER_SIGNATURE_UBOOT :: u64 where
  "GPT_HEADER_SIGNATURE_UBOOT = 0x5452415020494645"

definition BOOTLOADER_MAX_SIZE :: nat where
  "BOOTLOADER_MAX_SIZE = 4 * 1024 * 1024"

definition BOOTLOADER_OFFSET :: nat where
  "BOOTLOADER_OFFSET = 512"

definition EMMC_DEVICE :: string where
  "EMMC_DEVICE = ''/dev/block/by-name/mmcblk0''"

definition is_valid_gpt_buf :: "byte list \<Rightarrow> int" where
  "is_valid_gpt_buf buf =
     (if (le_word (take 8 (drop 512 buf)) :: u64) \<noteq> GPT_HEADER_SIGNATURE_UBOOT then -1 else 0)"

definition get_gpt_mode :: "'x world \<Rightarrow> int" where
  "get_gpt_mode w =
     (case open_ro w EMMC_DEVICE of
        None \<Rightarrow> -1
      | Some d \<Rightarrow>
          (let buffer = dev_read d 0 1024 in
           if length buffer \<noteq> 1024 then -1
           else if is_valid_gpt_buf buffer = 0 then 0 else 1))"

definition image_source :: "nat \<Rightarrow> bool \<Rightarrow> string" where
  "image_source slot gpt_flag =
     (if slot = 0 then (if gpt_flag then ''/dev/block/by-name/bootloader_a'' else ''/dev/block/bootloader0'')
      else (if gpt_flag then ''/dev/block/by-name/bootloader_b'' else ''/dev/block/bootloader1''))"

definition image_target :: "bool \<Rightarrow> string" where
  "image_target gpt_flag =
     (if gpt_flag then ''/dev/block/mmcblk0boot0'' else ''/dev/block/by-name/bootloader'')"

definition write_bootloader_img :: "nat \<Rightarrow> bool \<Rightarrow> 'x world \<Rightarrow> bool \<times> 'x world" where
  "write_bootloader_img slot gpt_flag w =
     (let len = BOOTLOADER_MAX_SIZE - BOOTLOADER_OFFSET in
      if \<not> malloc_ok w then (False, w)
      else case open_rw w (image_source slot gpt_flag) of
        None \<Rightarrow> (False, w)
      | Some d \<Rightarrow>
          (let img = dev_read d 0 len; data = img @ replicate (BOOTLOADER_MAX_SIZE - length img) 0 in
           if length img \<noteq> len then (False, w)
           else if \<not> gpt_flag \<and> is_valid_gpt_buf (drop 0x3DFE00 data) = 0 then (True, w)
           else case open_rw w (image_target gpt_flag) of
             None \<Rightarrow> (False, w)
           | Some d2 \<Rightarrow>
               (if length (content d2) < BOOTLOADER_OFFSET then (False, w)
                else let (k, d2') = dev_write d2 BOOTLOADER_OFFSET (take len data)
                     in (k = len, put_device (image_target gpt_flag) d2' w))))"

section \<open>System-boot-complete flag, reboot\<close>

definition set_sys_boot_complete :: "'x services \<Rightarrow> 'x world \<Rightarrow> int \<times> 'x world" where
  "set_sys_boot_complete S w =
     (let (len, x) = write_sys_boot_complete S [of_char CHR ''1'', 0] (outside w) in
      (case len of None \<Rightarrow> -1 | Some n \<Rightarrow> if n \<noteq> 2 then -1 else 0, w\<lparr>outside := x\<rparr>))"

definition get_sys_boot_complete :: "'x services \<Rightarrow> 'x world \<Rightarrow> int" where
  "get_sys_boot_complete S w =
     (case read_sys_boot_complete S (outside w) of
        None \<Rightarrow> -1
      | Some bs \<Rightarrow> if take 1 (take 8 bs) = [of_char CHR ''1''] then 0 else -1)"

text \<open>A successful reboot request never returns: the caller pauses for ever.\<close>

definition reboot_device :: "'x services \<Rightarrow> 'x world \<Rightarrow> int outcome \<times> 'x world" where
  "reboot_device S w =
     (let (r, x) = android_reboot S (outside w) in
      (if r = -1 then Ret (-1) else Rebooting, w\<lparr>outside := x\<rparr>))"

section \<open>The U-Boot environment\<close>

definition is_recovery_mode :: "'x world \<Rightarrow> int" where
  "is_recovery_mode w = (if stat_of w ''/system/bin/recovery'' = StatOk then 1 else 0)"

definition ubootenv_name :: "string \<Rightarrow> string" where
  "ubootenv_name name = ''ubootenv.var.'' @ name"

definition c_str :: "string \<Rightarrow> string" where
  "c_str s = takeWhile (\<lambda>c. c \<noteq> CHR 0x00) s"

text \<open>The 64-byte static buffer keeps at most 63 characters and a terminator.\<close>

definition env_buffer_of :: "string \<Rightarrow> string" where
  "env_buffer_of s = take 63 (c_str s)"

definition set_bootloader_env :: "'x services \<Rightarrow> string \<Rightarrow> string \<Rightarrow> 'x world \<Rightarrow> int \<times> 'x world" where
  "set_bootloader_env S name value w =
     (let (r, x) = updateValue S (ubootenv_name name) value (outside w) in
      (if r \<noteq> 0 then -1 else 0, w\<lparr>outside := x\<rparr>))"

definition get_bootloader_env :: "'x services \<Rightarrow> string \<Rightarrow> 'x world \<Rightarrow> string option" where
  "get_bootloader_env S name w =
     (case getValue S (ubootenv_name name) (outside w) of
        None \<Rightarrow> None
      | Some uboot_env \<Rightarrow> Some (env_buffer_of uboot_env))"

definition sc_set_bootenv :: "'x services \<Rightarrow> string \<Rightarrow> string \<Rightarrow> 'x world \<Rightarrow> 'x world" where
  "sc_set_bootenv S key val w = w\<lparr>outside := setBootEnv S (ubootenv_name key) val (outside w)\<rparr>"

definition sc_read_bootenv :: "'x services \<Rightarrow> string \<Rightarrow> 'x world \<Rightarrow> string" where
  "sc_read_bootenv S key w = getBootEnv S (ubootenv_name key) (outside w)"

definition set_bootloader_env_common :: "'x services \<Rightarrow> string \<Rightarrow> string \<Rightarrow> 'x world \<Rightarrow> 'x world" where
  "set_bootloader_env_common S name value w =
     (if is_recovery_mode w = 1 then snd (set_bootloader_env S name value w)
      else sc_set_bootenv S name value w)"

definition get_bootloader_env_common :: "'x services \<Rightarrow> string \<Rightarrow> 'x world \<Rightarrow> string option" where
  "get_bootloader_env_common S name w =
     (if is_recovery_mode w = 1 then get_bootloader_env S name w
      else Some (env_buffer_of (sc_read_bootenv S name w)))"


section \<open>Facts about loading and saving\<close>

definition crc_valid :: "bootloader_control \<Rightarrow> bool" where
  "crc_valid bc \<longleftrightarrow> crc32_le bc = BootloaderControlLECRC bc"

definition seal :: "bootloader_control \<Rightarrow> bootloader_control" where
  "seal bc = bc\<lparr>crc32_le := BootloaderControlLECRC bc\<rparr>"

definition can_read :: "string \<Rightarrow> 'x world \<Rightarrow> bool" where
  "can_read p w \<longleftrightarrow> (case devices w p of Some d \<Rightarrow> readable d | None \<Rightarrow> False)"

lemmas offset_defs = kBootloaderControlOffset_def sizeof_bootloader_control_def offsetof_crc32_le_def

lemma encode_prefix_crc [simp]: "encode_prefix (bc\<lparr>crc32_le := c\<rparr>) = encode_prefix bc"
  by (simp add: encode_prefix_def counts_word_def)

lemma seal_simps [simp]:
  "slot_info (seal bc) = slot_info bc" "nb_slot (seal bc) = nb_slot bc"
  "merge_flag (seal bc) = merge_flag bc" "firstboot (seal bc) = firstboot bc"
  "roll_flag (seal bc) = roll_flag bc" "bc_wf (seal bc) = bc_wf bc"
  "encode_prefix (seal bc) = encode_prefix bc"
  by (simp_all add: seal_def bc_wf_def)

lemma LECRC_prefix: "bc_wf bc \<Longrightarrow> BootloaderControlLECRC bc = CRC32 (encode_prefix bc)"
  by (simp add: BootloaderControlLECRC_def encode_bc_def offset_defs layout_simps)

lemma crc_valid_seal: "bc_wf bc \<Longrightarrow> crc_valid (seal bc)"
  by (simp add: crc_valid_def LECRC_prefix) (simp add: seal_def LECRC_prefix)

lemma load_wf: "LoadBootloaderControl w p = Some bc \<Longrightarrow> bc_wf bc"
  by (auto simp: LoadBootloaderControl_def Let_def offset_defs decode_bc_wf
      split: option.splits if_splits)

lemma load_can_read: "LoadBootloaderControl w p = Some bc \<Longrightarrow> can_read p w"
  by (auto simp: LoadBootloaderControl_def open_ro_def can_read_def split: option.splits if_splits)

lemma save_seals:
  "UpdateAndSaveBootloaderControl w p bc = (r, bc', w') \<Longrightarrow> bc' = seal bc"
  by (auto simp: UpdateAndSaveBootloaderControl_def seal_def Let_def split: option.splits if_splits prod.splits)

lemma dev_write_readable: "dev_write d off bs = (k, d') \<Longrightarrow> readable d' = readable d"
  by (auto simp: dev_write_def Let_def)

lemma can_read_put_device:
  "devices w q = Some d \<Longrightarrow> readable d' = readable d \<Longrightarrow> can_read p (put_device q d' w) = can_read p w"
  by (auto simp: can_read_def put_device_def)

lemma save_can_read:
  "UpdateAndSaveBootloaderControl w p bc = (r, bc', w') \<Longrightarrow> can_read q w' = can_read q w"
  by (auto simp: UpdateAndSaveBootloaderControl_def open_wo_def Let_def can_read_def put_device_def
      dest!: dev_write_readable split: option.splits if_splits prod.splits)

text \<open>A save that reports success stored the whole block and nothing else.\<close>

lemma save_success:
  assumes "UpdateAndSaveBootloaderControl w p bc = (True, bc', w')" and "bc_wf bc"
  obtains d where "devices w p = Some d" "writable d"
    "kBootloaderControlOffset + 32 \<le> length (content d)"
    "w' = put_device p (d\<lparr>content := overlay kBootloaderControlOffset (encode_bc (seal bc)) (content d)\<rparr>) w"
proof -
  have len: "length (encode_bc (seal bc)) = 32" using assms(2) by (simp add: layout_simps)
  from assms(1) obtain d d' where d: "devices w p = Some d" "writable d"
    and wr: "dev_write d kBootloaderControlOffset (encode_bc (seal bc)) = (32, d')"
      "w' = put_device p d' w"
    by (auto simp: UpdateAndSaveBootloaderControl_def Let_def open_wo_def seal_def [symmetric]
        sizeof_bootloader_control_def split: option.splits if_splits prod.splits)
  show thesis
    using d wr len by (intro that [of d]) (auto simp: dev_write_def Let_def)
qed

lemma save_then_load:
  assumes "UpdateAndSaveBootloaderControl w p bc = (True, bc', w')" and "bc_wf bc" and "can_read p w"
  shows "LoadBootloaderControl w' p = Some bc'"
proof -
  from assms(1,2) obtain e where e: "devices w p = Some e"
    "kBootloaderControlOffset + 32 \<le> length (content e)"
    "w' = put_device p (e\<lparr>content := overlay kBootloaderControlOffset (encode_bc (seal bc)) (content e)\<rparr>) w"
    by (rule save_success)
  then have "dev_read (e\<lparr>content := overlay kBootloaderControlOffset (encode_bc (seal bc)) (content e)\<rparr>)
      kBootloaderControlOffset 32 = encode_bc (seal bc)"
    using overlay_read [of kBootloaderControlOffset "content e" "encode_bc (seal bc)"] assms(2)
    by (simp add: dev_read_def layout_simps)
  then show ?thesis
    using e assms save_seals [OF assms(1)]
    by (simp add: LoadBootloaderControl_def open_ro_def put_device_def sizeof_bootloader_control_def
        layout_simps decode_encode_bc Let_def can_read_def)
qed

section \<open>The block store interface\<close>

text \<open>
  What the operations rely on: a loaded block is well formed; a successful save of a
  well-formed block is what the next load returns, sealed with its checksum.
\<close>

locale block_store =
  fixes load :: "'w \<Rightarrow> 'b option"
    and save :: "'w \<Rightarrow> 'b \<Rightarrow> bool \<times> 'b \<times> 'w"
    and wf :: "'b \<Rightarrow> bool"
    and sealed :: "'b \<Rightarrow> 'b"
    and loadable :: "'w \<Rightarrow> bool"
  assumes load_wf: "load w = Some b \<Longrightarrow> wf b"
    and load_loadable: "load w = Some b \<Longrightarrow> loadable w"
    and save_sealed: "save w b = (r, b', w') \<Longrightarrow> b' = sealed b"
    and save_loadable: "save w b = (r, b', w') \<Longrightarrow> loadable w' = loadable w"
    and load_save: "save w b = (True, b', w') \<Longrightarrow> wf b \<Longrightarrow> loadable w \<Longrightarrow> load w' = Some b'"
begin

lemma update_stored:
  "load w = Some b \<Longrightarrow> (\<And>c. wf c \<Longrightarrow> wf (f c)) \<Longrightarrow> loadable w1 \<Longrightarrow> save w1 (f b) = (True, b', w') \<Longrightarrow>
   load w' = Some (sealed (f b))"
  using load_save load_wf save_sealed by metis

text \<open>A second read-modify-write works on what the first one stored.\<close>

lemma update_twice:
  assumes "load w = Some b" "\<And>c. wf c \<Longrightarrow> wf (f c)" "\<And>c. wf c \<Longrightarrow> wf (g c)"
    and "save w (f b) = (True, b1, w1)" and "save w1 (g b1) = (True, b2, w2)"
  shows "load w2 = Some (sealed (g (sealed (f b))))"
proof -
  have "load w1 = Some (sealed (f b))"
    using assms load_loadable by (blast intro: update_stored)
  then show ?thesis
    using assms load_loadable save_sealed by (metis update_stored)
qed

end

interpretation misc: block_store "\<lambda>w. LoadBootloaderControl w p" "\<lambda>w. UpdateAndSaveBootloaderControl w p"
  bc_wf seal "can_read p"
  for p
  by unfold_locales (auto dest: load_wf load_can_read save_seals save_can_read save_then_load)

end
