(* ===== verification/Boot_Control.thy ===== *)
theory Boot_Control
  imports Boot_Device
begin

text \<open>
  The class \<^verbatim>\<open>BootControl\<close> of \<^verbatim>\<open>libboot_control.cpp\<close>: its object, the default metadata
  block, and every public operation with the whole control flow of the source. An
  operation takes the object and the world and returns an \<open>outcome\<close> and the new world;
  indexing \<^verbatim>\<open>slot_info\<close> past its four entries is the outcome \<open>Undefined\<close>.
\<close>

section \<open>The object and the default block\<close>

record boot_control =
  is_initialized :: bool
  misc_dev :: string
  num_slots :: nat
  current_slot :: nat

definition new_BootControl :: boot_control where
  "new_BootControl = \<lparr>is_initialized = False, misc_dev = [], num_slots = 0, current_slot = 0\<rparr>"

definition kDefaultBootAttempts :: nat where
  "kDefaultBootAttempts = 7"

definition empty_slot :: slot_metadata where
  "empty_slot = \<lparr>priority = 0, tries_remaining = 0, successful_boot = 0, verity_corrupted = 0, slot_reserved = 0\<rparr>"

definition zeroed_control :: bootloader_control where
  "zeroed_control =
     \<lparr>slot_suffix = replicate 4 0, magic = 0, version = 0, nb_slot = 0, recovery_tries_remaining = 0,
      merge_status = 0, bitfield_padding = 0, roll_flag = 0, slot_info = replicate 4 empty_slot,
      merge_flag = 0, firstboot = 0, boot_tries_remaining = 0, reserved1 = replicate 5 0, crc32_le = 0\<rparr>"

definition strlcpy :: "byte list \<Rightarrow> string \<Rightarrow> byte list" where
  "strlcpy dst src =
     (let n = min (length src) (length dst - 1)
      in map of_char (take n src) @ [0] @ drop (n + 1) dst)"

text \<open>The text up to and including the last separator, if there is one.\<close>

definition upto_last_sep :: "string \<Rightarrow> string option" where
  "upto_last_sep s =
     (if CHR ''/'' \<in> set s then Some (rev (dropWhile (\<lambda>c. c \<noteq> CHR ''/'') (rev s))) else None)"

text \<open>The scan for boot partitions: the last slot found and the first one reported missing.\<close>

definition scan_slot :: "'x world \<Rightarrow> string \<Rightarrow> int \<times> int \<Rightarrow> nat \<Rightarrow> int \<times> int" where
  "scan_slot w base_path lf slot =
     (case lf of (last_existing_slot, first_missing_slot) \<Rightarrow>
        (case stat_of w (base_path @ kSlotSuffixes ! slot) of
           StatOk \<Rightarrow> (int slot, first_missing_slot)
         | StatNoEntry \<Rightarrow>
             if first_missing_slot = -1 then (last_existing_slot, int slot)
             else (last_existing_slot, first_missing_slot)
         | StatError \<Rightarrow> (last_existing_slot, first_missing_slot)))"

definition detect_nb_slot :: "'x world \<Rightarrow> string \<Rightarrow> nat" where
  "detect_nb_slot w misc_device =
     (case upto_last_sep misc_device of
        None \<Rightarrow> kMaxNumSlots
      | Some dir \<Rightarrow>
          (let (last_existing_slot, first_missing_slot) =
                 foldl (scan_slot w (dir @ ''boot'')) (-1, -1) [0..<kMaxNumSlots]
           in if (last_existing_slot \<noteq> -1 \<and> last_existing_slot = first_missing_slot - 1) \<or>
                 (first_missing_slot = -1 \<and> last_existing_slot = int kMaxNumSlots - 1)
              then nat (last_existing_slot + 1) else kMaxNumSlots))"

definition default_slot :: "nat \<Rightarrow> nat \<Rightarrow> nat \<Rightarrow> slot_metadata" where
  "default_slot nb current slot =
     (let entry = (if slot < nb
                   then empty_slot\<lparr>priority := 7, tries_remaining := of_nat kDefaultBootAttempts, successful_boot := 0\<rparr>
                   else empty_slot\<lparr>priority := 0\<rparr>)
      in if current = slot then entry\<lparr>successful_boot := 1\<rparr> else entry)"

definition InitDefaultBootloaderControl :: "boot_control \<Rightarrow> 'x world \<Rightarrow> bootloader_control" where
  "InitDefaultBootloaderControl control w =
     (let current = current_slot control;
          bc0 = (if current < kMaxNumSlots
                 then zeroed_control\<lparr>slot_suffix :=
                        strlcpy (slot_suffix zeroed_control) (kSlotSuffixes ! current)\<rparr>
                 else zeroed_control);
          nb = detect_nb_slot w (misc_dev control);
          bc1 = bc0\<lparr>magic := BOOT_CTRL_MAGIC, version := BOOT_CTRL_VERSION, nb_slot := of_nat nb,
                    slot_info := map (default_slot nb current) [0..<kMaxNumSlots],
                    recovery_tries_remaining := 0, merge_flag := - 1\<rparr>
      in bc1\<lparr>crc32_le := BootloaderControlLECRC bc1\<rparr>)"

definition SlotSuffixToIndex :: "string \<Rightarrow> int" where
  "SlotSuffixToIndex suffix =
     (case find (\<lambda>slot. kSlotSuffixes ! slot = suffix) [0..<kMaxNumSlots] of
        Some slot \<Rightarrow> int slot | None \<Rightarrow> -1)"

section \<open>The Virtual A/B message\<close>

definition InitMiscVirtualAbMessageIfNeeded :: "'x services \<Rightarrow> 'x world \<Rightarrow> bool \<times> 'x world" where
  "InitMiscVirtualAbMessageIfNeeded S w =
     (case ReadMiscVirtualAbMessage S (outside w) of
        None \<Rightarrow> (False, w)
      | Some message \<Rightarrow>
          (if vab_version message = MISC_VIRTUAL_AB_MESSAGE_VERSION S \<and>
              vab_magic message = MISC_VIRTUAL_AB_MAGIC_HEADER S then (True, w)
           else let (ok, x) = WriteMiscVirtualAbMessage S
                      \<lparr>vab_version = MISC_VIRTUAL_AB_MESSAGE_VERSION S,
                       vab_magic = MISC_VIRTUAL_AB_MAGIC_HEADER S,
                       vab_merge_status = 0, vab_source_slot = 0\<rparr> (outside w)
                in (ok, w\<lparr>outside := x\<rparr>)))"

definition SetMiscVirtualAbMergeStatus :: "'x services \<Rightarrow> nat \<Rightarrow> u32 \<Rightarrow> 'x world \<Rightarrow> bool \<times> 'x world" where
  "SetMiscVirtualAbMergeStatus S current status w =
     (case ReadMiscVirtualAbMessage S (outside w) of
        None \<Rightarrow> (False, w)
      | Some message \<Rightarrow>
          (let (ok, x) = WriteMiscVirtualAbMessage S
                 (message\<lparr>vab_merge_status := ucast status, vab_source_slot := current\<rparr>) (outside w)
           in (ok, w\<lparr>outside := x\<rparr>)))"

definition GetMiscVirtualAbMergeStatus :: "'x services \<Rightarrow> nat \<Rightarrow> 'x world \<Rightarrow> u32 option" where
  "GetMiscVirtualAbMergeStatus S current w =
     (case ReadMiscVirtualAbMessage S (outside w) of
        None \<Rightarrow> None
      | Some message \<Rightarrow>
          (let status = ucast (vab_merge_status message) in
           if status = HIDL_SNAPSHOTTED S \<and> current = vab_source_slot message
           then Some (HIDL_NONE S) else Some status))"

section \<open>Operations\<close>

definition UPDATE_STATE_NEXT_OPERATION :: string where
  "UPDATE_STATE_NEXT_OPERATION = ''/data/misc/update_engine/prefs/update-state-next-operation''"

definition unlink :: "string \<Rightarrow> 'x world \<Rightarrow> 'x world" where
  "unlink p w = (if stat_of w p = StatOk then w\<lparr>stat_of := (stat_of w)(p := StatNoEntry)\<rparr> else w)"

text \<open>Init's two conditional rewrites of the block: an invalid checksum, and the roll-back flag.\<close>

definition repair_block ::
  "boot_control \<Rightarrow> bootloader_control \<Rightarrow> 'x world \<Rightarrow> bootloader_control \<times> 'x world" where
  "repair_block this loaded w =
     (let computed_crc32 = BootloaderControlLECRC loaded in
      if crc32_le loaded \<noteq> computed_crc32
      then snd (UpdateAndSaveBootloaderControl w (misc_dev this) (InitDefaultBootloaderControl this w))
      else (loaded, w))"

definition clear_roll_flag :: "string \<Rightarrow> bootloader_control \<Rightarrow> 'x world \<Rightarrow> bootloader_control \<times> 'x world" where
  "clear_roll_flag device boot_ctrl w =
     (if roll_flag boot_ctrl = 1
      then snd (UpdateAndSaveBootloaderControl (unlink UPDATE_STATE_NEXT_OPERATION w) device
                  (boot_ctrl\<lparr>roll_flag := 0\<rparr>))
      else (boot_ctrl, w))"

definition Init :: "'x services \<Rightarrow> boot_control \<Rightarrow> 'x world \<Rightarrow> bool \<times> boot_control \<times> 'x world" where
  "Init S this w =
     (if is_initialized this then (True, this, w)
      else let suffix_prop = GetProperty S ''ro.boot.slot_suffix'' '''' (outside w) in
      if suffix_prop = '''' then (False, this, w)
      else let current_slot_m = SlotSuffixToIndex (c_str suffix_prop) in
      if current_slot_m < 0 then (False, this, w)
      else let this1 = this\<lparr>current_slot := nat current_slot_m\<rparr>;
               device = get_bootloader_message_blk_device S (outside w) in
      if device = '''' then (False, this1, w)
      else case LoadBootloaderControl w device of
        None \<Rightarrow> (False, this1, w)
      | Some loaded \<Rightarrow>
          (let this2 = this1\<lparr>misc_dev := device, is_initialized := True\<rparr>;
               (boot_ctrl, w1) = repair_block this2 loaded w;
               (ok, w2) = InitMiscVirtualAbMessageIfNeeded S w1
           in if \<not> ok then (False, this2, w2)
              else let (boot_ctrl', w3) = clear_roll_flag device boot_ctrl w2
                   in (True, this2\<lparr>num_slots := unat (nb_slot boot_ctrl')\<rparr>, w3)))"

definition GetNumberSlots :: "boot_control \<Rightarrow> nat" where
  "GetNumberSlots this = num_slots this"

definition GetCurrentSlot :: "boot_control \<Rightarrow> nat" where
  "GetCurrentSlot this = current_slot this"

definition set_slot :: "nat \<Rightarrow> (slot_metadata \<Rightarrow> slot_metadata) \<Rightarrow> bootloader_control \<Rightarrow> bootloader_control" where
  "set_slot i f bc = bc\<lparr>slot_info := (slot_info bc)[i := f (slot_info bc ! i)]\<rparr>"

definition MarkBootSuccessful :: "'x services \<Rightarrow> boot_control \<Rightarrow> 'x world \<Rightarrow> bool outcome \<times> 'x world" where
  "MarkBootSuccessful S this w =
     (case LoadBootloaderControl w (misc_dev this) of
        None \<Rightarrow> (Ret False, w)
      | Some loaded \<Rightarrow>
          (if kMaxNumSlots \<le> current_slot this then (Undefined, w)
           else let bootctrl = loaded\<lparr>merge_flag := 0, firstboot := 0\<rparr>;
                    flag = (successful_boot (slot_info bootctrl ! current_slot this) = 0 \<and>
                            get_sys_boot_complete S w \<noteq> 0);
                    w1 = (if flag then snd (set_sys_boot_complete S w) else w);
                    bootctrl' = set_slot (current_slot this)
                                  (\<lambda>s. s\<lparr>successful_boot := 1, tries_remaining := 1\<rparr>) bootctrl;
                    (ret, _, w2) = UpdateAndSaveBootloaderControl w1 (misc_dev this) bootctrl'
                in if flag
                   then case reboot_device S w2 of
                          (Ret _, w3) \<Rightarrow> (Ret ret, w3)
                        | (Rebooting, w3) \<Rightarrow> (Rebooting, w3)
                        | (Undefined, w3) \<Rightarrow> (Undefined, w3)
                   else (Ret ret, w2)))"

definition SetBootloaderIndex :: "'x services \<Rightarrow> string \<Rightarrow> 'x world \<Rightarrow> bool \<times> 'x world" where
  "SetBootloaderIndex S boot_num w =
     (let w1 = set_bootloader_env_common S ''reboot_status'' ''reboot_next'' w;
          w2 = set_bootloader_env_common S ''expect_index'' boot_num w1;
          w3 = set_bootloader_env_common S ''update_env'' ''1'' w2
      in (True, w3))"

definition highest_priority :: "slot_metadata list \<Rightarrow> nat \<times> nat \<Rightarrow> nat \<Rightarrow> nat \<times> nat" where
  "highest_priority infos am i =
     (case am of (active_boot_slot, max_priority) \<Rightarrow>
        if max_priority < unat (priority (infos ! i)) then (i, unat (priority (infos ! i)))
        else (active_boot_slot, max_priority))"

text \<open>On a failed load the method returns \<^verbatim>\<open>false\<close>, that is slot 0.\<close>

definition GetActiveBootSlot :: "boot_control \<Rightarrow> 'x world \<Rightarrow> nat outcome" where
  "GetActiveBootSlot this w =
     (case LoadBootloaderControl w (misc_dev this) of
        None \<Rightarrow> Ret 0
      | Some bootctrl \<Rightarrow>
          (if kMaxNumSlots \<le> current_slot this \<or> kMaxNumSlots < num_slots this then Undefined
           else Ret (fst (foldl (highest_priority (slot_info bootctrl))
                  (current_slot this, unat (priority (slot_info bootctrl ! current_slot this)))
                  [0..<num_slots this]))))"

definition kActivePriority :: nat where
  "kActivePriority = 15"

definition kActiveTries :: nat where
  "kActiveTries = 6"

definition demote :: "nat \<Rightarrow> slot_metadata list \<Rightarrow> nat \<Rightarrow> slot_metadata list" where
  "demote slot infos i =
     (if i \<noteq> slot \<and> kActivePriority \<le> unat (priority (infos ! i))
      then infos[i := (infos ! i)\<lparr>priority := of_nat (kActivePriority - 1)\<rparr>] else infos)"

definition activate :: "boot_control \<Rightarrow> nat \<Rightarrow> bootloader_control \<Rightarrow> bootloader_control" where
  "activate this slot bootctrl =
     (let bc1 = bootctrl\<lparr>slot_info := foldl (demote slot) (slot_info bootctrl) [0..<num_slots this]\<rparr>;
          bc2 = set_slot slot (\<lambda>s. s\<lparr>priority := of_nat kActivePriority,
                                     tries_remaining := of_nat kActiveTries\<rparr>) bc1
      in if slot \<noteq> current_slot this then set_slot slot (\<lambda>s. s\<lparr>verity_corrupted := 0\<rparr>) bc2 else bc2)"

text \<open>The bootloader part of an update: skipped for the generic device, fastbootd and fastboot.\<close>

definition update_bootloader :: "'x services \<Rightarrow> nat \<Rightarrow> int \<Rightarrow> 'x world \<Rightarrow> bool \<times> 'x world" where
  "update_bootloader S slot gpt_mode w =
     (if GetProperty S ''ro.product.device'' '''' (outside w) \<noteq> ''generic'' \<and>
         GetProperty S ''init.svc.fastbootd'' '''' (outside w) \<noteq> ''running'' \<and>
         GetProperty S ''sys.usb.config'' '''' (outside w) \<noteq> ''fastboot''
      then if gpt_mode = 0
           then (True, if get_bootloader_env_common S ''write_boot'' w = Some ''0''
                       then set_bootloader_env_common S ''write_boot'' ''1'' w else w)
           else let (ret, w1) = write_bootloader_img slot False w;
                    (ret', w2) = (if ret then SetBootloaderIndex S ''0'' w1 else (ret, w1))
                in (ret', set_bootloader_env_common S ''update_dt'' ''1'' w2)
      else (True, w))"

definition SetActiveBootSlot :: "'x services \<Rightarrow> boot_control \<Rightarrow> nat \<Rightarrow> 'x world \<Rightarrow> bool outcome \<times> 'x world" where
  "SetActiveBootSlot S this slot w =
     (if kMaxNumSlots \<le> slot \<or> num_slots this \<le> slot then (Ret False, w)
      else case LoadBootloaderControl w (misc_dev this) of
        None \<Rightarrow> (Ret False, w)
      | Some bootctrl \<Rightarrow>
          (let gpt_mode = get_gpt_mode w in
           if gpt_mode < 0 then (Ret False, w)
           else let (ret, w1) = update_bootloader S slot gpt_mode w in
                if \<not> ret then (Ret False, w1)
                else if kMaxNumSlots < num_slots this then (Undefined, w1)
                else let (ok, _, w2) = UpdateAndSaveBootloaderControl w1 (misc_dev this)
                                         (activate this slot bootctrl)
                     in (Ret ok, w2)))"

definition SetSlotAsUnbootable :: "boot_control \<Rightarrow> nat \<Rightarrow> 'x world \<Rightarrow> bool \<times> 'x world" where
  "SetSlotAsUnbootable this slot w =
     (if kMaxNumSlots \<le> slot \<or> num_slots this \<le> slot then (False, w)
      else case LoadBootloaderControl w (misc_dev this) of
        None \<Rightarrow> (False, w)
      | Some bootctrl \<Rightarrow>
          (let (ok, _, w1) = UpdateAndSaveBootloaderControl w (misc_dev this)
                 (set_slot slot (\<lambda>s. s\<lparr>successful_boot := 0, tries_remaining := 0\<rparr>) bootctrl)
           in (ok, w1)))"

definition IsSlotBootable :: "boot_control \<Rightarrow> nat \<Rightarrow> 'x world \<Rightarrow> bool" where
  "IsSlotBootable this slot w =
     (if kMaxNumSlots \<le> slot \<or> num_slots this \<le> slot then False
      else case LoadBootloaderControl w (misc_dev this) of
        None \<Rightarrow> False
      | Some bootctrl \<Rightarrow> tries_remaining (slot_info bootctrl ! slot) \<noteq> 0)"

definition IsSlotMarkedSuccessful :: "'x services \<Rightarrow> boot_control \<Rightarrow> nat \<Rightarrow> 'x world \<Rightarrow> bool outcome \<times> 'x world" where
  "IsSlotMarkedSuccessful S this slot w =
     (if kMaxNumSlots \<le> slot \<or> num_slots this \<le> slot then (Ret False, w)
      else case LoadBootloaderControl w (misc_dev this) of
        None \<Rightarrow> (Ret False, w)
      | Some bootctrl \<Rightarrow>
          (let result = (successful_boot (slot_info bootctrl ! slot) \<noteq> 0 \<and>
                         tries_remaining (slot_info bootctrl ! slot) \<noteq> 0) in
           if GetProperty S ''sys.boot_completed'' '''' (outside w) = ''1'' \<and> firstboot bootctrl = 1
           then let (_, _, w1) = UpdateAndSaveBootloaderControl w (misc_dev this) (bootctrl\<lparr>firstboot := 0\<rparr>)
                in if successful_boot (slot_info bootctrl ! slot) = 1 \<and> get_sys_boot_complete S w1 \<noteq> 0
                   then case reboot_device S (snd (set_sys_boot_complete S w1)) of
                          (Ret _, w2) \<Rightarrow> (Ret result, w2)
                        | (Rebooting, w2) \<Rightarrow> (Rebooting, w2)
                        | (Undefined, w2) \<Rightarrow> (Undefined, w2)
                   else (Ret result, w1)
           else (Ret result, w)))"

definition IsValidSlot :: "boot_control \<Rightarrow> nat \<Rightarrow> bool" where
  "IsValidSlot this slot \<longleftrightarrow> slot < kMaxNumSlots \<and> slot < num_slots this"

definition SetSnapshotMergeStatus :: "'x services \<Rightarrow> boot_control \<Rightarrow> u32 \<Rightarrow> 'x world \<Rightarrow> bool \<times> 'x world" where
  "SetSnapshotMergeStatus S this status w =
     (let w1 = (case LoadBootloaderControl w (misc_dev this) of
                  None \<Rightarrow> w
                | Some bootctrl \<Rightarrow>
                    snd (snd (UpdateAndSaveBootloaderControl w (misc_dev this)
                                (bootctrl\<lparr>merge_flag := ucast status\<rparr>))))
      in SetMiscVirtualAbMergeStatus S (current_slot this) status w1)"

definition GetSnapshotMergeStatus :: "'x services \<Rightarrow> boot_control \<Rightarrow> 'x world \<Rightarrow> u32" where
  "GetSnapshotMergeStatus S this w =
     (case GetMiscVirtualAbMergeStatus S (current_slot this) w of
        None \<Rightarrow> HIDL_UNKNOWN S | Some status \<Rightarrow> status)"

definition GetSuffix :: "boot_control \<Rightarrow> nat \<Rightarrow> string option" where
  "GetSuffix this slot =
     (if kMaxNumSlots \<le> slot \<or> num_slots this \<le> slot then None else Some (kSlotSuffixes ! slot))"

end
