(* ===== verification/Boot_Lemmas.thy ===== *)
theory Boot_Lemmas
  imports Boot_Control
begin

text \<open>
  Lemmas on the slot table and on the operations of the boot control library, shared by the
  properties of the library and of its front ends.
\<close>

section \<open>Slot table lemmas\<close>

lemma length_set_slot [simp]: "length (slot_info (set_slot i f bc)) = length (slot_info bc)"
  by (simp add: set_slot_def)

lemma set_slot_wf [simp]: "bc_wf (set_slot i f bc) = bc_wf bc"
  by (simp add: set_slot_def bc_wf_def)

lemma set_slot_simps [simp]:
  "nb_slot (set_slot i f bc) = nb_slot bc" "merge_flag (set_slot i f bc) = merge_flag bc"
  "firstboot (set_slot i f bc) = firstboot bc" "roll_flag (set_slot i f bc) = roll_flag bc"
  by (simp_all add: set_slot_def)

lemma set_slot_nth:
  "j < length (slot_info bc) \<Longrightarrow>
   slot_info (set_slot i f bc) ! j = (if i = j then f (slot_info bc ! j) else slot_info bc ! j)"
  by (simp add: set_slot_def nth_list_update)

lemma length_demote [simp]: "length (demote slot infos i) = length infos"
  by (simp add: demote_def)

lemma length_demote_all [simp]: "length (foldl (demote slot) infos is) = length infos"
  by (induction "is" arbitrary: infos) simp_all

lemma demote_all_nth:
  "n \<le> length infos \<Longrightarrow> j < length infos \<Longrightarrow>
   foldl (demote slot) infos [0..<n] ! j =
     (if j < n \<and> j \<noteq> slot \<and> kActivePriority \<le> unat (priority (infos ! j))
      then (infos ! j)\<lparr>priority := of_nat (kActivePriority - 1)\<rparr> else infos ! j)"
  by (induction n) (auto simp: demote_def nth_list_update less_Suc_eq)

lemma priority_bound: "unat (p :: 4 word) \<le> kActivePriority"
  using unsigned_less [of p, where ?'a = nat] by (simp add: kActivePriority_def)

lemma activate_wf [simp]: "bc_wf (activate this slot bc) = bc_wf bc"
  by (simp add: activate_def Let_def) (simp add: bc_wf_def)

lemma activate_simps [simp]:
  "nb_slot (activate this slot bc) = nb_slot bc" "merge_flag (activate this slot bc) = merge_flag bc"
  "firstboot (activate this slot bc) = firstboot bc" "roll_flag (activate this slot bc) = roll_flag bc"
  by (simp_all add: activate_def Let_def)

lemma length_activate [simp]: "length (slot_info (activate this slot bc)) = length (slot_info bc)"
  by (simp add: activate_def Let_def)

lemma activate_nth:
  assumes "num_slots this \<le> length (slot_info bc)" and "j < length (slot_info bc)"
  shows "slot_info (activate this slot bc) ! j =
    (let s = slot_info bc ! j in
     if j = slot
     then s\<lparr>priority := 15, tries_remaining := 6,
            verity_corrupted := (if slot \<noteq> current_slot this then 0 else verity_corrupted s)\<rparr>
     else if j < num_slots this \<and> priority s = 15 then s\<lparr>priority := 14\<rparr> else s)"
proof -
  have "(15 \<le> unat p) = (p = 15)" for p :: "4 word"
    using priority_bound [of p] by (auto simp: kActivePriority_def word_unat_eq_iff)
  then show ?thesis
    using assms
    by (auto simp: activate_def Let_def set_slot_nth demote_all_nth kActivePriority_def kActiveTries_def)
qed

lemma seal_activate_frame:
  assumes "bc_wf bc"
  shows "seal (activate this slot bc) =
    bc\<lparr>slot_info := slot_info (seal (activate this slot bc)),
       crc32_le := BootloaderControlLECRC (seal (activate this slot bc))\<rparr>"
proof -
  have "activate this slot bc = bc\<lparr>slot_info := slot_info (activate this slot bc)\<rparr>"
    by (simp add: activate_def set_slot_def Let_def)
  moreover have "BootloaderControlLECRC (seal (activate this slot bc)) =
      BootloaderControlLECRC (activate this slot bc)"
    using assms by (simp add: LECRC_prefix)
  ultimately show ?thesis by (metis seal_def seal_simps(1))
qed

text \<open>The priority scan returns a slot of maximal priority.\<close>

lemma highest_priority_scan:
  assumes "foldl (highest_priority infos) (a0, unat (priority (infos ! a0))) [0..<n] = (a, m)"
  shows "m = unat (priority (infos ! a)) \<and> (a = a0 \<or> a < n) \<and>
    unat (priority (infos ! a0)) \<le> m \<and> (\<forall>i<n. unat (priority (infos ! i)) \<le> m)"
  using assms
proof (induction n arbitrary: a m)
  case 0
  then show ?case by auto
next
  case (Suc n)
  obtain b k where bk: "foldl (highest_priority infos) (a0, unat (priority (infos ! a0))) [0..<n] = (b, k)"
    by fastforce
  with Suc.prems have "highest_priority infos (b, k) n = (a, m)" by simp
  with Suc.IH [OF bk] show ?case
    by (auto simp: highest_priority_def less_Suc_eq split: if_splits)
qed

lemma highest_priority_cong:
  "\<forall>j\<in>set js. priority (xs ! j) = priority (ys ! j) \<Longrightarrow>
   foldl (highest_priority xs) am js = foldl (highest_priority ys) am js"
proof (induction js arbitrary: am)
  case (Cons j js)
  then have "highest_priority xs am j = highest_priority ys am j"
    by (auto simp: highest_priority_def split: prod.splits)
  with Cons show ?case by simp
qed simp

section \<open>Effects on the devices\<close>

lemma env_devices [simp]:
  "devices (set_bootloader_env_common S n v w) = devices w"
  "stat_of (set_bootloader_env_common S n v w) = stat_of w"
  by (simp_all add: set_bootloader_env_common_def set_bootloader_env_def sc_set_bootenv_def split: prod.splits)

lemma index_devices: "SetBootloaderIndex S n w = (r, w') \<Longrightarrow> devices w' = devices w"
  by (auto simp: SetBootloaderIndex_def Let_def)

lemma write_img_devices:
  "write_bootloader_img slot g w = (r, w') \<Longrightarrow>
   w' = w \<or> (\<exists>d d'. devices w (image_target g) = Some d \<and> readable d' = readable d \<and>
              w' = put_device (image_target g) d' w)"
  by (auto simp: write_bootloader_img_def open_rw_def Let_def dest!: dev_write_readable
      split: if_splits option.splits prod.splits)

lemma write_img_can_read: "write_bootloader_img slot g w = (r, w') \<Longrightarrow> can_read p w' = can_read p w"
  by (auto dest!: write_img_devices simp: can_read_def put_device_def split: if_splits)

lemma can_read_cong: "devices w' = devices w \<Longrightarrow> can_read p w' = can_read p w"
  by (simp add: can_read_def)

lemma update_bootloader_can_read:
  "update_bootloader S slot g w = (r, w') \<Longrightarrow> can_read p w' = can_read p w"
  by (auto simp: update_bootloader_def Let_def can_read_cong [OF env_devices(1)]
      dest!: write_img_can_read index_devices [THEN can_read_cong] split: if_splits prod.splits)

section \<open>Activating a slot\<close>

lemma SetActiveBootSlot_stores:
  assumes "SetActiveBootSlot S this slot w = (Ret True, w')"
  obtains bc where "LoadBootloaderControl w (misc_dev this) = Some bc"
    "LoadBootloaderControl w' (misc_dev this) = Some (seal (activate this slot bc))"
    "slot < num_slots this" "num_slots this \<le> kMaxNumSlots"
proof -
  from assms obtain bc w1 b' where
    load: "LoadBootloaderControl w (misc_dev this) = Some bc" and
    upd: "update_bootloader S slot (get_gpt_mode w) w = (True, w1)" and
    save: "UpdateAndSaveBootloaderControl w1 (misc_dev this) (activate this slot bc) = (True, b', w')" and
    num: "slot < num_slots this" "num_slots this \<le> kMaxNumSlots"
    by (auto simp: SetActiveBootSlot_def Let_def split: if_splits option.splits prod.splits)
  have "can_read (misc_dev this) w1"
    using load_can_read [OF load] update_bootloader_can_read [OF upd] by simp
  from misc.update_stored [where f = "activate this slot", OF load _ this save] num load that
  show thesis by simp
qed

lemma activate_scan:
  assumes bc: "bc_wf bc"
    and num: "slot < num_slots this" "num_slots this \<le> kMaxNumSlots" "current_slot this < num_slots this"
  shows "fst (foldl (highest_priority (slot_info (activate this slot bc)))
      (current_slot this, unat (priority (slot_info (activate this slot bc) ! current_slot this)))
      [0..<num_slots this]) = slot"
proof -
  let ?infos = "slot_info (activate this slot bc)" and ?c = "current_slot this"
  have len: "length (slot_info bc) = 4" using bc by (simp add: bc_wf_def)
  obtain a m where scan:
    "foldl (highest_priority ?infos) (?c, unat (priority (?infos ! ?c))) [0..<num_slots this] = (a, m)"
    by fastforce
  have others: "unat (priority (?infos ! j)) < 15" if "j < num_slots this" "j \<noteq> slot" for j
    using that num len priority_bound [of "priority (slot_info bc ! j)"]
    by (auto simp: activate_nth Let_def kMaxNumSlots_def kActivePriority_def word_unat_eq_iff)
  have "unat (priority (?infos ! slot)) = 15"
    using num len by (simp add: activate_nth Let_def kMaxNumSlots_def)
  moreover from highest_priority_scan [OF scan] num
  have "m = unat (priority (?infos ! a))" "a < num_slots this" "unat (priority (?infos ! slot)) \<le> m"
    by auto
  ultimately have "a = slot" using others [of a] by auto
  then show ?thesis using scan by simp
qed

lemma active_slot_after:
  assumes "LoadBootloaderControl w (misc_dev this) = Some (seal (activate this slot bc))" "bc_wf bc"
    and "slot < num_slots this" "num_slots this \<le> kMaxNumSlots" "current_slot this < num_slots this"
  shows "GetActiveBootSlot this w = Ret slot"
  using assms activate_scan [OF assms(2-5)] by (simp add: GetActiveBootSlot_def)

section \<open>The invariant of an initialised boot control\<close>

text \<open>The misc device takes and returns the whole block.\<close>

definition misc_ok :: "string \<Rightarrow> 'x world \<Rightarrow> bool" where
  "misc_ok p w \<longleftrightarrow> (case devices w p of
     None \<Rightarrow> False
   | Some d \<Rightarrow> readable d \<and> writable d \<and> kBootloaderControlOffset + 32 \<le> write_limit d \<and>
               kBootloaderControlOffset + 32 \<le> length (content d))"

text \<open>At most one managed slot holds the active priority.\<close>

definition single_active :: "nat \<Rightarrow> bootloader_control \<Rightarrow> bool" where
  "single_active n bc \<longleftrightarrow>
     (\<forall>i<n. \<forall>j<n. priority (slot_info bc ! i) = 15 \<longrightarrow> priority (slot_info bc ! j) = 15 \<longrightarrow> i = j)"

definition block_inv :: "nat \<Rightarrow> bootloader_control \<Rightarrow> bool" where
  "block_inv n bc \<longleftrightarrow> bc_wf bc \<and> unat (nb_slot bc) = n \<and> single_active n bc"

definition boot_inv :: "boot_control \<Rightarrow> 'x world \<Rightarrow> bool" where
  "boot_inv this w \<longleftrightarrow>
     current_slot this < num_slots this \<and> num_slots this \<le> kMaxNumSlots \<and>
     misc_dev this \<noteq> image_target False \<and> misc_ok (misc_dev this) w \<and>
     (case LoadBootloaderControl w (misc_dev this) of
        None \<Rightarrow> False
      | Some bc \<Rightarrow> crc_valid bc \<and> block_inv (num_slots this) bc)"

lemma misc_ok_load: "misc_ok p w \<Longrightarrow> \<exists>bc. LoadBootloaderControl w p = Some bc"
  by (auto simp: misc_ok_def LoadBootloaderControl_def open_ro_def dev_read_def Let_def offset_defs
      split: option.splits)

lemma misc_ok_save:
  assumes "misc_ok p w" and "bc_wf bc"
  shows "\<exists>w'. UpdateAndSaveBootloaderControl w p bc = (True, seal bc, w') \<and> misc_ok p w' \<and>
    outside w' = outside w \<and> stat_of w' = stat_of w"
proof -
  from assms(1) obtain d where d: "devices w p = Some d" "readable d" "writable d"
    "kBootloaderControlOffset + 32 \<le> write_limit d" "kBootloaderControlOffset + 32 \<le> length (content d)"
    by (auto simp: misc_ok_def split: option.splits)
  have "length (encode_bc (seal bc)) = 32" using assms(2) by (simp add: layout_simps)
  moreover from this have "dev_write d kBootloaderControlOffset (encode_bc (seal bc)) =
      (32, d\<lparr>content := overlay kBootloaderControlOffset (encode_bc (seal bc)) (content d)\<rparr>)"
    using d by (simp add: dev_write_def Let_def)
  ultimately show ?thesis
    using d by (simp add: UpdateAndSaveBootloaderControl_def open_wo_def seal_def [symmetric]
        sizeof_bootloader_control_def put_device_def misc_ok_def Let_def)
qed

lemma misc_ok_devices: "devices w' p = devices w p \<Longrightarrow> misc_ok p w' = misc_ok p w"
  by (simp add: misc_ok_def)

lemma load_devices: "devices w' p = devices w p \<Longrightarrow> LoadBootloaderControl w' p = LoadBootloaderControl w p"
  by (simp add: LoadBootloaderControl_def open_ro_def)

lemma boot_inv_devices:
  "devices w' (misc_dev this) = devices w (misc_dev this) \<Longrightarrow> boot_inv this w' = boot_inv this w"
  by (simp add: boot_inv_def misc_ok_devices [of w' _ w] load_devices [of w' _ w])

text \<open>Saving a block that satisfies the block invariant keeps the invariant of the whole.\<close>

lemma block_inv_seal [simp]: "block_inv n (seal bc) = block_inv n bc"
  by (simp add: block_inv_def single_active_def)

lemma boot_inv_save:
  assumes "boot_inv this w" and "block_inv (num_slots this) bc"
    and "UpdateAndSaveBootloaderControl w (misc_dev this) bc = (r, bc', w')"
  shows "r \<and> boot_inv this w'"
proof -
  let ?p = "misc_dev this"
  have wf: "bc_wf bc" using assms(2) by (simp add: block_inv_def)
  have ok: "misc_ok ?p w" using assms(1) by (simp add: boot_inv_def)
  from misc_ok_save [OF ok wf] assms(3) have w': "r" "bc' = seal bc" "misc_ok ?p w'" by auto
  have "can_read ?p w" using ok by (auto simp: misc_ok_def can_read_def split: option.splits)
  then have "LoadBootloaderControl w' ?p = Some (seal bc)"
    using assms(3) wf w' by (auto intro: save_then_load)
  then show ?thesis using assms w' crc_valid_seal [OF wf] by (simp add: boot_inv_def)
qed


lemma single_active_cong:
  "(\<And>i. i < n \<Longrightarrow> priority (slot_info bc' ! i) = priority (slot_info bc ! i)) \<Longrightarrow>
   single_active n bc' = single_active n bc"
  by (auto simp: single_active_def)

lemma block_inv_flags [simp]:
  "block_inv n (bc\<lparr>firstboot := a\<rparr>) = block_inv n bc"
  "block_inv n (bc\<lparr>merge_flag := b\<rparr>) = block_inv n bc"
  "block_inv n (bc\<lparr>roll_flag := c\<rparr>) = block_inv n bc"
  by (simp_all add: block_inv_def single_active_def bc_wf_def)

lemma block_inv_set_slot:
  assumes "block_inv n bc" and "n \<le> 4" and "\<And>s. priority (f s) = priority s"
  shows "block_inv n (set_slot i f bc)"
proof -
  have "priority (slot_info (set_slot i f bc) ! j) = priority (slot_info bc ! j)" if "j < n" for j
    using assms that by (subst set_slot_nth) (auto simp: block_inv_def bc_wf_def)
  then show ?thesis
    using assms(1) single_active_cong [of n "set_slot i f bc" bc] by (simp add: block_inv_def)
qed

lemma block_inv_activate:
  assumes "block_inv (num_slots this) bc" and "num_slots this \<le> kMaxNumSlots" and "slot < num_slots this"
  shows "block_inv (num_slots this) (activate this slot bc)"
proof -
  have len: "length (slot_info bc) = 4" using assms(1) by (simp add: block_inv_def bc_wf_def)
  have "priority (slot_info (activate this slot bc) ! j) = 15 \<Longrightarrow> j = slot" if "j < num_slots this" for j
    using that assms(2) len by (subst (asm) activate_nth) (auto simp: Let_def kMaxNumSlots_def split: if_splits)
  then have "single_active (num_slots this) (activate this slot bc)"
    unfolding single_active_def by blast
  then show ?thesis using assms(1) by (simp add: block_inv_def)
qed

section \<open>Every operation keeps the invariant\<close>

lemma boot_inv_load:
  assumes "boot_inv this w"
  obtains bc where "LoadBootloaderControl w (misc_dev this) = Some bc" "block_inv (num_slots this) bc"
    "crc_valid bc"
  using assms by (auto simp: boot_inv_def split: option.splits)

lemma boot_inv_outside [simp]: "boot_inv this (w\<lparr>outside := x\<rparr>) = boot_inv this w"
  by (rule boot_inv_devices) simp

lemma sbc_boot_inv [simp]: "boot_inv this (snd (set_sys_boot_complete S w)) = boot_inv this w"
  by (simp add: set_sys_boot_complete_def split: prod.splits)

lemma reboot_boot_inv: "reboot_device S w = (r, w') \<Longrightarrow> boot_inv this w' = boot_inv this w \<and> r \<noteq> Undefined"
  by (auto simp: reboot_device_def split: prod.splits if_splits)

lemma MarkBootSuccessful_inv:
  assumes inv: "boot_inv this w" and call: "MarkBootSuccessful S this w = (r, w')"
  shows "boot_inv this w' \<and> (r = Ret True \<or> r = Rebooting)"
proof -
  obtain bc where load: "LoadBootloaderControl w (misc_dev this) = Some bc"
    and bi: "block_inv (num_slots this) bc" using inv by (rule boot_inv_load)
  let ?bc = "set_slot (current_slot this) (\<lambda>s. s\<lparr>successful_boot := 1, tries_remaining := 1\<rparr>)
    (bc\<lparr>merge_flag := 0, firstboot := 0\<rparr>)"
  have bi': "block_inv (num_slots this) ?bc"
    using bi inv by (intro block_inv_set_slot) (simp_all add: boot_inv_def kMaxNumSlots_def)
  have saved: "ok \<and> boot_inv this w2"
    if "UpdateAndSaveBootloaderControl v (misc_dev this) ?bc = (ok, b', w2)" "boot_inv this v" for v ok b' w2
    using boot_inv_save [OF that(2) bi' that(1)] .
  show ?thesis
    using call load inv
    by (auto simp: MarkBootSuccessful_def Let_def boot_inv_def [of this w] kMaxNumSlots_def
        dest!: saved reboot_boot_inv [where this = this] split: if_splits prod.splits outcome.splits)
qed


lemma write_img_other:
  "write_bootloader_img slot g w = (r, w') \<Longrightarrow> p \<noteq> image_target g \<Longrightarrow> devices w' p = devices w p"
  by (auto dest!: write_img_devices simp: put_device_def)

lemma update_bootloader_other:
  "update_bootloader S slot g w = (r, w') \<Longrightarrow> p \<noteq> image_target False \<Longrightarrow> devices w' p = devices w p"
  by (auto simp: update_bootloader_def Let_def dest!: index_devices dest: write_img_other
      split: if_splits prod.splits)

lemma SetActiveBootSlot_inv:
  assumes inv: "boot_inv this w" and call: "SetActiveBootSlot S this slot w = (r, w')"
  shows "boot_inv this w' \<and> r \<noteq> Undefined \<and> r \<noteq> Rebooting"
proof -
  obtain bc where load: "LoadBootloaderControl w (misc_dev this) = Some bc"
    and bi: "block_inv (num_slots this) bc" using inv by (rule boot_inv_load)
  have num: "num_slots this \<le> kMaxNumSlots" and p: "misc_dev this \<noteq> image_target False"
    using inv by (simp_all add: boot_inv_def)
  have upd: "boot_inv this w1" if "update_bootloader S slot g w = (ok, w1)" for g ok w1
    using inv boot_inv_devices update_bootloader_other [OF that p] by blast
  have saved: "boot_inv this w2"
    if "UpdateAndSaveBootloaderControl w1 (misc_dev this) (activate this slot bc) = (ok, b', w2)"
      "boot_inv this w1" "slot < num_slots this" for w1 ok b' w2
    using boot_inv_save [OF that(2) block_inv_activate [OF bi num that(3)] that(1)] by simp
  show ?thesis
    using call load inv num
    by (auto simp: SetActiveBootSlot_def Let_def intro: upd saved split: if_splits prod.splits)
qed

lemma SetSlotAsUnbootable_inv:
  assumes inv: "boot_inv this w" and call: "SetSlotAsUnbootable this slot w = (r, w')"
  shows "boot_inv this w' \<and> r = IsValidSlot this slot"
proof -
  obtain bc where load: "LoadBootloaderControl w (misc_dev this) = Some bc"
    and bi: "block_inv (num_slots this) bc" using inv by (rule boot_inv_load)
  have "block_inv (num_slots this) (set_slot slot (\<lambda>s. s\<lparr>successful_boot := 0, tries_remaining := 0\<rparr>) bc)"
    using bi inv by (intro block_inv_set_slot) (simp_all add: boot_inv_def kMaxNumSlots_def)
  from boot_inv_save [OF inv this] show ?thesis
    using call load inv
    by (auto simp: SetSlotAsUnbootable_def IsValidSlot_def Let_def split: if_splits prod.splits)
qed

lemma IsSlotMarkedSuccessful_inv:
  assumes inv: "boot_inv this w" and call: "IsSlotMarkedSuccessful S this slot w = (r, w')"
  shows "boot_inv this w' \<and> r \<noteq> Undefined"
proof -
  obtain bc where load: "LoadBootloaderControl w (misc_dev this) = Some bc"
    and bi: "block_inv (num_slots this) bc" using inv by (rule boot_inv_load)
  have "boot_inv this w1"
    if "UpdateAndSaveBootloaderControl w (misc_dev this) (bc\<lparr>firstboot := 0\<rparr>) = (ok, b', w1)" for ok b' w1
    using boot_inv_save [OF inv _ that] bi by simp
  then show ?thesis
    using call load inv
    by (auto simp: IsSlotMarkedSuccessful_def Let_def dest!: reboot_boot_inv [where this = this]
        split: if_splits prod.splits outcome.splits)
qed

lemma SetSnapshotMergeStatus_inv:
  assumes inv: "boot_inv this w" and call: "SetSnapshotMergeStatus S this status w = (r, w')"
  shows "boot_inv this w'"
proof -
  obtain bc where load: "LoadBootloaderControl w (misc_dev this) = Some bc"
    and bi: "block_inv (num_slots this) bc" using inv by (rule boot_inv_load)
  have "boot_inv this w1"
    if "UpdateAndSaveBootloaderControl w (misc_dev this) (bc\<lparr>merge_flag := ucast status\<rparr>) = (ok, b', w1)"
    for ok b' w1
    using boot_inv_save [OF inv _ that] bi by simp
  then have "boot_inv this
      (snd (snd (UpdateAndSaveBootloaderControl w (misc_dev this) (bc\<lparr>merge_flag := ucast status\<rparr>))))"
    by (metis prod.collapse)
  then show ?thesis
    using call load
    by (auto simp: SetSnapshotMergeStatus_def SetMiscVirtualAbMergeStatus_def Let_def
        split: if_splits prod.splits option.splits)
qed


section \<open>The default block\<close>

lemma length_strlcpy [simp]: "dst \<noteq> [] \<Longrightarrow> length (strlcpy dst src) = length dst"
  by (cases dst) (auto simp: strlcpy_def Let_def)

lemma detect_unfold:
  "detect_nb_slot w p = (case upto_last_sep p of None \<Rightarrow> 4 | Some dir \<Rightarrow>
     (case foldl (scan_slot w (dir @ ''boot'')) (-1, -1) [0, 1, 2, 3] of (l, f) \<Rightarrow>
       if (l \<noteq> -1 \<and> l = f - 1) \<or> (f = -1 \<and> l = 3) then nat (l + 1) else 4))"
  by (simp add: detect_nb_slot_def kMaxNumSlots_def upt_conv_Cons Let_def split: option.splits prod.splits)
    (simp add: numeral_eq_Suc)

text \<open>The partitions that exist form a prefix of length \<open>n\<close>.\<close>

definition prefix_found :: "'x world \<Rightarrow> string \<Rightarrow> nat \<Rightarrow> bool" where
  "prefix_found w dir n \<longleftrightarrow>
     (\<forall>i<kMaxNumSlots. (stat_of w (dir @ ''boot'' @ kSlotSuffixes ! i) = StatOk) = (i < n))"

lemma four_slots: "(\<forall>i<kMaxNumSlots. P i) \<longleftrightarrow> P 0 \<and> P 1 \<and> P 2 \<and> P 3"
  by (auto simp: kMaxNumSlots_def less_Suc_eq numeral_eq_Suc)

lemma detect_nb_slot_spec:
  assumes dir: "upto_last_sep p = Some dir"
    and no_error: "\<forall>i<kMaxNumSlots. stat_of w (dir @ ''boot'' @ kSlotSuffixes ! i) \<noteq> StatError"
  shows "detect_nb_slot w p =
    (if prefix_found w dir 1 then 1 else if prefix_found w dir 2 then 2
     else if prefix_found w dir 3 then 3 else 4)"
  using no_error dir unfolding prefix_found_def four_slots
  by (auto simp: detect_unfold scan_slot_def split: stat_result.splits)

lemma detect_nb_slot_bounds: "1 \<le> detect_nb_slot w p \<and> detect_nb_slot w p \<le> 4"
  by (auto simp: detect_unfold scan_slot_def split: stat_result.splits option.splits)

lemma unat_detect [simp]: "unat (of_nat (detect_nb_slot w p) :: 3 word) = detect_nb_slot w p"
  using detect_nb_slot_bounds [of w p] by (simp add: unat_of_nat)

lemma InitDefault_fields:
  "nb_slot (InitDefaultBootloaderControl this w) = of_nat (detect_nb_slot w (misc_dev this))"
  "roll_flag (InitDefaultBootloaderControl this w) = 0"
  "slot_info (InitDefaultBootloaderControl this w) =
     map (default_slot (detect_nb_slot w (misc_dev this)) (current_slot this)) [0..<kMaxNumSlots]"
  by (simp_all add: InitDefaultBootloaderControl_def Let_def zeroed_control_def)

lemma InitDefault_wf: "bc_wf (InitDefaultBootloaderControl this w)"
  by (simp add: bc_wf_def InitDefaultBootloaderControl_def Let_def zeroed_control_def kMaxNumSlots_def)

lemma default_slot_priority: "priority (default_slot nb c i) \<noteq> 15"
  by (simp add: default_slot_def empty_slot_def Let_def)

lemma InitDefault_block_inv:
  "block_inv (detect_nb_slot w (misc_dev this)) (InitDefaultBootloaderControl this w)"
proof -
  have "priority (slot_info (InitDefaultBootloaderControl this w) ! i) \<noteq> 15"
    if "i < detect_nb_slot w (misc_dev this)" for i
    using that detect_nb_slot_bounds [of w "misc_dev this"]
    by (simp add: InitDefault_fields default_slot_priority kMaxNumSlots_def)
  then show ?thesis by (simp add: block_inv_def InitDefault_wf InitDefault_fields single_active_def)
qed

section \<open>Initialisation\<close>

lemma SlotSuffixToIndex_valid:
  "0 \<le> SlotSuffixToIndex s \<Longrightarrow>
   nat (SlotSuffixToIndex s) < kMaxNumSlots \<and> kSlotSuffixes ! nat (SlotSuffixToIndex s) = s"
  by (auto simp: SlotSuffixToIndex_def split: option.splits dest!: find_Some_iff [THEN iffD1])

lemma InitMisc_devices: "InitMiscVirtualAbMessageIfNeeded S w = (r, w') \<Longrightarrow> devices w' = devices w"
  by (auto simp: InitMiscVirtualAbMessageIfNeeded_def Let_def split: option.splits if_splits prod.splits)

lemma unlink_devices [simp]: "devices (unlink p w) = devices w"
  by (simp add: unlink_def)

lemma InitDefault_num_slots [simp]:
  "InitDefaultBootloaderControl (this\<lparr>num_slots := n\<rparr>) w = InitDefaultBootloaderControl this w"
  by (simp add: InitDefaultBootloaderControl_def Let_def)

text \<open>The block Init leaves on a working device, as a function of the block it found.\<close>

definition init_block :: "boot_control \<Rightarrow> 'x world \<Rightarrow> bootloader_control \<Rightarrow> bootloader_control" where
  "init_block this w loaded =
     (if \<not> crc_valid loaded then seal (InitDefaultBootloaderControl this w)
      else if roll_flag loaded = 1 then seal (loaded\<lparr>roll_flag := 0\<rparr>) else loaded)"

lemma saved_block:
  assumes "misc_ok p w" and "bc_wf bc" and "UpdateAndSaveBootloaderControl w p bc = (r, b', w')"
  shows "b' = seal bc \<and> LoadBootloaderControl w' p = Some (seal bc) \<and> misc_ok p w'"
proof -
  from misc_ok_save [OF assms(1,2)] assms(3) have "r" "b' = seal bc" "misc_ok p w'" by auto
  moreover have "can_read p w" using assms(1) by (auto simp: misc_ok_def can_read_def split: option.splits)
  ultimately show ?thesis using assms(2,3) by (auto intro: save_then_load)
qed

lemma repair_block_stores:
  assumes "misc_ok (misc_dev this) w" and "LoadBootloaderControl w (misc_dev this) = Some loaded"
    and "repair_block this loaded w = (bc, w')"
  shows "bc = (if crc_valid loaded then loaded else seal (InitDefaultBootloaderControl this w)) \<and>
    LoadBootloaderControl w' (misc_dev this) = Some bc \<and> misc_ok (misc_dev this) w'"
  using assms
  by (cases "UpdateAndSaveBootloaderControl w (misc_dev this) (InitDefaultBootloaderControl this w)")
    (auto simp: repair_block_def crc_valid_def Let_def split: if_splits
      dest!: saved_block [OF assms(1) InitDefault_wf])

lemma clear_roll_flag_stores:
  assumes "misc_ok p w" and "LoadBootloaderControl w p = Some bc" and "clear_roll_flag p bc w = (bc', w')"
  shows "bc' = (if roll_flag bc = 1 then seal (bc\<lparr>roll_flag := 0\<rparr>) else bc) \<and>
    LoadBootloaderControl w' p = Some bc' \<and> misc_ok p w'"
proof -
  let ?v = "unlink UPDATE_STATE_NEXT_OPERATION w"
  have "misc_ok p ?v" using assms(1) misc_ok_devices [of ?v p w] by simp
  moreover have "bc_wf (bc\<lparr>roll_flag := 0\<rparr>)" using load_wf [OF assms(2)] by (simp add: bc_wf_def)
  ultimately show ?thesis
    using assms saved_block
    by (cases "UpdateAndSaveBootloaderControl ?v p (bc\<lparr>roll_flag := 0\<rparr>)")
      (fastforce simp: clear_roll_flag_def split: if_splits)
qed

lemma Init_success:
  assumes "\<not> is_initialized this" and "Init S this w = (True, this', w')"
  obtains loaded bc w1 w2 bc' where
    "misc_dev this' = get_bootloader_message_blk_device S (outside w)"
    "LoadBootloaderControl w (misc_dev this') = Some loaded"
    "repair_block this' loaded w = (bc, w1)"
    "InitMiscVirtualAbMessageIfNeeded S w1 = (True, w2)"
    "clear_roll_flag (misc_dev this') bc w2 = (bc', w')"
    "num_slots this' = unat (nb_slot bc')" "is_initialized this'"
    "current_slot this' < kMaxNumSlots"
    "kSlotSuffixes ! current_slot this' = c_str (GetProperty S ''ro.boot.slot_suffix'' [] (outside w))"
proof -
  have idx: "0 \<le> i \<Longrightarrow> i = SlotSuffixToIndex s \<Longrightarrow> nat i < kMaxNumSlots \<and> kSlotSuffixes ! nat i = s" for i s
    using SlotSuffixToIndex_valid by blast
  have num: "repair_block (b\<lparr>num_slots := n\<rparr>) l v = repair_block b l v" for b n l and v :: "'x world"
    by (simp add: repair_block_def)
  from assms show thesis
    by (auto simp: Init_def Let_def not_less num intro!: that dest: idx
        split: if_splits option.splits prod.splits)
qed

lemma Init_block:
  assumes fresh: "\<not> is_initialized this" and call: "Init S this w = (True, this', w')"
    and ok: "misc_ok (misc_dev this') w"
    and load: "LoadBootloaderControl w (misc_dev this') = Some loaded"
  shows "LoadBootloaderControl w' (misc_dev this') = Some (init_block this' w loaded) \<and>
    num_slots this' = unat (nb_slot (init_block this' w loaded)) \<and> misc_ok (misc_dev this') w'"
proof -
  let ?p = "misc_dev this'"
  from fresh call obtain l bc w1 w2 bc' where
    l: "LoadBootloaderControl w ?p = Some l" and
    repair: "repair_block this' l w = (bc, w1)" and
    vab: "InitMiscVirtualAbMessageIfNeeded S w1 = (True, w2)" and
    clear: "clear_roll_flag ?p bc w2 = (bc', w')" "num_slots this' = unat (nb_slot bc')"
    by (rule Init_success)
  have bc: "bc = (if crc_valid loaded then loaded else seal (InitDefaultBootloaderControl this' w))"
    "LoadBootloaderControl w1 ?p = Some bc" "misc_ok ?p w1"
    using repair_block_stores [OF ok load] repair l load by auto
  have "devices w2 = devices w1" using vab by (rule InitMisc_devices)
  then have "LoadBootloaderControl w2 ?p = Some bc" "misc_ok ?p w2"
    using bc load_devices [of w2 ?p w1] misc_ok_devices [of w2 ?p w1] by simp_all
  then show ?thesis
    using clear_roll_flag_stores [OF _ _ clear(1)] clear(2) bc(1)
    by (auto simp: init_block_def InitDefault_fields)
qed

lemma init_block_inv:
  assumes "bc_wf loaded" and "crc_valid loaded \<Longrightarrow> block_inv (unat (nb_slot loaded)) loaded"
  shows "crc_valid (init_block this w loaded) \<and>
    block_inv (unat (nb_slot (init_block this w loaded))) (init_block this w loaded)"
proof -
  have "bc_wf (loaded\<lparr>roll_flag := 0\<rparr>)" using assms(1) by (simp add: bc_wf_def)
  then show ?thesis
    using assms InitDefault_block_inv [of w this]
    by (auto simp: init_block_def crc_valid_seal InitDefault_wf InitDefault_fields)
qed

lemma boot_inv_saved:
  assumes "boot_inv this w" and "bc_wf bc" and "UpdateAndSaveBootloaderControl w (misc_dev this) bc = (r, b', w')"
  shows "r \<and> LoadBootloaderControl w' (misc_dev this) = Some (seal bc) \<and> outside w' = outside w"
proof -
  have "misc_ok (misc_dev this) w" using assms(1) by (simp add: boot_inv_def)
  from misc_ok_save [OF this assms(2)] saved_block [OF this assms(2,3)] assms(3) show ?thesis by auto
qed

lemma reboot_device_effect:
  "reboot_device S w = (r, w') \<Longrightarrow>
   (r = Rebooting \<longleftrightarrow> fst (android_reboot S (outside w)) \<noteq> -1) \<and> r \<noteq> Undefined \<and>
   LoadBootloaderControl w' p = LoadBootloaderControl w p"
  by (auto simp: reboot_device_def intro!: load_devices split: prod.splits if_splits)

section \<open>What the commands store\<close>

lemma SetActiveBootSlot_failed:
  assumes inv: "boot_inv this w" and call: "SetActiveBootSlot S this slot w = (Ret False, w')"
  shows "LoadBootloaderControl w' (misc_dev this) = LoadBootloaderControl w (misc_dev this)"
proof -
  obtain bc where load: "LoadBootloaderControl w (misc_dev this) = Some bc"
    and bi: "block_inv (num_slots this) bc" using inv by (rule boot_inv_load)
  have num: "num_slots this \<le> kMaxNumSlots" and p: "misc_dev this \<noteq> image_target False"
    using inv by (simp_all add: boot_inv_def)
  have same: "LoadBootloaderControl w1 (misc_dev this) = LoadBootloaderControl w (misc_dev this)"
    if "update_bootloader S slot g w = (ok, w1)" for g ok w1
    using load_devices update_bootloader_other [OF that p] by blast
  have stored: "ok" if "update_bootloader S slot g w = (True, w1)"
    "UpdateAndSaveBootloaderControl w1 (misc_dev this) (activate this slot bc) = (ok, b', w2)"
    "slot < num_slots this" for g w1 ok b' w2
  proof -
    have "boot_inv this w1" using inv boot_inv_devices update_bootloader_other [OF that(1) p] by blast
    from boot_inv_save [OF this block_inv_activate [OF bi num that(3)] that(2)] show ?thesis by simp
  qed
  show ?thesis
    using call load num
    by (auto simp: SetActiveBootSlot_def Let_def dest: same stored split: if_splits prod.splits)
qed

lemma SetSlotAsUnbootable_stores:
  assumes "SetSlotAsUnbootable this slot w = (True, w')"
  obtains bc where "LoadBootloaderControl w (misc_dev this) = Some bc"
    "LoadBootloaderControl w' (misc_dev this) =
       Some (seal (set_slot slot (\<lambda>s. s\<lparr>successful_boot := 0, tries_remaining := 0\<rparr>) bc))"
    "slot < num_slots this" "slot < kMaxNumSlots"
proof -
  let ?f = "\<lambda>s. s\<lparr>successful_boot := 0, tries_remaining := 0\<rparr>"
  from assms obtain bc b' where load: "LoadBootloaderControl w (misc_dev this) = Some bc"
    and save: "UpdateAndSaveBootloaderControl w (misc_dev this) (set_slot slot ?f bc) = (True, b', w')"
    and num: "slot < num_slots this" "slot < kMaxNumSlots"
    by (auto simp: SetSlotAsUnbootable_def Let_def split: if_splits option.splits prod.splits)
  have "LoadBootloaderControl w' (misc_dev this) = Some (seal (set_slot slot ?f bc))"
    using misc.update_stored [where f = "set_slot slot ?f", OF load _ load_can_read [OF load] save] load_wf [OF load]
    by simp
  with load num that show thesis by blast
qed

lemma MarkBootSuccessful_stores:
  fixes w :: "'x world"
  assumes inv: "boot_inv this w" and call: "MarkBootSuccessful S this w = (r, w')"
    and load: "LoadBootloaderControl w (misc_dev this) = Some bc"
  shows "LoadBootloaderControl w' (misc_dev this) =
      Some (seal (set_slot (current_slot this) (\<lambda>s. s\<lparr>successful_boot := 1, tries_remaining := 1\<rparr>)
        (bc\<lparr>merge_flag := 0, firstboot := 0\<rparr>))) \<and>
    r = (if successful_boot (slot_info bc ! current_slot this) = 0 \<and> get_sys_boot_complete S w \<noteq> 0 \<and>
            fst (android_reboot S (outside (snd (set_sys_boot_complete S w)))) \<noteq> -1
         then Rebooting else Ret True)"
proof -
  let ?c = "current_slot this" and ?w1 = "snd (set_sys_boot_complete S w)"
  let ?bc = "set_slot ?c (\<lambda>s. s\<lparr>successful_boot := 1, tries_remaining := 1\<rparr>) (bc\<lparr>merge_flag := 0, firstboot := 0\<rparr>)"
  have wf: "bc_wf bc" using load by (rule load_wf)
  have wf': "bc_wf ?bc" using wf by (simp add: bc_wf_def [of "bc\<lparr>merge_flag := 0, firstboot := 0\<rparr>"]) (simp add: bc_wf_def)
  have c: "?c < kMaxNumSlots" using inv by (simp add: boot_inv_def)
  have saved: "ok \<and> LoadBootloaderControl w2 (misc_dev this) = Some (seal ?bc) \<and> outside w2 = outside v"
    if "UpdateAndSaveBootloaderControl v (misc_dev this) ?bc = (ok, b', w2)" "boot_inv this v" for ok b' and v w2 :: "'x world"
    using boot_inv_saved [OF that(2) wf' that(1)] .
  show ?thesis
    using call load c inv
    by (auto simp: MarkBootSuccessful_def Let_def 
        dest!: saved reboot_device_effect [where p = "misc_dev this"] split: if_splits prod.splits outcome.splits)
qed

section \<open>Corruption of a sealed block\<close>

lemma crc_valid_decode:
  assumes "length bs = 32"
  shows "crc_valid (decode_bc bs) \<longleftrightarrow> le_word (drop 28 bs) = CRC32 (take 28 bs)"
proof -
  have "encode_bc (decode_bc bs) = bs" using assms by (rule encode_decode_bc)
  moreover have "crc32_le (decode_bc bs) = le_word (drop 28 bs)"
    using assms by (simp add: decode_bc_def Let_def)
  ultimately show ?thesis
    by (simp add: crc_valid_def BootloaderControlLECRC_def offset_defs)
qed

lemma crc_valid_encode: "bc_wf bc \<Longrightarrow> crc_valid bc \<longleftrightarrow> le_word (drop 28 (encode_bc bc)) = CRC32 (take 28 (encode_bc bc))"
  using crc_valid_decode [of "encode_bc bc"] by (simp add: layout_simps decode_encode_bc)

lemma crc_valid_residue:
  "length bs = 32 \<Longrightarrow> crc_valid (decode_bc bs) \<Longrightarrow> CRC32 bs = NOT ((crc_round ^^ 32) (- 1))"
  using CRC32_residue [of "drop 28 bs" "take 28 bs"] by (simp add: crc_valid_decode)

lemma corrupted_block_invalid:
  assumes bc: "bc_wf bc" "crc_valid bc" and xs: "length xs \<le> 4" "off + length xs \<le> 32"
    and diff: "overlay off xs (encode_bc bc) \<noteq> encode_bc bc"
  shows "\<not> crc_valid (decode_bc (overlay off xs (encode_bc bc)))"
proof
  let ?bs = "encode_bc bc" and ?cs = "overlay off xs (encode_bc bc)"
  let ?pre = "take off ?bs" and ?mid = "take (length xs) (drop off ?bs)"
    and ?post = "drop (off + length xs) ?bs"
  assume valid: "crc_valid (decode_bc ?cs)"
  have len: "length ?bs = 32" "length ?cs = 32" using bc(1) xs by (auto simp: layout_simps)
  have old: "?bs = ?pre @ ?mid @ ?post" by (metis add.commute append_take_drop_id drop_drop)
  have new: "?cs = ?pre @ xs @ ?post" by (simp add: overlay_def)
  have "CRC32 ?cs = CRC32 ?bs"
    using crc_valid_residue [OF len(2) valid] crc_valid_residue [OF len(1)] bc by (simp add: decode_encode_bc)
  then have "CRC32 (?pre @ xs @ ?post) = CRC32 (?pre @ ?mid @ ?post)"
    using old new by (simp only:)
  then have "xs = ?mid" using len xs by (intro CRC32_burst) simp_all
  with old new diff show False by simp
qed

end
