(* ===== verification/Boot_Hal.thy ===== *)
theory Boot_Hal
  imports Boot_Lemmas
begin

text \<open>
  The two front ends of the boot control: the AIDL service of \<^verbatim>\<open>BootControl.cpp\<close> and the C
  module of \<^verbatim>\<open>legacy_boot_control.cpp\<close>, the wait for the system-control service in
  \<^verbatim>\<open>systemcontrol.cpp\<close>, and an abstract A/B machine that the AIDL commands implement.
\<close>

section \<open>The AIDL service\<close>

datatype aidl_error = INVALID_SLOT | COMMAND_FAILED

datatype 'a aidl_status = AidlOk 'a | ServiceSpecific aidl_error string

datatype MergeStatus =
  MergeStatus_NONE | MergeStatus_UNKNOWN | MergeStatus_SNAPSHOTTED | MergeStatus_MERGING
| MergeStatus_CANCELLED | MergeStatus_other int

fun decimal :: "nat \<Rightarrow> string" where
  "decimal n = (if n < 10 then [char_of (48 + n)] else decimal (n div 10) @ [char_of (48 + n mod 10)])"

declare decimal.simps [simp del]

definition to_string :: "32 word \<Rightarrow> string" where
  "to_string slot = (if sint slot < 0 then CHR ''-'' # decimal (nat (- sint slot)) else decimal (nat (sint slot)))"

definition invalid_slot :: "32 word \<Rightarrow> 'a aidl_status" where
  "invalid_slot in_slot = ServiceSpecific INVALID_SLOT (''Invalid slot '' @ to_string in_slot)"

definition operation_failed :: "'a aidl_status" where
  "operation_failed = ServiceSpecific COMMAND_FAILED ''Operation failed''"

text \<open>The constructor; \<open>None\<close> is the abort of \<^verbatim>\<open>CHECK(impl_.Init())\<close>.\<close>

definition aidl_BootControl :: "'x services \<Rightarrow> 'x world \<Rightarrow> (boot_control \<times> 'x world) option" where
  "aidl_BootControl S w =
     (case Init S new_BootControl w of (ok, impl, w') \<Rightarrow> if ok then Some (impl, w') else None)"

fun outcome_map :: "('a \<Rightarrow> 'b) \<Rightarrow> 'a outcome \<Rightarrow> 'b outcome" where
  "outcome_map f (Ret a) = Ret (f a)"
| "outcome_map f Rebooting = Rebooting"
| "outcome_map f Undefined = Undefined"

definition aidl_getActiveBootSlot :: "boot_control \<Rightarrow> 'x world \<Rightarrow> nat aidl_status outcome" where
  "aidl_getActiveBootSlot impl w = outcome_map AidlOk (GetActiveBootSlot impl w)"

definition aidl_getCurrentSlot :: "boot_control \<Rightarrow> nat aidl_status" where
  "aidl_getCurrentSlot impl = AidlOk (GetCurrentSlot impl)"

definition aidl_getNumberSlots :: "boot_control \<Rightarrow> nat aidl_status" where
  "aidl_getNumberSlots impl = AidlOk (GetNumberSlots impl)"

text \<open>The switches return nothing for a value outside the enumeration.\<close>

definition ToAIDLMergeStatus :: "'x services \<Rightarrow> u32 \<Rightarrow> MergeStatus outcome" where
  "ToAIDLMergeStatus S status =
     (if status = HIDL_NONE S then Ret MergeStatus_NONE
      else if status = HIDL_UNKNOWN S then Ret MergeStatus_UNKNOWN
      else if status = HIDL_SNAPSHOTTED S then Ret MergeStatus_SNAPSHOTTED
      else if status = HIDL_MERGING S then Ret MergeStatus_MERGING
      else if status = HIDL_CANCELLED S then Ret MergeStatus_CANCELLED
      else Undefined)"

fun ToHIDLMergeStatus :: "'x services \<Rightarrow> MergeStatus \<Rightarrow> u32 outcome" where
  "ToHIDLMergeStatus S MergeStatus_NONE = Ret (HIDL_NONE S)"
| "ToHIDLMergeStatus S MergeStatus_UNKNOWN = Ret (HIDL_UNKNOWN S)"
| "ToHIDLMergeStatus S MergeStatus_SNAPSHOTTED = Ret (HIDL_SNAPSHOTTED S)"
| "ToHIDLMergeStatus S MergeStatus_MERGING = Ret (HIDL_MERGING S)"
| "ToHIDLMergeStatus S MergeStatus_CANCELLED = Ret (HIDL_CANCELLED S)"
| "ToHIDLMergeStatus S (MergeStatus_other n) = Undefined"

definition aidl_getSnapshotMergeStatus ::
  "'x services \<Rightarrow> boot_control \<Rightarrow> 'x world \<Rightarrow> MergeStatus aidl_status outcome" where
  "aidl_getSnapshotMergeStatus S impl w =
     outcome_map AidlOk (ToAIDLMergeStatus S (GetSnapshotMergeStatus S impl w))"

definition aidl_getSuffix :: "boot_control \<Rightarrow> 32 word \<Rightarrow> string aidl_status" where
  "aidl_getSuffix impl in_slot =
     (if \<not> IsValidSlot impl (unat in_slot) then AidlOk ''''
      else AidlOk (case GetSuffix impl (unat in_slot) of Some s \<Rightarrow> s | None \<Rightarrow> ''''))"

definition aidl_isSlotBootable :: "boot_control \<Rightarrow> 32 word \<Rightarrow> 'x world \<Rightarrow> bool aidl_status" where
  "aidl_isSlotBootable impl in_slot w =
     (if \<not> IsValidSlot impl (unat in_slot) then invalid_slot in_slot
      else AidlOk (IsSlotBootable impl (unat in_slot) w))"

definition aidl_isSlotMarkedSuccessful ::
  "'x services \<Rightarrow> boot_control \<Rightarrow> 32 word \<Rightarrow> 'x world \<Rightarrow> bool aidl_status outcome \<times> 'x world" where
  "aidl_isSlotMarkedSuccessful S impl in_slot w =
     (if \<not> IsValidSlot impl (unat in_slot) then (Ret (invalid_slot in_slot), w)
      else let (r, w') = IsSlotMarkedSuccessful S impl (unat in_slot) w in (outcome_map AidlOk r, w'))"

definition status_of :: "bool \<Rightarrow> unit aidl_status" where
  "status_of ok = (if \<not> ok then operation_failed else AidlOk ())"

definition aidl_markBootSuccessful :: "'x services \<Rightarrow> boot_control \<Rightarrow> 'x world \<Rightarrow> unit aidl_status outcome \<times> 'x world" where
  "aidl_markBootSuccessful S impl w =
     (let (r, w') = MarkBootSuccessful S impl w in (outcome_map status_of r, w'))"

definition aidl_setActiveBootSlot ::
  "'x services \<Rightarrow> boot_control \<Rightarrow> 32 word \<Rightarrow> 'x world \<Rightarrow> unit aidl_status outcome \<times> 'x world" where
  "aidl_setActiveBootSlot S impl in_slot w =
     (if \<not> IsValidSlot impl (unat in_slot) then (Ret (invalid_slot in_slot), w)
      else let (r, w') = SetActiveBootSlot S impl (unat in_slot) w in (outcome_map status_of r, w'))"

definition aidl_setSlotAsUnbootable ::
  "boot_control \<Rightarrow> 32 word \<Rightarrow> 'x world \<Rightarrow> unit aidl_status outcome \<times> 'x world" where
  "aidl_setSlotAsUnbootable impl in_slot w =
     (if \<not> IsValidSlot impl (unat in_slot) then (Ret (invalid_slot in_slot), w)
      else let (ok, w') = SetSlotAsUnbootable impl (unat in_slot) w in (Ret (status_of ok), w'))"

definition aidl_setSnapshotMergeStatus ::
  "'x services \<Rightarrow> boot_control \<Rightarrow> MergeStatus \<Rightarrow> 'x world \<Rightarrow> unit aidl_status outcome \<times> 'x world" where
  "aidl_setSnapshotMergeStatus S impl in_status w =
     (case ToHIDLMergeStatus S in_status of
        Ret status \<Rightarrow> let (ok, w') = SetSnapshotMergeStatus S impl status w in (Ret (status_of ok), w')
      | Rebooting \<Rightarrow> (Rebooting, w)
      | Undefined \<Rightarrow> (Undefined, w))"

section \<open>The C module\<close>

definition zero_or_minus_one :: "bool \<Rightarrow> int" where
  "zero_or_minus_one ok = (if ok then 0 else -1)"

definition BootControl_init :: "'x services \<Rightarrow> boot_control \<Rightarrow> 'x world \<Rightarrow> boot_control \<times> 'x world" where
  "BootControl_init S impl w = snd (Init S impl w)"

definition BootControl_getNumberSlots :: "boot_control \<Rightarrow> nat" where
  "BootControl_getNumberSlots impl = GetNumberSlots impl"

definition BootControl_getCurrentSlot :: "boot_control \<Rightarrow> nat" where
  "BootControl_getCurrentSlot impl = GetCurrentSlot impl"

definition BootControl_markBootSuccessful :: "'x services \<Rightarrow> boot_control \<Rightarrow> 'x world \<Rightarrow> int outcome \<times> 'x world" where
  "BootControl_markBootSuccessful S impl w =
     (let (r, w') = MarkBootSuccessful S impl w in (outcome_map zero_or_minus_one r, w'))"

definition BootControl_setActiveBootSlot ::
  "'x services \<Rightarrow> boot_control \<Rightarrow> u32 \<Rightarrow> 'x world \<Rightarrow> int outcome \<times> 'x world" where
  "BootControl_setActiveBootSlot S impl slot w =
     (let (r, w') = SetActiveBootSlot S impl (unat slot) w in (outcome_map zero_or_minus_one r, w'))"

definition BootControl_setSlotAsUnbootable :: "boot_control \<Rightarrow> u32 \<Rightarrow> 'x world \<Rightarrow> int \<times> 'x world" where
  "BootControl_setSlotAsUnbootable impl slot w =
     (let (ok, w') = SetSlotAsUnbootable impl (unat slot) w in (zero_or_minus_one ok, w'))"

definition BootControl_isSlotBootable :: "boot_control \<Rightarrow> u32 \<Rightarrow> 'x world \<Rightarrow> int" where
  "BootControl_isSlotBootable impl slot w = zero_or_minus_one (IsSlotBootable impl (unat slot) w)"

definition BootControl_isSlotMarkedSuccessful ::
  "'x services \<Rightarrow> boot_control \<Rightarrow> u32 \<Rightarrow> 'x world \<Rightarrow> int outcome \<times> 'x world" where
  "BootControl_isSlotMarkedSuccessful S impl slot w =
     (let (r, w') = IsSlotMarkedSuccessful S impl (unat slot) w in (outcome_map zero_or_minus_one r, w'))"

definition BootControl_getSuffix :: "boot_control \<Rightarrow> u32 \<Rightarrow> string option" where
  "BootControl_getSuffix impl slot = GetSuffix impl (unat slot)"

section \<open>Waiting for the system-control service\<close>

text \<open>
  \<open>answers k\<close> is what the \<open>k\<close>-th call of getInstance returns. The loop may run for ever, so
  not returning is \<open>None\<close>; a result is the proxy and the number of calls made.
\<close>

partial_function (option) sc_wait :: "(nat \<Rightarrow> 'p option) \<Rightarrow> nat \<Rightarrow> ('p \<times> nat) option" where
  [code]: "sc_wait answers k =
     (case answers k of Some p \<Rightarrow> Some (p, Suc k) | None \<Rightarrow> sc_wait answers (Suc k))"

definition load_sc_proxy :: "(nat \<Rightarrow> 'p option) \<Rightarrow> 'p option \<times> nat \<Rightarrow> ('p \<times> nat) option" where
  "load_sc_proxy answers st =
     (case st of (mSysCtrl, calls) \<Rightarrow>
        (case mSysCtrl of Some p \<Rightarrow> Some (p, calls) | None \<Rightarrow> sc_wait answers calls))"

lemma sc_wait_least:
  assumes "answers (k + n) = Some p" and "\<forall>i<n. answers (k + i) = None"
  shows "sc_wait answers k = Some (p, Suc (k + n))"
  using assms
proof (induction n arbitrary: k)
  case 0
  then show ?case by (simp add: sc_wait.simps)
next
  case (Suc n)
  then have "sc_wait answers (Suc k) = Some (p, Suc (Suc k + n))"
    by (metis add_Suc_shift not_less_eq)
  moreover have "answers k = None" using Suc.prems(2) by (metis add.right_neutral zero_less_Suc)
  ultimately show ?case by (simp add: sc_wait.simps [of answers k])
qed

lemma sc_wait_answered:
  assumes "sc_wait answers k = Some y"
  shows "k < snd y \<and> answers (snd y - 1) = Some (fst y)"
proof (rule sc_wait.raw_induct [OF _ assms])
  fix wait :: "(nat \<Rightarrow> 'a option) \<Rightarrow> nat \<Rightarrow> ('a \<times> nat) option" and answers k y
  assume "\<And>answers k y. wait answers k = Some y \<Longrightarrow> k < snd y \<and> answers (snd y - 1) = Some (fst y)"
    and "(case answers k of Some p \<Rightarrow> Some (p, Suc k) | None \<Rightarrow> wait answers (Suc k)) = Some y"
  then show "k < snd y \<and> answers (snd y - 1) = Some (fst y)"
    by (fastforce split: option.splits)
qed

section \<open>The abstract A/B machine\<close>

text \<open>
  What a caller sees: which slot boots next, which slots can boot, which are known to have
  booted. The AIDL commands act on it as on three plain values.
\<close>

record ab_state =
  ab_active :: nat
  ab_bootable :: "nat set"
  ab_successful :: "nat set"

datatype ab_command = SetActive "32 word" | MarkSuccessful | SetUnbootable "32 word"

fun ab_step :: "nat \<Rightarrow> ab_command \<Rightarrow> ab_state \<Rightarrow> ab_state" where
  "ab_step current (SetActive slot) s =
     s\<lparr>ab_active := unat slot, ab_bootable := insert (unat slot) (ab_bootable s)\<rparr>"
| "ab_step current MarkSuccessful s =
     s\<lparr>ab_bootable := insert current (ab_bootable s), ab_successful := insert current (ab_successful s)\<rparr>"
| "ab_step current (SetUnbootable slot) s =
     s\<lparr>ab_bootable := ab_bootable s - {unat slot}, ab_successful := ab_successful s - {unat slot}\<rparr>"

fun aidl_command :: "'x services \<Rightarrow> boot_control \<Rightarrow> ab_command \<Rightarrow> 'x world \<Rightarrow> unit aidl_status outcome \<times> 'x world" where
  "aidl_command S impl (SetActive slot) w = aidl_setActiveBootSlot S impl slot w"
| "aidl_command S impl MarkSuccessful w = aidl_markBootSuccessful S impl w"
| "aidl_command S impl (SetUnbootable slot) w = aidl_setSlotAsUnbootable impl slot w"

definition ab_of_block :: "boot_control \<Rightarrow> bootloader_control \<Rightarrow> ab_state" where
  "ab_of_block impl bc =
     \<lparr>ab_active = fst (foldl (highest_priority (slot_info bc))
        (current_slot impl, unat (priority (slot_info bc ! current_slot impl))) [0..<num_slots impl]),
      ab_bootable = {j. j < num_slots impl \<and> tries_remaining (slot_info bc ! j) \<noteq> 0},
      ab_successful = {j. j < num_slots impl \<and> successful_boot (slot_info bc ! j) \<noteq> 0}\<rparr>"

definition ab_of :: "boot_control \<Rightarrow> 'x world \<Rightarrow> ab_state" where
  "ab_of impl w = (case LoadBootloaderControl w (misc_dev impl) of
     Some bc \<Rightarrow> ab_of_block impl bc
   | None \<Rightarrow> \<lparr>ab_active = 0, ab_bootable = {}, ab_successful = {}\<rparr>)"

lemma ab_of_seal [simp]: "ab_of_block impl (seal bc) = ab_of_block impl bc"
  by (simp add: ab_of_block_def)

lemma ab_of_load: "LoadBootloaderControl w (misc_dev impl) = Some bc \<Longrightarrow> ab_of impl w = ab_of_block impl bc"
  by (simp add: ab_of_def)

lemma ab_of_activate:
  assumes "bc_wf bc" and "slot < num_slots impl" "num_slots impl \<le> kMaxNumSlots" "current_slot impl < num_slots impl"
  shows "ab_of_block impl (activate impl slot bc) =
    (ab_of_block impl bc)\<lparr>ab_active := slot, ab_bootable := insert slot (ab_bootable (ab_of_block impl bc))\<rparr>"
proof -
  have "fst (foldl (highest_priority (slot_info (activate impl slot bc)))
      (current_slot impl, unat (priority (slot_info (activate impl slot bc) ! current_slot impl))) [0..<num_slots impl]) = slot"
    using assms by (rule activate_scan)
  moreover have len: "length (slot_info bc) = 4" using assms(1) by (simp add: bc_wf_def)
  have "tries_remaining (slot_info (activate impl slot bc) ! j) =
      (if j = slot then 6 else tries_remaining (slot_info bc ! j))"
    "successful_boot (slot_info (activate impl slot bc) ! j) = successful_boot (slot_info bc ! j)"
    if "j < num_slots impl" for j
    using that assms(3) len by (simp_all add: activate_nth Let_def kMaxNumSlots_def)
  ultimately show ?thesis
    using assms(2) by (auto simp: ab_of_block_def split: if_splits)
qed

lemma ab_of_set_slot:
  assumes "bc_wf bc" and "slot < num_slots impl" "num_slots impl \<le> kMaxNumSlots" "current_slot impl < num_slots impl"
    and f: "\<And>s. priority (f s) = priority s"
  shows "ab_of_block impl (set_slot slot f bc) = (ab_of_block impl bc)
    \<lparr>ab_bootable := (if tries_remaining (f (slot_info bc ! slot)) \<noteq> 0 then insert slot (ab_bootable (ab_of_block impl bc))
                     else ab_bootable (ab_of_block impl bc) - {slot}),
     ab_successful := (if successful_boot (f (slot_info bc ! slot)) \<noteq> 0 then insert slot (ab_successful (ab_of_block impl bc))
                       else ab_successful (ab_of_block impl bc) - {slot})\<rparr>"
proof -
  have len: "length (slot_info bc) = 4" using assms(1) by (simp add: bc_wf_def)
  have nth: "slot_info (set_slot slot f bc) ! j = (if slot = j then f (slot_info bc ! j) else slot_info bc ! j)"
    if "j < num_slots impl" for j
    using that len assms(3) by (simp add: set_slot_nth kMaxNumSlots_def)
  then have "priority (slot_info (set_slot slot f bc) ! j) = priority (slot_info bc ! j)"
    if "j < num_slots impl" for j using that f by simp
  then show ?thesis
    using assms(2,4) nth
      highest_priority_cong [of "[0..<num_slots impl]" "slot_info (set_slot slot f bc)" "slot_info bc"]
    by (auto simp: ab_of_block_def split: if_splits)
qed

lemma ab_of_flags [simp]: "ab_of_block impl (bc\<lparr>merge_flag := a, firstboot := b\<rparr>) = ab_of_block impl bc"
  by (simp add: ab_of_block_def)

lemma status_of_simps [simp]:
  "(status_of ok = AidlOk ()) = ok" "(status_of ok = operation_failed) = (\<not> ok)"
  by (auto simp: status_of_def operation_failed_def)

lemma invalid_slot_error [simp]: "invalid_slot s \<noteq> AidlOk a"
  by (simp add: invalid_slot_def)

lemma aidl_mark_refines:
  assumes inv: "boot_inv impl w" and call: "aidl_markBootSuccessful S impl w = (r, w')"
  shows "(r = Ret (AidlOk ()) \<or> r = Rebooting) \<and> ab_of impl w' = ab_step (current_slot impl) MarkSuccessful (ab_of impl w)"
proof -
  obtain bc where load: "LoadBootloaderControl w (misc_dev impl) = Some bc" using inv by (rule boot_inv_load)
  obtain r1 where mark: "MarkBootSuccessful S impl w = (r1, w')" "r = outcome_map status_of r1"
    using call by (auto simp: aidl_markBootSuccessful_def split: prod.splits)
  let ?bc = "bc\<lparr>merge_flag := 0, firstboot := 0\<rparr>"
  have "bc_wf ?bc" using load_wf [OF load] by (simp add: bc_wf_def)
  then have "ab_of impl w' = ab_step (current_slot impl) MarkSuccessful (ab_of impl w)"
    using MarkBootSuccessful_stores [OF inv mark(1) load] inv ab_of_load [OF load]
    by (simp add: ab_of_def ab_of_set_slot boot_inv_def)
  moreover have "r = Ret (AidlOk ()) \<or> r = Rebooting"
    using mark(2) MarkBootSuccessful_stores [OF inv mark(1) load] by auto
  ultimately show ?thesis by blast
qed

lemma aidl_set_active_refines:
  assumes inv: "boot_inv impl w" and call: "aidl_setActiveBootSlot S impl slot w = (r, w')"
  shows "r \<noteq> Undefined \<and> r \<noteq> Rebooting \<and> ab_of impl w' =
    (if r = Ret (AidlOk ()) then ab_step (current_slot impl) (SetActive slot) (ab_of impl w) else ab_of impl w)"
proof (cases "IsValidSlot impl (unat slot)")
  case False
  then show ?thesis using call by (auto simp: aidl_setActiveBootSlot_def)
next
  case True
  then obtain r1 where set: "SetActiveBootSlot S impl (unat slot) w = (r1, w')" "r = outcome_map status_of r1"
    using call by (auto simp: aidl_setActiveBootSlot_def split: prod.splits)
  have "r1 \<noteq> Undefined" "r1 \<noteq> Rebooting" using SetActiveBootSlot_inv [OF inv set(1)] by blast+
  then obtain ok where r1: "r1 = Ret ok" by (cases r1) auto
  show ?thesis
  proof (cases ok)
    case True
    with set r1 obtain bc where bc: "LoadBootloaderControl w (misc_dev impl) = Some bc"
      "LoadBootloaderControl w' (misc_dev impl) = Some (seal (activate impl (unat slot) bc))"
      "unat slot < num_slots impl" "num_slots impl \<le> kMaxNumSlots"
      by (auto elim: SetActiveBootSlot_stores)
    have "current_slot impl < num_slots impl" using inv by (simp add: boot_inv_def)
    then show ?thesis
      using ab_of_activate [OF load_wf [OF bc(1)] bc(3,4)] bc True set(2) r1 by (simp add: ab_of_def)
  next
    case False
    then have "ab_of impl w' = ab_of impl w"
      using SetActiveBootSlot_failed [OF inv] set(1) r1 by (simp add: ab_of_def)
    then show ?thesis using False set(2) r1 by simp
  qed
qed

lemma aidl_set_unbootable_refines:
  assumes inv: "boot_inv impl w" and call: "aidl_setSlotAsUnbootable impl slot w = (r, w')"
  shows "r = Ret (if IsValidSlot impl (unat slot) then AidlOk () else invalid_slot slot) \<and> ab_of impl w' =
    (if r = Ret (AidlOk ()) then ab_step (current_slot impl) (SetUnbootable slot) (ab_of impl w) else ab_of impl w)"
proof (cases "IsValidSlot impl (unat slot)")
  case False
  then show ?thesis using call by (auto simp: aidl_setSlotAsUnbootable_def)
next
  case True
  then obtain ok where set: "SetSlotAsUnbootable impl (unat slot) w = (ok, w')" "r = Ret (status_of ok)"
    using call by (auto simp: aidl_setSlotAsUnbootable_def split: prod.splits)
  have ok: "ok" using SetSlotAsUnbootable_inv [OF inv set(1)] True by simp
  with set obtain bc where bc: "LoadBootloaderControl w (misc_dev impl) = Some bc"
    "LoadBootloaderControl w' (misc_dev impl) =
      Some (seal (set_slot (unat slot) (\<lambda>s. s\<lparr>successful_boot := 0, tries_remaining := 0\<rparr>) bc))"
    "unat slot < num_slots impl"
    by (auto elim: SetSlotAsUnbootable_stores)
  have "current_slot impl < num_slots impl" "num_slots impl \<le> kMaxNumSlots" using inv by (simp_all add: boot_inv_def)
  then show ?thesis
    using ok set(2) True bc load_wf [OF bc(1)] by (simp add: ab_of_def ab_of_set_slot)
qed

section \<open>Command sequences\<close>

lemma aidl_command_refines:
  assumes inv: "boot_inv impl w" and call: "aidl_command S impl c w = (r, w')"
  shows "boot_inv impl w' \<and> r \<noteq> Undefined \<and> ab_of impl w' =
    (if r = Ret (AidlOk ()) \<or> r = Rebooting then ab_step (current_slot impl) c (ab_of impl w) else ab_of impl w)"
proof (cases c)
  case (SetActive slot)
  have "boot_inv impl w'"
    using inv call SetActive
    by (auto simp: aidl_setActiveBootSlot_def dest: SetActiveBootSlot_inv split: if_splits prod.splits)
  then show ?thesis using aidl_set_active_refines [OF inv] call SetActive by auto
next
  case MarkSuccessful
  have "boot_inv impl w'"
    using inv call MarkSuccessful
    by (auto simp: aidl_markBootSuccessful_def dest: MarkBootSuccessful_inv split: prod.splits)
  then show ?thesis using aidl_mark_refines [OF inv] call MarkSuccessful by auto
next
  case (SetUnbootable slot)
  have "boot_inv impl w'"
    using inv call SetUnbootable
    by (auto simp: aidl_setSlotAsUnbootable_def dest: SetSlotAsUnbootable_inv split: if_splits prod.splits)
  then show ?thesis using aidl_set_unbootable_refines [OF inv] call SetUnbootable by auto
qed

text \<open>The statuses of the commands up to the first one that reboots the device.\<close>

fun aidl_run :: "'x services \<Rightarrow> boot_control \<Rightarrow> ab_command list \<Rightarrow> 'x world \<Rightarrow> unit aidl_status list \<times> 'x world" where
  "aidl_run S impl [] w = ([], w)"
| "aidl_run S impl (c # cs) w =
     (case aidl_command S impl c w of
        (Ret s, w') \<Rightarrow> let (ss, w'') = aidl_run S impl cs w' in (s # ss, w'')
      | (_, w') \<Rightarrow> ([], w'))"

fun ab_run :: "nat \<Rightarrow> ab_command list \<Rightarrow> unit aidl_status list \<Rightarrow> ab_state \<Rightarrow> ab_state" where
  "ab_run current (c # cs) (s # ss) a =
     ab_run current cs ss (if s = AidlOk () then ab_step current c a else a)"
| "ab_run current _ _ a = a"

lemma aidl_run_refines:
  "boot_inv impl w \<Longrightarrow> aidl_run S impl cs w = (ss, w') \<Longrightarrow> length ss = length cs \<Longrightarrow>
   boot_inv impl w' \<and> ab_of impl w' = ab_run (current_slot impl) cs ss (ab_of impl w)"
proof (induction cs arbitrary: w ss)
  case Nil
  then show ?case by simp
next
  case (Cons c cs)
  obtain r w1 where step: "aidl_command S impl c w = (r, w1)" by fastforce
  from Cons.prems step obtain s ss' where r: "r = Ret s" "ss = s # ss'" "aidl_run S impl cs w1 = (ss', w')"
    by (auto split: outcome.splits prod.splits)
  note one = aidl_command_refines [OF Cons.prems(1) step]
  from one Cons.IH [of w1 ss'] Cons.prems(3) r show ?case by auto
qed

lemma aidl_queries:
  assumes "boot_inv impl w"
  shows "aidl_getActiveBootSlot impl w = Ret (AidlOk (ab_active (ab_of impl w)))"
    and "IsValidSlot impl (unat slot) \<Longrightarrow>
      aidl_isSlotBootable impl slot w = AidlOk (unat slot \<in> ab_bootable (ab_of impl w))"
proof -
  obtain bc where "LoadBootloaderControl w (misc_dev impl) = Some bc" using assms by (rule boot_inv_load)
  then show "aidl_getActiveBootSlot impl w = Ret (AidlOk (ab_active (ab_of impl w)))"
    "IsValidSlot impl (unat slot) \<Longrightarrow>
      aidl_isSlotBootable impl slot w = AidlOk (unat slot \<in> ab_bootable (ab_of impl w))"
    using assms
    by (auto simp: aidl_getActiveBootSlot_def GetActiveBootSlot_def ab_of_def ab_of_block_def boot_inv_def
        aidl_isSlotBootable_def IsSlotBootable_def IsValidSlot_def)
qed

end
