(* ===== verification/Boot_Properties.thy ===== *)
theory Boot_Properties
  imports Boot_Hal
begin

text \<open>
  What the boot control promises its callers, with a concrete device and concrete outside
  services on which the hypotheses hold.
\<close>

section \<open>Runs of the boot control\<close>

text \<open>
  The worlds a boot-control object can be in after calls that returned to the caller; the
  outside services may change their state at any time.
\<close>

inductive boot_reach :: "'x services \<Rightarrow> boot_control \<Rightarrow> 'x world \<Rightarrow> 'x world \<Rightarrow> bool" for S this w0 where
  start: "boot_reach S this w0 w0"
| mark: "boot_reach S this w0 w \<Longrightarrow> MarkBootSuccessful S this w = (Ret r, w') \<Longrightarrow> boot_reach S this w0 w'"
| set_active: "boot_reach S this w0 w \<Longrightarrow> SetActiveBootSlot S this slot w = (Ret r, w') \<Longrightarrow> boot_reach S this w0 w'"
| set_unbootable: "boot_reach S this w0 w \<Longrightarrow> SetSlotAsUnbootable this slot w = (r, w') \<Longrightarrow> boot_reach S this w0 w'"
| is_marked: "boot_reach S this w0 w \<Longrightarrow> IsSlotMarkedSuccessful S this slot w = (Ret r, w') \<Longrightarrow> boot_reach S this w0 w'"
| set_merge: "boot_reach S this w0 w \<Longrightarrow> SetSnapshotMergeStatus S this status w = (r, w') \<Longrightarrow> boot_reach S this w0 w'"
| outside: "boot_reach S this w0 w \<Longrightarrow> boot_reach S this w0 (w\<lparr>outside := x\<rparr>)"

lemma boot_reach_inv: "boot_reach S this w0 w \<Longrightarrow> boot_inv this w0 \<Longrightarrow> boot_inv this w"
proof (induction rule: boot_reach.induct)
  case (mark w r w')
  then show ?case using MarkBootSuccessful_inv by blast
next
  case (set_active w slot r w')
  then show ?case using SetActiveBootSlot_inv by blast
next
  case (set_unbootable w slot r w')
  then show ?case using SetSlotAsUnbootable_inv by blast
next
  case (is_marked w slot r w')
  then show ?case using IsSlotMarkedSuccessful_inv by blast
next
  case (set_merge w status r w')
  then show ?case using SetSnapshotMergeStatus_inv by blast
qed simp_all

lemma GetActiveBootSlot_max:
  assumes inv: "boot_inv this w" and load: "LoadBootloaderControl w (misc_dev this) = Some bc"
  shows "\<exists>a < num_slots this. GetActiveBootSlot this w = Ret a \<and>
    (\<forall>i < num_slots this. unat (priority (slot_info bc ! i)) \<le> unat (priority (slot_info bc ! a)))"
proof -
  let ?c = "current_slot this"
  obtain a m where scan:
    "foldl (highest_priority (slot_info bc)) (?c, unat (priority (slot_info bc ! ?c))) [0..<num_slots this] = (a, m)"
    by fastforce
  then show ?thesis
    using highest_priority_scan [OF scan] inv load
    by (intro exI [of _ a]) (auto simp: GetActiveBootSlot_def boot_inv_def)
qed

text \<open>
  C1. After any sequence of boot-control calls that returned, on a misc device that takes
  whole blocks, the stored block has a valid checksum, the recorded number of slots and at
  most one managed slot with the active priority; no call indexes outside the slot table;
  and the active slot reported is a managed slot of maximal priority.
\<close>

theorem boot_control_invariant:
  assumes "boot_inv this w0" and "boot_reach S this w0 w"
  shows "\<exists>bc a. LoadBootloaderControl w (misc_dev this) = Some bc \<and> crc_valid bc \<and>
    unat (nb_slot bc) = num_slots this \<and> single_active (num_slots this) bc \<and>
    fst (MarkBootSuccessful S this w) \<noteq> Undefined \<and> fst (SetActiveBootSlot S this slot w) \<noteq> Undefined \<and>
    fst (IsSlotMarkedSuccessful S this slot w) \<noteq> Undefined \<and>
    GetActiveBootSlot this w = Ret a \<and> a < num_slots this \<and>
    (\<forall>i < num_slots this. unat (priority (slot_info bc ! i)) \<le> unat (priority (slot_info bc ! a)))"
proof -
  have inv: "boot_inv this w" using assms by (blast intro: boot_reach_inv)
  then obtain bc where bc: "LoadBootloaderControl w (misc_dev this) = Some bc" "crc_valid bc"
    "block_inv (num_slots this) bc" by (rule boot_inv_load)
  obtain a where "GetActiveBootSlot this w = Ret a" "a < num_slots this"
    "\<forall>i < num_slots this. unat (priority (slot_info bc ! i)) \<le> unat (priority (slot_info bc ! a))"
    using GetActiveBootSlot_max [OF inv bc(1)] by blast
  moreover have "fst (MarkBootSuccessful S this w) \<noteq> Undefined"
    using MarkBootSuccessful_inv [OF inv] by (metis outcome.distinct(3,5) prod.collapse)
  moreover have "fst (SetActiveBootSlot S this slot w) \<noteq> Undefined"
    using SetActiveBootSlot_inv [OF inv] by (metis prod.collapse)
  moreover have "fst (IsSlotMarkedSuccessful S this slot w) \<noteq> Undefined"
    using IsSlotMarkedSuccessful_inv [OF inv] by (metis prod.collapse)
  ultimately show ?thesis using bc by (auto simp: block_inv_def)
qed

section \<open>A concrete device\<close>

text \<open>
  A two-slot device: a 4096-byte misc partition holding a sealed block, an eMMC whose first
  sectors carry no GPT signature, properties of the generic product running from slot a, and
  services that keep the Virtual A/B message and the boot environment.
\<close>

definition ex_slot :: "4 word \<Rightarrow> slot_metadata" where
  "ex_slot p = empty_slot\<lparr>priority := p, tries_remaining := 7\<rparr>"

definition ex_block :: bootloader_control where
  "ex_block = seal (zeroed_control\<lparr>magic := BOOT_CTRL_MAGIC, version := BOOT_CTRL_VERSION, nb_slot := 2,
     slot_info := [ex_slot 15, ex_slot 14, empty_slot, empty_slot]\<rparr>)"

definition ex_disk :: "byte list \<Rightarrow> device" where
  "ex_disk bs = \<lparr>content = replicate 2048 0 @ bs @ replicate 2016 0,
     readable = True, writable = True, write_limit = 4096\<rparr>"

definition ex_emmc :: device where
  "ex_emmc = \<lparr>content = replicate 1024 0, readable = True, writable = False, write_limit = 0\<rparr>"

type_synonym ex_outside = "misc_virtual_ab_message \<times> (string \<Rightarrow> string) \<times> bool"

definition ex_services :: "ex_outside services" where
  "ex_services =
     \<lparr>GetProperty = (\<lambda>key dflt x. if key = ''ro.boot.slot_suffix'' then ''_a''
                       else if key = ''ro.product.device'' then ''generic'' else dflt),
      get_bootloader_message_blk_device = (\<lambda>x. ''/dev/block/misc''),
      ReadMiscVirtualAbMessage = (\<lambda>x. Some (fst x)),
      WriteMiscVirtualAbMessage = (\<lambda>m x. (True, (m, snd x))),
      MISC_VIRTUAL_AB_MESSAGE_VERSION = 2, MISC_VIRTUAL_AB_MAGIC_HEADER = 0x56740AB0,
      HIDL_NONE = 0, HIDL_UNKNOWN = 1, HIDL_SNAPSHOTTED = 2, HIDL_MERGING = 3, HIDL_CANCELLED = 4,
      updateValue = (\<lambda>k v x. (0, (fst x, (fst (snd x))(k := v), snd (snd x)))),
      getValue = (\<lambda>k x. Some (fst (snd x) k)),
      setBootEnv = (\<lambda>k v x. (fst x, (fst (snd x))(k := v), snd (snd x))),
      getBootEnv = (\<lambda>k x. fst (snd x) k),
      write_sys_boot_complete = (\<lambda>bs x. (Some 2, (fst x, fst (snd x), True))),
      read_sys_boot_complete = (\<lambda>x. Some [if snd (snd x) then of_char CHR ''1'' else 0]),
      android_reboot = (\<lambda>x. (0, x))\<rparr>"

definition ex_outside0 :: ex_outside where
  "ex_outside0 = (\<lparr>vab_version = 0, vab_magic = 0, vab_merge_status = 0, vab_source_slot = 0\<rparr>, \<lambda>_. '''', True)"

definition ex_world :: "byte list \<Rightarrow> ex_outside world" where
  "ex_world bs =
     \<lparr>devices = [''/dev/block/misc'' \<mapsto> ex_disk bs, EMMC_DEVICE \<mapsto> ex_emmc],
      stat_of = (\<lambda>p. if p = ''/dev/block/boot_a'' \<or> p = ''/dev/block/boot_b'' then StatOk else StatNoEntry),
      malloc_ok = True, outside = ex_outside0\<rparr>"

definition ex_this :: boot_control where
  "ex_this = \<lparr>is_initialized = True, misc_dev = ''/dev/block/misc'', num_slots = 2, current_slot = 0\<rparr>"

lemma ex_block_wf [simp]: "bc_wf ex_block"
  by (simp add: ex_block_def) (simp add: bc_wf_def zeroed_control_def)

lemma ex_block_crc [simp]: "crc_valid ex_block"
  unfolding ex_block_def by (rule crc_valid_seal) (simp add: bc_wf_def zeroed_control_def)

lemma ex_misc_ok: "length bs = 32 \<Longrightarrow> misc_ok ''/dev/block/misc'' (ex_world bs)"
  by (simp add: misc_ok_def ex_world_def ex_disk_def EMMC_DEVICE_def offset_defs)

lemma ex_load:
  "length bs = 32 \<Longrightarrow> LoadBootloaderControl (ex_world bs) ''/dev/block/misc'' = Some (decode_bc bs)"
  by (simp add: LoadBootloaderControl_def open_ro_def ex_world_def ex_disk_def EMMC_DEVICE_def dev_read_def
      offset_defs Let_def)

lemma ex_load_block:
  "LoadBootloaderControl (ex_world (encode_bc ex_block)) (misc_dev ex_this) = Some ex_block"
  using ex_load [of "encode_bc ex_block"] by (simp add: layout_simps decode_encode_bc ex_this_def)

lemma ex_block_inv: "block_inv 2 ex_block"
  by (simp add: block_inv_def single_active_def ex_block_def)
    (auto simp: less_2_cases_iff ex_slot_def zeroed_control_def bc_wf_def)

lemma ex_boot_inv: "boot_inv ex_this (ex_world (encode_bc ex_block))"
  using ex_load_block ex_block_inv ex_misc_ok [of "encode_bc ex_block"]
  by (simp add: boot_inv_def layout_simps) (simp add: ex_this_def kMaxNumSlots_def image_target_def)

theorem boot_control_invariant_witness:
  "\<exists>bc a. LoadBootloaderControl (ex_world (encode_bc ex_block)) (misc_dev ex_this) = Some bc \<and> crc_valid bc \<and>
    GetActiveBootSlot ex_this (ex_world (encode_bc ex_block)) = Ret a \<and> a < 2"
  using boot_control_invariant [OF ex_boot_inv boot_reach.start, of ex_services 0]
  by (auto simp: ex_this_def)

lemma ex_gpt_mode: "get_gpt_mode (ex_world bs) = 1"
proof -
  have "(le_word (replicate n 0) :: u64) = 0" for n
    by (induction n) (simp_all add: le_word.simps)
  then show ?thesis
    by (simp add: get_gpt_mode_def open_ro_def ex_world_def ex_emmc_def EMMC_DEVICE_def dev_read_def
        is_valid_gpt_buf_def GPT_HEADER_SIGNATURE_UBOOT_def Let_def)
qed

lemma ex_update_skipped: "update_bootloader ex_services slot g w = (True, w)"
  by (simp add: update_bootloader_def ex_services_def)

lemma ex_set_active:
  "\<exists>w'. SetActiveBootSlot ex_services ex_this 1 (ex_world (encode_bc ex_block)) = (Ret True, w')"
proof -
  have "misc_ok (misc_dev ex_this) (ex_world (encode_bc ex_block))"
    using ex_boot_inv by (simp add: boot_inv_def)
  moreover have "bc_wf (activate ex_this 1 ex_block)" by simp
  ultimately obtain w' where
    "UpdateAndSaveBootloaderControl (ex_world (encode_bc ex_block)) (misc_dev ex_this) (activate ex_this 1 ex_block)
      = (True, seal (activate ex_this 1 ex_block), w')"
    using misc_ok_save by blast
  then show ?thesis
    by (simp add: SetActiveBootSlot_def ex_load_block ex_gpt_mode ex_update_skipped)
      (simp add: ex_this_def kMaxNumSlots_def)
qed

section \<open>Choosing the active slot\<close>

text \<open>
  C4. When SetActiveBootSlot reports success, the requested slot is the one
  GetActiveBootSlot returns and it is bootable.
\<close>

theorem set_active_then_get_active:
  assumes "SetActiveBootSlot S this slot w = (Ret True, w')" and "current_slot this < num_slots this"
  shows "GetActiveBootSlot this w' = Ret slot \<and> IsSlotBootable this slot w'"
proof -
  from assms(1) obtain bc where bc: "LoadBootloaderControl w (misc_dev this) = Some bc"
    "LoadBootloaderControl w' (misc_dev this) = Some (seal (activate this slot bc))"
    and num: "slot < num_slots this" "num_slots this \<le> kMaxNumSlots"
    by (rule SetActiveBootSlot_stores)
  have wf: "bc_wf bc" using bc(1) by (rule load_wf)
  have "GetActiveBootSlot this w' = Ret slot"
    using bc(2) wf num assms(2) by (rule active_slot_after)
  moreover have "IsSlotBootable this slot w'"
    using bc(2) wf num by (simp add: IsSlotBootable_def activate_nth Let_def bc_wf_def kMaxNumSlots_def)
  ultimately show ?thesis by simp
qed

theorem set_active_then_get_active_witness:
  "\<exists>w'. SetActiveBootSlot ex_services ex_this 1 (ex_world (encode_bc ex_block)) = (Ret True, w') \<and>
     GetActiveBootSlot ex_this w' = Ret 1 \<and> IsSlotBootable ex_this 1 w'"
  using ex_set_active set_active_then_get_active [of ex_services ex_this 1 "ex_world (encode_bc ex_block)"]
  by (auto simp: ex_this_def)



text \<open>
  SetActiveBootSlot is all or nothing for the metadata: on a working misc device, a call
  that reports failure (a bad slot, no readable eMMC, a bootloader image that could not be
  copied) leaves the stored block as it was.
\<close>

theorem set_active_failure_keeps_block:
  assumes "boot_inv this w" and "SetActiveBootSlot S this slot w = (Ret False, w')"
  shows "LoadBootloaderControl w' (misc_dev this) = LoadBootloaderControl w (misc_dev this)"
  using assms by (rule SetActiveBootSlot_failed)

theorem set_active_failure_keeps_block_witness:
  "LoadBootloaderControl (snd (SetActiveBootSlot ex_services ex_this 3 (ex_world (encode_bc ex_block)))) (misc_dev ex_this)
   = Some ex_block"
proof -
  have "SetActiveBootSlot ex_services ex_this 3 (ex_world (encode_bc ex_block)) =
      (Ret False, ex_world (encode_bc ex_block))"
    by (simp add: SetActiveBootSlot_def ex_this_def)
  from set_active_failure_keeps_block [OF ex_boot_inv this] this ex_load_block show ?thesis by simp
qed

section \<open>Unbootable and successful slots\<close>

text \<open>
  C20. SetSlotAsUnbootable makes exactly the requested slot unbootable: it is neither bootable
  nor marked successful afterwards, every other slot is as bootable as before, and the slot
  reported as active does not change, not even when it is the one made unbootable.
\<close>

theorem set_unbootable_effect:
  assumes "SetSlotAsUnbootable this slot w = (True, w')"
  shows "\<not> IsSlotBootable this slot w' \<and> fst (IsSlotMarkedSuccessful S this slot w') \<noteq> Ret True \<and>
    (\<forall>j. j \<noteq> slot \<longrightarrow> IsSlotBootable this j w' = IsSlotBootable this j w) \<and>
    GetActiveBootSlot this w' = GetActiveBootSlot this w"
proof -
  let ?f = "\<lambda>s. s\<lparr>successful_boot := 0, tries_remaining := 0\<rparr>"
  from assms obtain bc where load: "LoadBootloaderControl w (misc_dev this) = Some bc"
    and load': "LoadBootloaderControl w' (misc_dev this) = Some (seal (set_slot slot ?f bc))"
    and num: "slot < num_slots this" "slot < kMaxNumSlots"
    by (rule SetSlotAsUnbootable_stores)
  have len: "length (slot_info bc) = 4" using load_wf [OF load] by (simp add: bc_wf_def)
  let ?new = "slot_info (set_slot slot ?f bc)"
  have prio: "priority (?new ! j) = priority (slot_info bc ! j)" if "j < 4" for j
    using that len by (simp add: set_slot_nth)
  have "GetActiveBootSlot this w' = GetActiveBootSlot this w"
    using load load' highest_priority_cong [of "[0..<num_slots this]" ?new "slot_info bc"] prio
    by (auto simp: GetActiveBootSlot_def kMaxNumSlots_def)
  moreover have "IsSlotBootable this j w' = IsSlotBootable this j w" if "j \<noteq> slot" for j
    using load load' that len by (simp add: IsSlotBootable_def set_slot_nth kMaxNumSlots_def)
  moreover have "\<not> IsSlotBootable this slot w'" "fst (IsSlotMarkedSuccessful S this slot w') \<noteq> Ret True"
    using load' num len
    by (auto simp: IsSlotBootable_def IsSlotMarkedSuccessful_def set_slot_nth kMaxNumSlots_def Let_def
        split: prod.splits outcome.splits)
  ultimately show ?thesis by blast
qed

theorem set_unbootable_effect_witness:
  "\<exists>w'. SetSlotAsUnbootable ex_this 0 (ex_world (encode_bc ex_block)) = (True, w') \<and>
     \<not> IsSlotBootable ex_this 0 w' \<and>
     IsSlotBootable ex_this 1 w' = IsSlotBootable ex_this 1 (ex_world (encode_bc ex_block))"
proof -
  obtain r w' where call: "SetSlotAsUnbootable ex_this 0 (ex_world (encode_bc ex_block)) = (r, w')"
    by fastforce
  with SetSlotAsUnbootable_inv [OF ex_boot_inv] have "r"
    by (fastforce simp: IsValidSlot_def ex_this_def kMaxNumSlots_def)
  with call set_unbootable_effect [of ex_this 0 "ex_world (encode_bc ex_block)" w' ex_services]
  show ?thesis by auto
qed

text \<open>
  C16. On a device in a good state MarkBootSuccessful stores the running slot as successful
  with one try left, clears the merge and first-boot marks and leaves every other slot as it
  was. It asks for a reboot exactly when the slot was not yet successful and the
  boot-complete flag was not set, the new block being stored before the reboot; otherwise,
  or when the reboot is refused, it returns true.
\<close>

theorem mark_successful_effect:
  assumes inv: "boot_inv this w" and call: "MarkBootSuccessful S this w = (r, w')"
    and load: "LoadBootloaderControl w (misc_dev this) = Some bc"
  shows "\<exists>bc'. LoadBootloaderControl w' (misc_dev this) = Some bc' \<and> merge_flag bc' = 0 \<and> firstboot bc' = 0 \<and>
    (\<forall>j<4. slot_info bc' ! j =
       (if j = current_slot this then (slot_info bc ! j)\<lparr>successful_boot := 1, tries_remaining := 1\<rparr>
        else slot_info bc ! j)) \<and>
    r = (if successful_boot (slot_info bc ! current_slot this) = 0 \<and> get_sys_boot_complete S w \<noteq> 0 \<and>
            fst (android_reboot S (outside (snd (set_sys_boot_complete S w)))) \<noteq> -1
         then Rebooting else Ret True)"
proof -
  let ?bc = "set_slot (current_slot this) (\<lambda>s. s\<lparr>successful_boot := 1, tries_remaining := 1\<rparr>)
    (bc\<lparr>merge_flag := 0, firstboot := 0\<rparr>)"
  have "current_slot this < kMaxNumSlots" using inv by (simp add: boot_inv_def)
  with load_wf [OF load] MarkBootSuccessful_stores [OF inv call load] show ?thesis
    by (intro exI [of _ "seal ?bc"]) (simp add: set_slot_nth bc_wf_def)
qed

theorem mark_successful_effect_witness:
  "\<exists>w' bc'. MarkBootSuccessful ex_services ex_this (ex_world (encode_bc ex_block)) = (Ret True, w') \<and>
     LoadBootloaderControl w' (misc_dev ex_this) = Some bc' \<and> successful_boot (slot_info bc' ! 0) = 1"
proof -
  obtain r w' where call: "MarkBootSuccessful ex_services ex_this (ex_world (encode_bc ex_block)) = (r, w')"
    by fastforce
  have "get_sys_boot_complete ex_services (ex_world (encode_bc ex_block)) = 0"
    by (simp add: get_sys_boot_complete_def ex_services_def ex_world_def ex_outside0_def)
  with mark_successful_effect [OF ex_boot_inv call ex_load_block] call show ?thesis
    by (auto simp: ex_this_def)
qed

text \<open>
  On a device in a good state IsSlotMarkedSuccessful answers whether the slot is successful
  with tries left, and the anti-rollback step it performs after a first boot happens at most
  once: the first-boot mark is clear afterwards when the system reports a completed boot, and
  without the mark the call changes nothing and cannot reboot.
\<close>

theorem marked_successful_one_shot:
  fixes w :: "'x world"
  assumes inv: "boot_inv this w" and call: "IsSlotMarkedSuccessful S this slot w = (r, w')"
    and load: "LoadBootloaderControl w (misc_dev this) = Some bc" and slot: "IsValidSlot this slot"
    and completed: "GetProperty S ''sys.boot_completed'' '''' (outside w) = ''1''"
  shows "(r = Rebooting \<or> r = Ret (successful_boot (slot_info bc ! slot) \<noteq> 0 \<and> tries_remaining (slot_info bc ! slot) \<noteq> 0)) \<and>
    (firstboot bc \<noteq> 1 \<longrightarrow> w' = w \<and> r \<noteq> Rebooting) \<and>
    (\<exists>bc'. LoadBootloaderControl w' (misc_dev this) = Some bc' \<and> firstboot bc' \<noteq> 1 \<and>
       slot_info bc' = slot_info bc)"
proof -
  have "bc_wf (bc\<lparr>firstboot := 0\<rparr>)" using load_wf [OF load] by (simp add: bc_wf_def)
  then have saved: "ok \<and> LoadBootloaderControl w2 (misc_dev this) = Some (seal (bc\<lparr>firstboot := 0\<rparr>)) \<and>
      outside w2 = outside w"
    if "UpdateAndSaveBootloaderControl w (misc_dev this) (bc\<lparr>firstboot := 0\<rparr>) = (ok, b', w2)"
    for ok b' and w2 :: "'x world"
    using boot_inv_saved [OF inv _ that] by simp
  have sbc: "LoadBootloaderControl (snd (set_sys_boot_complete S v)) p = LoadBootloaderControl v p"
    for v :: "'x world" and p
    by (rule load_devices) (simp add: set_sys_boot_complete_def split: prod.splits)
  show ?thesis
    using call load slot completed
    by (auto simp: IsSlotMarkedSuccessful_def IsValidSlot_def Let_def sbc
        dest!: saved reboot_device_effect [where p = "misc_dev this"] split: if_splits prod.splits outcome.splits)
qed

definition ex_completed :: "ex_outside services" where
  "ex_completed = ex_services\<lparr>GetProperty := (\<lambda>key dflt x. ''1'')\<rparr>"

theorem marked_successful_one_shot_witness:
  "fst (IsSlotMarkedSuccessful ex_completed ex_this 0 (ex_world (encode_bc ex_block))) = Ret False"
proof -
  obtain r w' where call: "IsSlotMarkedSuccessful ex_completed ex_this 0 (ex_world (encode_bc ex_block)) = (r, w')"
    by fastforce
  have "IsValidSlot ex_this 0" "GetProperty ex_completed ''sys.boot_completed'' '''' (outside (ex_world (encode_bc ex_block))) = ''1''"
    by (simp_all add: IsValidSlot_def ex_this_def kMaxNumSlots_def ex_completed_def)
  from marked_successful_one_shot [OF ex_boot_inv call ex_load_block this] call show ?thesis
    by (auto simp: ex_block_def ex_slot_def empty_slot_def zeroed_control_def)
qed

section \<open>Initialisation\<close>

text \<open>
  C15. A successful Init on a working misc device leaves a block with a valid checksum and
  remembers its number of slots. It keeps a block whose checksum was valid (apart from the
  roll-back mark), and replaces any other by the default block: the running slot successful,
  every detected slot with priority 7 and seven tries. When the running slot is one of the
  detected ones and a block kept was in a good state, the object is in a good state.
\<close>

theorem init_establishes_invariant:
  assumes fresh: "\<not> is_initialized this" and call: "Init S this w = (True, this', w')"
    and ok: "misc_ok (misc_dev this') w"
    and load: "LoadBootloaderControl w (misc_dev this') = Some loaded"
    and valid: "crc_valid loaded \<Longrightarrow> block_inv (unat (nb_slot loaded)) loaded \<and> unat (nb_slot loaded) \<le> 4"
    and running: "current_slot this' < num_slots this'" and misc: "misc_dev this' \<noteq> image_target False"
  shows "boot_inv this' w' \<and>
    LoadBootloaderControl w' (misc_dev this') = Some (
      if \<not> crc_valid loaded then seal (InitDefaultBootloaderControl this' w)
      else if roll_flag loaded = 1 then seal (loaded\<lparr>roll_flag := 0\<rparr>) else loaded)"
proof -
  have block: "LoadBootloaderControl w' (misc_dev this') = Some (init_block this' w loaded)"
    "num_slots this' = unat (nb_slot (init_block this' w loaded))" "misc_ok (misc_dev this') w'"
    using Init_block [OF fresh call ok load] by simp_all
  have "crc_valid (init_block this' w loaded)" "block_inv (num_slots this') (init_block this' w loaded)"
    using init_block_inv [OF load_wf [OF load], of this' w] valid block(2) by simp_all
  moreover have "num_slots this' \<le> kMaxNumSlots"
    using block(2) valid detect_nb_slot_bounds [of w "misc_dev this'"]
    by (auto simp: init_block_def InitDefault_fields kMaxNumSlots_def split: if_splits)
  ultimately show ?thesis
    using block running misc by (simp add: boot_inv_def) (simp add: init_block_def)
qed

lemma ex_suffix_index: "SlotSuffixToIndex (c_str ''_a'') = 0"
  by (simp add: SlotSuffixToIndex_def c_str_def kMaxNumSlots_def kSlotSuffixes_def upt_conv_Cons)

lemma ex_init:
  assumes "length bs = 32"
  shows "\<exists>this' w'. Init ex_services new_BootControl (ex_world bs) = (True, this', w') \<and>
    misc_dev this' = ''/dev/block/misc'' \<and> current_slot this' = 0"
proof -
  have suffix: "GetProperty ex_services ''ro.boot.slot_suffix'' '''' x = ''_a''" for x
    by (simp add: ex_services_def)
  have dev: "get_bootloader_message_blk_device ex_services x = ''/dev/block/misc''" for x
    by (simp add: ex_services_def)
  have vab: "InitMiscVirtualAbMessageIfNeeded ex_services w \<noteq> (False, w')" for w w'
    by (simp add: InitMiscVirtualAbMessageIfNeeded_def ex_services_def Let_def)
  show ?thesis
    using assms vab by (auto simp: Init_def new_BootControl_def suffix ex_suffix_index dev ex_load Let_def split: prod.splits)
qed

theorem init_establishes_invariant_witness:
  "\<exists>this' w'. Init ex_services new_BootControl (ex_world (encode_bc ex_block)) = (True, this', w') \<and>
     boot_inv this' w' \<and> LoadBootloaderControl w' (misc_dev this') = Some ex_block"
proof -
  let ?w = "ex_world (encode_bc ex_block)"
  obtain this' w' where init: "Init ex_services new_BootControl ?w = (True, this', w')"
    and dev: "misc_dev this' = ''/dev/block/misc''" and cur: "current_slot this' = 0"
    using ex_init [of "encode_bc ex_block"] by (auto simp: layout_simps)
  have fresh: "\<not> is_initialized new_BootControl" by (simp add: new_BootControl_def)
  have ok: "misc_ok (misc_dev this') ?w" using ex_misc_ok by (simp add: dev layout_simps)
  have load: "LoadBootloaderControl ?w (misc_dev this') = Some ex_block"
    using ex_load_block by (simp add: dev ex_this_def)
  have nb: "nb_slot ex_block = 2" "roll_flag ex_block = 0" by (simp_all add: ex_block_def zeroed_control_def)
  have "current_slot this' < num_slots this'"
    using Init_block [OF fresh init ok load] cur nb by (simp add: init_block_def)
  from init_establishes_invariant [OF fresh init ok load _ this] ex_block_inv nb dev init
  show ?thesis by (auto simp: image_target_def)
qed

text \<open>
  C3. Init detects damage to a stored block: when up to four adjacent bytes anywhere in a
  sealed block, the checksum included, have been changed, Init rejects the block and stores
  the default block instead.
\<close>

theorem init_detects_corruption:
  assumes fresh: "\<not> is_initialized this" and call: "Init S this w = (True, this', w')"
    and ok: "misc_ok (misc_dev this') w" and bc: "bc_wf bc" "crc_valid bc"
    and xs: "length xs \<le> 4" "off + length xs \<le> 32"
    and diff: "overlay off xs (encode_bc bc) \<noteq> encode_bc bc"
    and load: "LoadBootloaderControl w (misc_dev this') = Some (decode_bc (overlay off xs (encode_bc bc)))"
  shows "LoadBootloaderControl w' (misc_dev this') = Some (seal (InitDefaultBootloaderControl this' w))"
  using Init_block [OF fresh call ok load] corrupted_block_invalid [OF bc xs diff]
  by (simp add: init_block_def)

lemma ex_damaged: "overlay 4 [0] (encode_bc ex_block) \<noteq> encode_bc ex_block"
proof
  assume "overlay 4 [0] (encode_bc ex_block) = encode_bc ex_block"
  then have "overlay 4 [0] (encode_bc ex_block) ! 4 = encode_bc ex_block ! 4" by simp
  moreover have "encode_bc ex_block ! 4 = 0x42"
    by (simp add: encode_bc_def encode_prefix_def ex_block_def seal_def zeroed_control_def BOOT_CTRL_MAGIC_def
        le_bytes_def nth_append)
  ultimately show False by (simp add: overlay_def nth_append layout_simps)
qed

theorem init_detects_corruption_witness:
  "\<exists>this' w'. Init ex_services new_BootControl (ex_world (overlay 4 [0] (encode_bc ex_block))) = (True, this', w') \<and>
     LoadBootloaderControl w' (misc_dev this') =
       Some (seal (InitDefaultBootloaderControl this' (ex_world (overlay 4 [0] (encode_bc ex_block)))))"
proof -
  let ?bs = "overlay 4 [0] (encode_bc ex_block)"
  have len: "length ?bs = 32" by (simp add: layout_simps)
  obtain this' w' where init: "Init ex_services new_BootControl (ex_world ?bs) = (True, this', w')"
    and dev: "misc_dev this' = ''/dev/block/misc''"
    using ex_init [OF len] by auto
  have "\<not> is_initialized new_BootControl" by (simp add: new_BootControl_def)
  from init_detects_corruption [OF this init, where bc = ex_block and off = 4 and xs = "[0]"]
    init ex_misc_ok [OF len] ex_load [OF len] ex_damaged dev
  show ?thesis by auto
qed

text \<open>
  The default number of slots is the number of boot partitions found beside the misc
  device when they are a prefix of the four suffixes and no stat call fails for another
  reason than a missing file, and four otherwise; it is always between one and four.
\<close>

theorem detected_slots:
  assumes "upto_last_sep p = Some dir"
    and "\<forall>i<kMaxNumSlots. stat_of w (dir @ ''boot'' @ kSlotSuffixes ! i) \<noteq> StatError"
  shows "detect_nb_slot w p =
    (if prefix_found w dir 1 then 1 else if prefix_found w dir 2 then 2
     else if prefix_found w dir 3 then 3 else 4) \<and> 1 \<le> detect_nb_slot w p \<and> detect_nb_slot w p \<le> 4"
  using detect_nb_slot_spec [OF assms] detect_nb_slot_bounds [of w p] by simp

theorem detected_slots_witness: "detect_nb_slot (ex_world []) ''/dev/block/misc'' = 2"
proof -
  have stats: "\<forall>i<kMaxNumSlots. stat_of (ex_world []) (''/dev/block/'' @ ''boot'' @ kSlotSuffixes ! i) \<noteq> StatError"
    by (simp add: ex_world_def)
  have "upto_last_sep ''/dev/block/misc'' = Some ''/dev/block/''" by (simp add: upto_last_sep_def)
  from detected_slots [OF this stats] show ?thesis
    by (simp add: prefix_found_def four_slots ex_world_def kSlotSuffixes_def numeral_eq_Suc)
qed

section \<open>The stored form of the block\<close>



text \<open>
  C18. The table-driven checksum, whatever earlier calls left in its static table, is the
  reflected CRC-32 computed bit by bit, and the table is filled after the first call.
\<close>

theorem table_crc_is_bitwise_crc:
  assumes "tbl = crc_table0 \<or> tbl = crc_fill"
  shows "CRC32_call tbl buf = (crc32_reference buf, crc_fill)"
  using CRC32_call_cached [OF assms] by (simp add: CRC32_reference)

theorem table_crc_is_bitwise_crc_witness:
  "CRC32_call (snd (CRC32_call crc_table0 [1, 2])) [3] = (crc32_reference [3], crc_fill)"
  using table_crc_is_bitwise_crc [of crc_fill "[3]"] table_crc_is_bitwise_crc [of crc_table0 "[1, 2]"] by simp

section \<open>The snapshot merge status\<close>

text \<open>
  When writing the Virtual A/B message is followed by reading it back, a merge status
  below 256 that was stored is the one reported from any other slot; from the slot that
  stored it, the status "snapshotted" is reported as "none".
\<close>

theorem merge_status_roundtrip:
  assumes rw: "\<And>m x x'. WriteMiscVirtualAbMessage S m x = (True, x') \<Longrightarrow> ReadMiscVirtualAbMessage S x' = Some m"
    and call: "SetSnapshotMergeStatus S this status w = (True, w')" and small: "unat status < 256"
  shows "GetSnapshotMergeStatus S other w' =
    (if status = HIDL_SNAPSHOTTED S \<and> current_slot other = current_slot this then HIDL_NONE S else status)"
proof -
  have "ucast (ucast status :: byte) = status"
    using small by (intro word_unat_eq_iff [THEN iffD2]) (simp add: unsigned_ucast_eq, simp add: unsigned_take_bit_eq take_bit_nat_eq_self)
  then show ?thesis
    using call rw
    by (auto simp: SetSnapshotMergeStatus_def SetMiscVirtualAbMergeStatus_def GetSnapshotMergeStatus_def
        GetMiscVirtualAbMergeStatus_def Let_def split: option.splits prod.splits)
qed

theorem merge_status_roundtrip_witness:
  "\<exists>w'. SetSnapshotMergeStatus ex_services ex_this 2 (ex_world (encode_bc ex_block)) = (True, w') \<and>
     GetSnapshotMergeStatus ex_services (ex_this\<lparr>current_slot := 1\<rparr>) w' = 2 \<and>
     GetSnapshotMergeStatus ex_services ex_this w' = 0"
proof -
  obtain r w' where call: "SetSnapshotMergeStatus ex_services ex_this 2 (ex_world (encode_bc ex_block)) = (r, w')"
    by fastforce
  have "r" using call
    by (auto simp: SetSnapshotMergeStatus_def SetMiscVirtualAbMergeStatus_def ex_services_def Let_def)
  moreover have rw: "WriteMiscVirtualAbMessage ex_services m x = (True, x') \<Longrightarrow>
      ReadMiscVirtualAbMessage ex_services x' = Some m" for m x x'
    by (auto simp: ex_services_def)
  ultimately show ?thesis
    using call merge_status_roundtrip [of ex_services ex_this 2 "ex_world (encode_bc ex_block)" w' "ex_this\<lparr>current_slot := 1\<rparr>"]
      merge_status_roundtrip [of ex_services ex_this 2 "ex_world (encode_bc ex_block)" w' ex_this]
    by (auto simp: ex_this_def) (auto simp: ex_services_def)
qed

section \<open>The bootloader image\<close>

text \<open>
  C17. When write_bootloader_img reports success, either the image carries a GPT signature in
  dts mode and nothing was written, or the whole image of the slot's partition stands in the
  target from byte 512 on, the first 512 bytes and everything behind the image are untouched,
  and no other device changed.
\<close>

theorem bootloader_image_copied:
  assumes "write_bootloader_img slot g w = (True, w')"
  defines "len \<equiv> BOOTLOADER_MAX_SIZE - BOOTLOADER_OFFSET"
  shows "\<exists>src. devices w (image_source slot g) = Some src \<and> len \<le> length (content src) \<and>
    (\<not> g \<and> w' = w \<and> is_valid_gpt_buf (drop 0x3DFE00 (take len (content src) @ replicate BOOTLOADER_OFFSET 0)) = 0 \<or>
     (\<exists>t t'. devices w (image_target g) = Some t \<and> devices w' = (devices w)(image_target g \<mapsto> t') \<and>
        length (content t') = length (content t) \<and>
        take BOOTLOADER_OFFSET (content t') = take BOOTLOADER_OFFSET (content t) \<and>
        take len (drop BOOTLOADER_OFFSET (content t')) = take len (content src) \<and>
        drop BOOTLOADER_MAX_SIZE (content t') = drop BOOTLOADER_MAX_SIZE (content t)))"
proof -
  have sizes: "BOOTLOADER_MAX_SIZE - len = BOOTLOADER_OFFSET" "BOOTLOADER_OFFSET + len = BOOTLOADER_MAX_SIZE"
    by (simp_all add: len_def BOOTLOADER_MAX_SIZE_def BOOTLOADER_OFFSET_def)
  from assms(1) obtain src where src: "devices w (image_source slot g) = Some src" "len \<le> length (content src)"
    and cases: "\<not> g \<and> w' = w \<and> is_valid_gpt_buf (drop 0x3DFE00 (take len (content src) @ replicate BOOTLOADER_OFFSET 0)) = 0
      \<or> (\<exists>t t'. devices w (image_target g) = Some t \<and> dev_write t BOOTLOADER_OFFSET (take len (content src)) = (len, t') \<and>
           BOOTLOADER_OFFSET \<le> length (content t) \<and> w' = put_device (image_target g) t' w)"
    by (auto simp: write_bootloader_img_def open_rw_def Let_def len_def [symmetric] dev_read_def sizes
        split: if_splits option.splits prod.splits)
  have "length (content t') = length (content t) \<and>
        take BOOTLOADER_OFFSET (content t') = take BOOTLOADER_OFFSET (content t) \<and>
        take len (drop BOOTLOADER_OFFSET (content t')) = take len (content src) \<and>
        drop BOOTLOADER_MAX_SIZE (content t') = drop BOOTLOADER_MAX_SIZE (content t)"
    if wr: "dev_write t BOOTLOADER_OFFSET (take len (content src)) = (len, t')"
      and t: "BOOTLOADER_OFFSET \<le> length (content t)" for t t'
  proof -
    have "len \<le> length (content t) - BOOTLOADER_OFFSET"
      and t': "content t' = overlay BOOTLOADER_OFFSET (take len (content src)) (content t)"
      using wr src(2) by (auto simp: dev_write_def Let_def)
    then show ?thesis
      using t src(2) sizes by (simp add: overlay_def min_absorb2 add.commute)
  qed
  note copied = this
  from cases show ?thesis
  proof
    assume "\<not> g \<and> w' = w \<and> is_valid_gpt_buf (drop 0x3DFE00 (take len (content src) @ replicate BOOTLOADER_OFFSET 0)) = 0"
    then show ?thesis using src by blast
  next
    assume "\<exists>t t'. devices w (image_target g) = Some t \<and>
      dev_write t BOOTLOADER_OFFSET (take len (content src)) = (len, t') \<and>
      BOOTLOADER_OFFSET \<le> length (content t) \<and> w' = put_device (image_target g) t' w"
    then obtain t t' where t: "devices w (image_target g) = Some t"
      "dev_write t BOOTLOADER_OFFSET (take len (content src)) = (len, t')"
      "BOOTLOADER_OFFSET \<le> length (content t)" "w' = put_device (image_target g) t' w" by blast
    then have "devices w' = (devices w)(image_target g \<mapsto> t')" by (simp add: put_device_def)
    with src t(1) copied [OF t(2,3)] show ?thesis by blast
  qed
qed

definition ex_images :: "ex_outside world" where
  "ex_images = (ex_world [])\<lparr>devices := [image_source 1 True \<mapsto>
      \<lparr>content = replicate BOOTLOADER_MAX_SIZE 1, readable = True, writable = True, write_limit = BOOTLOADER_MAX_SIZE\<rparr>,
    image_target True \<mapsto>
      \<lparr>content = replicate BOOTLOADER_MAX_SIZE 0, readable = True, writable = True, write_limit = BOOTLOADER_MAX_SIZE\<rparr>]\<rparr>"

theorem bootloader_image_copied_witness:
  "\<exists>w' t'. write_bootloader_img 1 True ex_images = (True, w') \<and> devices w' (image_target True) = Some t' \<and>
     take (BOOTLOADER_MAX_SIZE - BOOTLOADER_OFFSET) (drop BOOTLOADER_OFFSET (content t')) =
       replicate (BOOTLOADER_MAX_SIZE - BOOTLOADER_OFFSET) 1"
proof -
  have names: "image_source 1 True \<noteq> image_target True" by (simp add: image_source_def image_target_def)
  have off: "BOOTLOADER_OFFSET \<le> BOOTLOADER_MAX_SIZE"
    by (simp add: BOOTLOADER_MAX_SIZE_def BOOTLOADER_OFFSET_def)
  have "fst (write_bootloader_img 1 True ex_images)"
    using names off
    by (simp add: write_bootloader_img_def open_rw_def ex_images_def ex_world_def dev_read_def dev_write_def Let_def)
  then obtain w' where call: "write_bootloader_img 1 True ex_images = (True, w')" by (metis prod.collapse)
  have "devices ex_images (image_source 1 True) =
      Some \<lparr>content = replicate BOOTLOADER_MAX_SIZE 1, readable = True, writable = True, write_limit = BOOTLOADER_MAX_SIZE\<rparr>"
    using names by (simp add: ex_images_def)
  with bootloader_image_copied [OF call] obtain t' where "devices w' = (devices ex_images)(image_target True \<mapsto> t')"
    "take (BOOTLOADER_MAX_SIZE - BOOTLOADER_OFFSET) (drop BOOTLOADER_OFFSET (content t')) =
       take (BOOTLOADER_MAX_SIZE - BOOTLOADER_OFFSET) (replicate BOOTLOADER_MAX_SIZE 1)" by auto
  with call show ?thesis by (intro exI [of _ w'] exI [of _ t']) simp
qed

section \<open>Two defects\<close>


definition ex_seven :: bootloader_control where
  "ex_seven = seal (zeroed_control\<lparr>nb_slot := 7\<rparr>)"


text \<open>
  Init marks the object initialised before its last fallible step: when the Virtual A/B
  message cannot be set up the first call reports failure, and every later call reports
  success at once while the object manages no slot at all.
\<close>

theorem failed_init_then_succeeds:
  assumes "Init S new_BootControl w = (False, this', w')" and "is_initialized this'"
  shows "Init S' this' v = (True, this', v) \<and> GetNumberSlots this' = 0 \<and> \<not> IsValidSlot this' slot"
  using assms
  by (auto simp: Init_def new_BootControl_def GetNumberSlots_def IsValidSlot_def Let_def
      split: if_splits option.splits prod.splits)

definition ex_no_vab :: "ex_outside services" where
  "ex_no_vab = ex_services\<lparr>ReadMiscVirtualAbMessage := (\<lambda>x. None)\<rparr>"

theorem failed_init_then_succeeds_witness:
  "\<exists>this' w'. Init ex_no_vab new_BootControl (ex_world (encode_bc ex_block)) = (False, this', w') \<and>
     Init ex_services this' w' = (True, this', w') \<and> GetNumberSlots this' = 0"
proof -
  have props: "GetProperty ex_no_vab ''ro.boot.slot_suffix'' '''' x = ''_a''"
    "get_bootloader_message_blk_device ex_no_vab x = ''/dev/block/misc''" for x
    by (simp_all add: ex_no_vab_def ex_services_def)
  have vab: "InitMiscVirtualAbMessageIfNeeded ex_no_vab w = (False, w)" for w
    by (simp add: InitMiscVirtualAbMessageIfNeeded_def ex_no_vab_def)
  have load: "LoadBootloaderControl (ex_world (encode_bc ex_block)) ''/dev/block/misc'' = Some ex_block"
    using ex_load_block by (simp add: ex_this_def)
  have "\<exists>this' w'. Init ex_no_vab new_BootControl (ex_world (encode_bc ex_block)) = (False, this', w') \<and> is_initialized this'"
    by (simp add: Init_def new_BootControl_def props ex_suffix_index load vab Let_def split: prod.splits)
  then obtain this' w' where
    init: "Init ex_no_vab new_BootControl (ex_world (encode_bc ex_block)) = (False, this', w')" "is_initialized this'"
    by blast
  with failed_init_then_succeeds [OF init] show ?thesis by blast
qed

section \<open>The front ends\<close>

text \<open>
  C2. The AIDL service implements the abstract A/B machine: after any sequence of commands
  none of which rebooted the device, what getActiveBootSlot and isSlotBootable answer is what
  the machine computes from the commands that were answered with success; commands answered
  with an error have no effect.
\<close>

theorem aidl_implements_ab_machine:
  assumes "boot_inv impl w" and "aidl_run S impl cs w = (ss, w')" and "length ss = length cs"
    and "IsValidSlot impl (unat slot)"
  shows "aidl_getActiveBootSlot impl w' =
      Ret (AidlOk (ab_active (ab_run (current_slot impl) cs ss (ab_of impl w)))) \<and>
    aidl_isSlotBootable impl slot w' =
      AidlOk (unat slot \<in> ab_bootable (ab_run (current_slot impl) cs ss (ab_of impl w)))"
  using aidl_run_refines [OF assms(1-3)] aidl_queries [of impl w'] assms(4) by simp

theorem aidl_implements_ab_machine_witness:
  "\<exists>w'. aidl_run ex_services ex_this [SetUnbootable 0, SetUnbootable 9] (ex_world (encode_bc ex_block)) =
      ([AidlOk (), invalid_slot 9], w') \<and>
     aidl_isSlotBootable ex_this 0 w' = AidlOk False \<and> aidl_isSlotBootable ex_this 1 w' = AidlOk True"
proof -
  let ?w = "ex_world (encode_bc ex_block)"
  obtain r w1 where one: "aidl_setSlotAsUnbootable ex_this 0 ?w = (r, w1)" by fastforce
  have valid: "IsValidSlot ex_this (unat (0 :: 32 word))" "IsValidSlot ex_this (unat (1 :: 32 word))"
    "\<not> IsValidSlot ex_this (unat (9 :: 32 word))"
    by (simp_all add: IsValidSlot_def ex_this_def kMaxNumSlots_def)
  have r: "r = Ret (AidlOk ())" using aidl_set_unbootable_refines [OF ex_boot_inv one] valid(1) by simp
  have run: "aidl_run ex_services ex_this [SetUnbootable 0, SetUnbootable 9] ?w = ([AidlOk (), invalid_slot 9], w1)"
    using one r valid(3) by (simp add: aidl_setSlotAsUnbootable_def [of _ 9])
  have "ab_bootable (ab_of ex_this ?w) = {0, 1}"
    using ab_of_load [OF ex_load_block]
    by (simp add: ab_of_block_def) (auto simp: ex_this_def ex_block_def ex_slot_def less_2_cases_iff)
  then show ?thesis
    using aidl_implements_ab_machine [OF ex_boot_inv run _ valid(1)]
      aidl_implements_ab_machine [OF ex_boot_inv run _ valid(2)] run
    by simp
qed


end
