(* ===== verification/Linked_List.thy ===== *)
theory Linked_List
  imports Prelude "HOL-Library.Monad_Syntax"
begin

text \<open>
  The intrusive doubly linked list of \<^verbatim>\<open>amavutils/include/list.h\<close> at pointer level. A heap
  maps addresses to the two links of a \<^verbatim>\<open>list_head\<close> and to the members of the \<^verbatim>\<open>item\<close> it is
  the first member of, so an item and its \<^verbatim>\<open>list_head\<close> have one address and \<^verbatim>\<open>list_entry\<close> is
  the identity. Touching memory that is not allocated has the value \<open>None\<close>.
\<close>

section \<open>Memory\<close>

type_synonym addr = nat

record heap =
  nxt :: "addr \<Rightarrow> addr"
  prv :: "addr \<Rightarrow> addr"
  item_data :: "addr \<Rightarrow> u64"
  extdata :: "addr \<Rightarrow> u64 list"
  live :: "addr set"

definition LIST_POISON1 :: addr where
  "LIST_POISON1 = 0x00100100"

definition LIST_POISON2 :: addr where
  "LIST_POISON2 = 0x00200200"

definition load_next :: "addr \<Rightarrow> heap \<Rightarrow> addr option" where
  "load_next a h = (if a \<in> live h then Some (nxt h a) else None)"

definition load_prev :: "addr \<Rightarrow> heap \<Rightarrow> addr option" where
  "load_prev a h = (if a \<in> live h then Some (prv h a) else None)"

definition store_next :: "addr \<Rightarrow> addr \<Rightarrow> heap \<Rightarrow> heap option" where
  "store_next a v h = (if a \<in> live h then Some (h\<lparr>nxt := (nxt h)(a := v)\<rparr>) else None)"

definition store_prev :: "addr \<Rightarrow> addr \<Rightarrow> heap \<Rightarrow> heap option" where
  "store_prev a v h = (if a \<in> live h then Some (h\<lparr>prv := (prv h)(a := v)\<rparr>) else None)"

section \<open>The operations of list.h\<close>

definition INIT_LIST_HEAD :: "addr \<Rightarrow> heap \<Rightarrow> heap option" where
  "INIT_LIST_HEAD list h = do {
     h1 \<leftarrow> store_next list list h;
     store_prev list list h1 }"

definition list_add_links :: "addr \<Rightarrow> addr \<Rightarrow> addr \<Rightarrow> heap \<Rightarrow> heap option" where
  "list_add_links newh prev next h = do {
     h1 \<leftarrow> store_prev next newh h;
     h2 \<leftarrow> store_next newh next h1;
     h3 \<leftarrow> store_prev newh prev h2;
     store_next prev newh h3 }"

definition list_del_links :: "addr \<Rightarrow> addr \<Rightarrow> heap \<Rightarrow> heap option" where
  "list_del_links prev next h = do {
     h1 \<leftarrow> store_prev next prev h;
     store_next prev next h1 }"

definition list_add :: "addr \<Rightarrow> addr \<Rightarrow> heap \<Rightarrow> heap option" where
  "list_add newh head h = do {
     n \<leftarrow> load_next head h;
     list_add_links newh head n h }"

definition list_add_tail :: "addr \<Rightarrow> addr \<Rightarrow> heap \<Rightarrow> heap option" where
  "list_add_tail newh head h = do {
     p \<leftarrow> load_prev head h;
     list_add_links newh p head h }"

definition list_del :: "addr \<Rightarrow> heap \<Rightarrow> heap option" where
  "list_del entry h = do {
     p \<leftarrow> load_prev entry h;
     n \<leftarrow> load_next entry h;
     h1 \<leftarrow> list_del_links p n h;
     h2 \<leftarrow> store_next entry LIST_POISON1 h1;
     store_prev entry LIST_POISON2 h2 }"

definition list_del_init :: "addr \<Rightarrow> heap \<Rightarrow> heap option" where
  "list_del_init entry h = do {
     p \<leftarrow> load_prev entry h;
     n \<leftarrow> load_next entry h;
     h1 \<leftarrow> list_del_links p n h;
     INIT_LIST_HEAD entry h1 }"

definition list_empty :: "addr \<Rightarrow> heap \<Rightarrow> bool option" where
  "list_empty head h = do {
     n \<leftarrow> load_next head h;
     Some (n = head) }"

section \<open>Well-formed lists\<close>

text \<open>
  \<open>linked h u v\<close>: the two cells point at each other. The cells of a list form a cycle through
  its head; \<open>xs\<close> are the other cells in order.
\<close>

definition linked :: "heap \<Rightarrow> addr \<Rightarrow> addr \<Rightarrow> bool" where
  "linked h u v \<longleftrightarrow> nxt h u = v \<and> prv h v = u"

definition dll :: "heap \<Rightarrow> addr \<Rightarrow> addr list \<Rightarrow> bool" where
  "dll h head xs \<longleftrightarrow>
     distinct (head # xs) \<and> set (head # xs) \<subseteq> live h \<and> successively (linked h) (head # xs @ [head])"

lemma successively_agree:
  "(\<And>u v. u \<in> set (butlast xs) \<Longrightarrow> v \<in> set (tl xs) \<Longrightarrow> P u v = Q u v) \<Longrightarrow> successively P xs = successively Q xs"
proof (induction xs rule: induct_list012)
  case (3 x y zs)
  have "P x y = Q x y" using 3(3) [of x y] by simp
  moreover have "successively P (y # zs) = successively Q (y # zs)"
    by (rule 3(2)) (use 3(3) in \<open>auto dest: in_set_butlastD split: if_splits\<close>)
  ultimately show ?case by simp
qed simp_all

lemma cycle_split:
  "successively P (head # xs @ ys @ [head]) \<longleftrightarrow>
     successively P (head # xs) \<and> P (last (head # xs)) (hd (ys @ [head])) \<and> successively P (ys @ [head])"
  using successively_append_iff [of P "head # xs" "ys @ [head]"] by auto

lemma last_in_cycle: "last (head # xs) \<in> set (head # xs)" "hd (ys @ [head]) \<in> set (head # ys)"
  by (simp, cases ys, auto)

text \<open>Two neighbours point at each other.\<close>

lemma dll_neighbours:
  assumes "dll h head (xs @ ys)"
  shows "nxt h (last (head # xs)) = hd (ys @ [head])" "prv h (hd (ys @ [head])) = last (head # xs)"
    "last (head # xs) \<in> live h" "hd (ys @ [head]) \<in> live h" "head \<in> live h"
proof -
  from assms have "linked h (last (head # xs)) (hd (ys @ [head]))" and sub: "set (head # xs @ ys) \<subseteq> live h"
    by (auto simp: dll_def cycle_split)
  then show "nxt h (last (head # xs)) = hd (ys @ [head])" "prv h (hd (ys @ [head])) = last (head # xs)"
    by (simp_all add: linked_def)
  from sub last_in_cycle(1) [of head xs] last_in_cycle(2) [of ys head]
  show "last (head # xs) \<in> live h" "hd (ys @ [head]) \<in> live h" "head \<in> live h" by auto
qed

text \<open>Two heaps that differ at most in the links of the cells in \<open>A\<close>.\<close>

definition links_only :: "addr set \<Rightarrow> heap \<Rightarrow> heap \<Rightarrow> bool" where
  "links_only A h h' \<longleftrightarrow> item_data h' = item_data h \<and> extdata h' = extdata h \<and> live h' = live h \<and>
     (\<forall>a. a \<notin> A \<longrightarrow> nxt h' a = nxt h a \<and> prv h' a = prv h a)"

lemma links_only_refl [simp]: "links_only A h h"
  by (simp add: links_only_def)

lemma links_only_trans: "links_only A h1 h2 \<Longrightarrow> links_only B h2 h3 \<Longrightarrow> links_only (A \<union> B) h1 h3"
  by (simp add: links_only_def)

lemma links_only_mono: "links_only A h h' \<Longrightarrow> A \<subseteq> B \<Longrightarrow> links_only B h h'"
  unfolding links_only_def by blast

lemma links_only_live: "links_only A h h' \<Longrightarrow> live h' = live h"
  by (simp add: links_only_def)

lemma dll_frame:
  assumes "dll h head xs" and "links_only A h h'" and "A \<inter> set (head # xs) = {}"
  shows "dll h' head xs"
proof -
  have "linked h u v = linked h' u v" if "u \<in> set (head # xs)" "v \<in> set (head # xs)" for u v
    using assms(2,3) that by (auto simp: linked_def links_only_def)
  then have "successively (linked h) (head # xs @ [head]) = successively (linked h') (head # xs @ [head])"
    by (intro successively_agree) (auto dest: in_set_butlastD)
  then show ?thesis using assms(1,2) by (simp add: dll_def links_only_def)
qed

section \<open>Insertion and removal\<close>

lemma cycle_agree:
  assumes "distinct (head # xs @ ys)" and p: "p = last (head # xs)" and n: "n = hd (ys @ [head])"
    and PQ: "\<And>u v. u \<in> set (head # xs @ ys) \<Longrightarrow> v \<in> set (head # xs @ ys) \<Longrightarrow> u \<noteq> p \<Longrightarrow> v \<noteq> n \<Longrightarrow> P u v = Q u v"
  shows "successively P (head # xs) = successively Q (head # xs)"
    "successively P (ys @ [head]) = successively Q (ys @ [head])"
proof -
  have "P u v = Q u v" if "u \<in> set (butlast (head # xs))" "v \<in> set (tl (head # xs))" for u v
  proof (rule PQ)
    have "distinct (butlast (head # xs) @ [p])" using assms(1) p by (simp del: butlast.simps last.simps)
    then show "u \<noteq> p" using that(1) by auto
    show "v \<noteq> n" using that(2) assms(1) n by (cases ys) auto
  qed (use that in \<open>auto dest: in_set_butlastD split: if_splits\<close>)
  then show "successively P (head # xs) = successively Q (head # xs)" by (rule successively_agree)
  have "P u v = Q u v" if "u \<in> set (butlast (ys @ [head]))" "v \<in> set (tl (ys @ [head]))" for u v
  proof (rule PQ)
    show "u \<noteq> p" using that(1) assms(1) p last_in_cycle(1) [of head xs] by (auto simp del: last.simps)
    have "distinct (ys @ [head])" using assms(1) by auto
    then show "v \<noteq> n" using that(2) n by (cases ys) auto
  qed (use that in \<open>cases ys; auto\<close>)+
  then show "successively P (ys @ [head]) = successively Q (ys @ [head])" by (rule successively_agree)
qed

lemma dll_insert:
  assumes dll: "dll h head (xs @ ys)" and new: "new \<notin> set (head # xs @ ys)" "new \<in> live h"
  shows "\<exists>h'. list_add_links new (last (head # xs)) (hd (ys @ [head])) h = Some h' \<and>
    dll h' head (xs @ new # ys) \<and> links_only (set (head # new # xs @ ys)) h h'"
proof -
  let ?p = "last (head # xs)" and ?n = "hd (ys @ [head])"
  let ?h = "h\<lparr>nxt := (nxt h)(new := ?n, ?p := new), prv := (prv h)(?n := new, new := ?p)\<rparr>"
  have in_cycle: "?p \<in> set (head # xs)" "?n \<in> set (head # ys)" by (rule last_in_cycle)+
  then have ne: "?p \<noteq> new" "?n \<noteq> new" using new(1) by (auto simp del: last.simps)
  have "list_add_links new ?p ?n h = Some ?h"
    using dll_neighbours(3,4) [OF dll] new(2) by (simp add: list_add_links_def store_next_def store_prev_def)
  moreover have "links_only (set (head # new # xs @ ys)) h ?h"
    using in_cycle by (auto simp: links_only_def simp del: last.simps)
  moreover have "dll ?h head (xs @ new # ys)"
  proof -
    have dist: "distinct (head # xs @ ys)" using dll by (simp add: dll_def)
    have "linked h u v = linked ?h u v"
      if "u \<in> set (head # xs @ ys)" "v \<in> set (head # xs @ ys)" "u \<noteq> ?p" "v \<noteq> ?n" for u v
      using that new(1) by (auto simp: linked_def)
    from cycle_agree [OF dist refl refl this]
    have "successively (linked ?h) (head # xs)" "successively (linked ?h) (ys @ [head])"
      using dll by (auto simp: dll_def cycle_split)
    moreover have "linked ?h ?p new" "linked ?h new ?n" using ne by (simp_all add: linked_def)
    ultimately have "successively (linked ?h) (head # xs @ (new # ys) @ [head])"
      by (subst cycle_split) (simp add: successively_Cons)
    then show ?thesis using dll new by (auto simp: dll_def)
  qed
  ultimately show ?thesis by blast
qed

lemma dll_remove:
  assumes dll: "dll h head (xs @ e # ys)"
  shows "\<exists>h'. list_del e h = Some h' \<and> dll h' head (xs @ ys) \<and> links_only (set (head # e # xs @ ys)) h h'"
proof -
  let ?p = "last (head # xs)" and ?n = "hd (ys @ [head])"
  let ?h = "h\<lparr>nxt := (nxt h)(?p := ?n, e := LIST_POISON1), prv := (prv h)(?n := ?p, e := LIST_POISON2)\<rparr>"
  have in_cycle: "?p \<in> set (head # xs)" "?n \<in> set (head # ys)" by (rule last_in_cycle)+
  have nb: "prv h e = ?p" "?p \<in> live h" using dll_neighbours [OF dll] by auto
  have nb': "nxt h e = ?n" "?n \<in> live h" "e \<in> live h" using dll_neighbours [of h head "xs @ [e]" ys] dll by auto
  have dist: "distinct (head # xs @ ys)" and e: "e \<notin> set (head # xs @ ys)" using dll by (auto simp: dll_def)
  have "list_del e h = Some ?h"
    using nb nb' by (simp add: list_del_def list_del_links_def load_next_def load_prev_def store_next_def store_prev_def)
  moreover have "links_only (set (head # e # xs @ ys)) h ?h"
    using in_cycle by (auto simp: links_only_def simp del: last.simps)
  moreover have "dll ?h head (xs @ ys)"
  proof -
    have "linked h u v = linked ?h u v"
      if "u \<in> set (head # xs @ ys)" "v \<in> set (head # xs @ ys)" "u \<noteq> ?p" "v \<noteq> ?n" for u v
      using that e by (auto simp: linked_def)
    moreover have "successively (linked h) (head # xs)" "successively (linked h) (ys @ [head])"
      using dll cycle_split [of "linked h" head xs "e # ys"] by (auto simp: dll_def successively_Cons)
    ultimately have "successively (linked ?h) (head # xs)" "successively (linked ?h) (ys @ [head])"
      using cycle_agree [OF dist refl refl] by blast+
    moreover have "linked ?h ?p ?n" using in_cycle e by (auto simp: linked_def simp del: last.simps)
    ultimately have "successively (linked ?h) (head # xs @ ys @ [head])" by (simp only: cycle_split)
    then show ?thesis using dll by (auto simp: dll_def)
  qed
  ultimately show ?thesis by blast
qed

end
