(* ===== verification/Item_List.thy ===== *)
theory Item_List
  imports Linked_List
begin

text \<open>
  The item list of \<^verbatim>\<open>amavutils/itemlist.c\<close>: a counted list of heap-allocated items with an
  optional size limit, optional rejection of data already present and an optional mutex.
  \<open>None\<close> is undefined behaviour (memory that is not allocated, a double free, signed
  overflow of the count) or a thread blocked on a mutex it holds itself.
\<close>

section \<open>The list object\<close>

record itemlist =
  self :: addr
  multi_threads_access :: bool
  mutex_held :: bool
  item_count :: int
  max_items :: int
  item_ext_buf_size :: int
  reject_same_item_data :: bool

definition ITEM_LOCK :: "itemlist \<Rightarrow> itemlist option" where
  "ITEM_LOCK l =
     (if multi_threads_access l then if mutex_held l then None else Some (l\<lparr>mutex_held := True\<rparr>) else Some l)"

definition ITEM_UNLOCK :: "itemlist \<Rightarrow> itemlist option" where
  "ITEM_UNLOCK l =
     (if multi_threads_access l then if mutex_held l then Some (l\<lparr>mutex_held := False\<rparr>) else None else Some l)"

definition ITEM_LOCK_INIT :: "itemlist \<Rightarrow> itemlist" where
  "ITEM_LOCK_INIT l = (if multi_threads_access l then l\<lparr>mutex_held := False\<rparr> else l)"

definition ITEM_LOCK_DESTROY :: "itemlist \<Rightarrow> itemlist option" where
  "ITEM_LOCK_DESTROY l = (if multi_threads_access l \<and> mutex_held l then None else Some l)"

definition inc_count :: "itemlist \<Rightarrow> itemlist option" where
  "inc_count l = (if item_count l < 2147483647 then Some (l\<lparr>item_count := item_count l + 1\<rparr>) else None)"

definition dec_count :: "itemlist \<Rightarrow> itemlist option" where
  "dec_count l = (if -2147483648 < item_count l then Some (l\<lparr>item_count := item_count l - 1\<rparr>) else None)"

definition load_data :: "addr \<Rightarrow> heap \<Rightarrow> u64 option" where
  "load_data a h = (if a \<in> live h then Some (item_data h a) else None)"

section \<open>Creation, items\<close>

definition itemlist_init :: "itemlist \<Rightarrow> heap \<Rightarrow> (int \<times> itemlist \<times> heap) option" where
  "itemlist_init l h = do {
     h1 \<leftarrow> INIT_LIST_HEAD (self l) h;
     Some (0, ITEM_LOCK_INIT (l\<lparr>item_count := 0\<rparr>), h1) }"

definition itemlist_deinit :: "itemlist \<Rightarrow> (int \<times> itemlist) option" where
  "itemlist_deinit l = do {
     l1 \<leftarrow> ITEM_LOCK_DESTROY l;
     Some (0, l1) }"

text \<open>
  The allocator proposes an address; a block that is null or still allocated is never handed
  out. The new block keeps whatever the memory held.
\<close>

definition item_alloc :: "addr option \<Rightarrow> heap \<Rightarrow> addr option \<times> heap" where
  "item_alloc got h =
     (case got of
        Some a \<Rightarrow> if a = 0 \<or> a \<in> live h then (None, h) else (Some a, h\<lparr>live := insert a (live h)\<rparr>)
      | None \<Rightarrow> (None, h))"

definition item_free :: "addr \<Rightarrow> heap \<Rightarrow> heap option" where
  "item_free a h = (if a \<in> live h then Some (h\<lparr>live := live h - {a}\<rparr>) else None)"

section \<open>Operations on items\<close>

definition itemlist_add_tail :: "itemlist \<Rightarrow> addr \<Rightarrow> heap \<Rightarrow> (int \<times> itemlist \<times> heap) option" where
  "itemlist_add_tail l item h = do {
     l1 \<leftarrow> ITEM_LOCK l;
     if 0 < max_items l1 \<and> max_items l1 \<le> item_count l1
     then do { l2 \<leftarrow> ITEM_UNLOCK l1; Some (-1, l2, h) }
     else do {
       h1 \<leftarrow> list_add_tail item (self l1) h;
       l2 \<leftarrow> inc_count l1;
       l3 \<leftarrow> ITEM_UNLOCK l2;
       Some (0, l3, h1) } }"

definition itemlist_get_head :: "itemlist \<Rightarrow> heap \<Rightarrow> (addr option \<times> itemlist \<times> heap) option" where
  "itemlist_get_head l h = do {
     l1 \<leftarrow> ITEM_LOCK l;
     e \<leftarrow> list_empty (self l1) h;
     if \<not> e
     then do {
       list \<leftarrow> load_next (self l1) h;
       h1 \<leftarrow> list_del list h;
       l2 \<leftarrow> dec_count l1;
       l3 \<leftarrow> ITEM_UNLOCK l2;
       Some (Some list, l3, h1) }
     else do { l2 \<leftarrow> ITEM_UNLOCK l1; Some (None, l2, h) } }"

definition itemlist_get_tail :: "itemlist \<Rightarrow> heap \<Rightarrow> (addr option \<times> itemlist \<times> heap) option" where
  "itemlist_get_tail l h = do {
     l1 \<leftarrow> ITEM_LOCK l;
     e \<leftarrow> list_empty (self l1) h;
     if \<not> e
     then do {
       list \<leftarrow> load_prev (self l1) h;
       h1 \<leftarrow> list_del list h;
       l2 \<leftarrow> dec_count l1;
       l3 \<leftarrow> ITEM_UNLOCK l2;
       Some (Some list, l3, h1) }
     else do { l2 \<leftarrow> ITEM_UNLOCK l1; Some (None, l2, h) } }"

definition itemlist_peek_head :: "itemlist \<Rightarrow> heap \<Rightarrow> (addr option \<times> itemlist) option" where
  "itemlist_peek_head l h = do {
     l1 \<leftarrow> ITEM_LOCK l;
     e \<leftarrow> list_empty (self l1) h;
     item \<leftarrow> (if \<not> e then map_option Some (load_next (self l1) h) else Some None);
     l2 \<leftarrow> ITEM_UNLOCK l1;
     Some (item, l2) }"

definition itemlist_peek_tail :: "itemlist \<Rightarrow> heap \<Rightarrow> (addr option \<times> itemlist) option" where
  "itemlist_peek_tail l h = do {
     l1 \<leftarrow> ITEM_LOCK l;
     e \<leftarrow> list_empty (self l1) h;
     item \<leftarrow> (if \<not> e then map_option Some (load_prev (self l1) h) else Some None);
     l2 \<leftarrow> ITEM_UNLOCK l1;
     Some (item, l2) }"

definition itemlist_del_item_locked :: "itemlist \<Rightarrow> addr \<Rightarrow> heap \<Rightarrow> (int \<times> itemlist \<times> heap) option" where
  "itemlist_del_item_locked l item h = do {
     h1 \<leftarrow> list_del item h;
     l1 \<leftarrow> dec_count l;
     Some (0, l1, h1) }"

definition itemlist_del_item :: "itemlist \<Rightarrow> addr \<Rightarrow> heap \<Rightarrow> (int \<times> itemlist \<times> heap) option" where
  "itemlist_del_item l item h = do {
     l1 \<leftarrow> ITEM_LOCK l;
     (r, l2, h1) \<leftarrow> itemlist_del_item_locked l1 item h;
     l3 \<leftarrow> ITEM_UNLOCK l2;
     Some (0, l3, h1) }"

text \<open>
  The bodies of the three traversals with \<^verbatim>\<open>list_for_each_safe\<close>: \<open>pos\<close> is the cursor and \<open>n\<close>
  the successor read before the body runs.
\<close>

partial_function (option) clean_loop ::
  "(u64 \<Rightarrow> 'x \<Rightarrow> 'x) option \<Rightarrow> addr \<Rightarrow> addr \<Rightarrow> itemlist \<Rightarrow> heap \<Rightarrow> 'x \<Rightarrow> (itemlist \<times> heap \<times> 'x) option" where
  [code]: "clean_loop free_fun pos n l h x =
     (if pos = self l then Some (l, h, x)
      else do {
        d \<leftarrow> load_data pos h;
        h1 \<leftarrow> list_del pos h;
        h2 \<leftarrow> item_free pos h1;
        l1 \<leftarrow> dec_count l;
        n' \<leftarrow> load_next n h2;
        clean_loop free_fun n n' l1 h2
          (case free_fun of Some f \<Rightarrow> if d \<noteq> 0 then f d x else x | None \<Rightarrow> x) })"

definition itemlist_clean ::
  "(u64 \<Rightarrow> 'x \<Rightarrow> 'x) option \<Rightarrow> itemlist \<Rightarrow> heap \<Rightarrow> 'x \<Rightarrow> (int \<times> itemlist \<times> heap \<times> 'x) option" where
  "itemlist_clean free_fun l h x = do {
     l1 \<leftarrow> ITEM_LOCK l;
     pos \<leftarrow> load_next (self l1) h;
     n \<leftarrow> load_next pos h;
     (l2, h1, x1) \<leftarrow> clean_loop free_fun pos n l1 h x;
     l3 \<leftarrow> ITEM_UNLOCK l2;
     Some (0, l3, h1, x1) }"

partial_function (option) find_loop :: "addr \<Rightarrow> u64 \<Rightarrow> addr \<Rightarrow> addr \<Rightarrow> heap \<Rightarrow> addr option option" where
  [code]: "find_loop head data pos n h =
     (if pos = head then Some None
      else do {
        d \<leftarrow> load_data pos h;
        if d = data then Some (Some pos)
        else do { n' \<leftarrow> load_next n h; find_loop head data n n' h } })"

definition find_first :: "itemlist \<Rightarrow> u64 \<Rightarrow> heap \<Rightarrow> addr option option" where
  "find_first l data h = do {
     pos \<leftarrow> load_next (self l) h;
     n \<leftarrow> load_next pos h;
     find_loop (self l) data pos n h }"

definition itemlist_get_match_item :: "itemlist \<Rightarrow> u64 \<Rightarrow> heap \<Rightarrow> (addr option \<times> itemlist \<times> heap) option" where
  "itemlist_get_match_item l data h = do {
     l1 \<leftarrow> ITEM_LOCK l;
     finditem \<leftarrow> find_first l1 data h;
     (l2, h1) \<leftarrow> (case finditem of
        Some item \<Rightarrow> do { h1 \<leftarrow> list_del item h; l2 \<leftarrow> dec_count l1; Some (l2, h1) }
      | None \<Rightarrow> Some (l1, h));
     l3 \<leftarrow> ITEM_UNLOCK l2;
     Some (finditem, l3, h1) }"

definition itemlist_find_match_item :: "itemlist \<Rightarrow> u64 \<Rightarrow> heap \<Rightarrow> (addr option \<times> itemlist) option" where
  "itemlist_find_match_item l data h = do {
     l1 \<leftarrow> ITEM_LOCK l;
     finditem \<leftarrow> find_first l1 data h;
     l2 \<leftarrow> ITEM_UNLOCK l1;
     Some (finditem, l2) }"

text \<open>The search by a comparison function is commented out in the source and finds nothing.\<close>

definition itemlist_find_match_item_ex :: "itemlist \<Rightarrow> heap \<Rightarrow> (addr option \<times> itemlist) option" where
  "itemlist_find_match_item_ex l h = do {
     l1 \<leftarrow> ITEM_LOCK l;
     l2 \<leftarrow> ITEM_UNLOCK l1;
     Some (None, l2) }"

section \<open>Operations on data\<close>

definition itemlist_have_match_data :: "itemlist \<Rightarrow> u64 \<Rightarrow> heap \<Rightarrow> (bool \<times> itemlist) option" where
  "itemlist_have_match_data l data h = do {
     (item, l1) \<leftarrow> itemlist_find_match_item l data h;
     Some (item \<noteq> None, l1) }"

text \<open>The loop that copies the caller's array into the item; reading past the array is undefined.\<close>

definition fill_item :: "addr \<Rightarrow> u64 \<Rightarrow> nat \<Rightarrow> u64 list \<Rightarrow> heap \<Rightarrow> heap option" where
  "fill_item item data extnum ext h =
     (if item \<in> live h \<and> extnum \<le> length ext
      then Some (h\<lparr>item_data := (item_data h)(item := data), extdata := (extdata h)(item := take extnum ext)\<rparr>)
      else None)"

text \<open>
  The two critical sections of adding data: the search for equal data, and the insertion; the
  mutex is free between them.
\<close>

definition add_check :: "itemlist \<Rightarrow> u64 \<Rightarrow> heap \<Rightarrow> (bool \<times> itemlist) option" where
  "add_check l data h =
     (if reject_same_item_data l then itemlist_have_match_data l data h else Some (False, l))"

definition add_commit ::
  "addr option \<Rightarrow> itemlist \<Rightarrow> u64 \<Rightarrow> nat \<Rightarrow> u64 list \<Rightarrow> heap \<Rightarrow> (int \<times> itemlist \<times> heap) option" where
  "add_commit got l data extnum ext h =
     (case item_alloc got h of
        (None, h1) \<Rightarrow> Some (-12, l, h1)
      | (Some item, h1) \<Rightarrow> do {
          h2 \<leftarrow> fill_item item data extnum ext h1;
          (r, l2, h3) \<leftarrow> itemlist_add_tail l item h2;
          if r \<noteq> 0 then do { h4 \<leftarrow> item_free item h3; Some (-1, l2, h4) }
          else Some (0, l2, h3) })"

definition itemlist_add_tail_data_ext ::
  "addr option \<Rightarrow> itemlist \<Rightarrow> u64 \<Rightarrow> nat \<Rightarrow> u64 list \<Rightarrow> heap \<Rightarrow> (int \<times> itemlist \<times> heap) option" where
  "itemlist_add_tail_data_ext got l data extnum ext h = do {
     (same, l1) \<leftarrow> add_check l data h;
     if same then Some (0, l1, h) else add_commit got l1 data extnum ext h }"

definition itemlist_add_tail_data :: "addr option \<Rightarrow> itemlist \<Rightarrow> u64 \<Rightarrow> heap \<Rightarrow> (int \<times> itemlist \<times> heap) option" where
  "itemlist_add_tail_data got l data h = itemlist_add_tail_data_ext got l data 0 [] h"

text \<open>A result of 0 comes with the data written through the pointer argument.\<close>

definition itemlist_get_head_data :: "itemlist \<Rightarrow> heap \<Rightarrow> (int \<times> u64 option \<times> itemlist \<times> heap) option" where
  "itemlist_get_head_data l h = do {
     (item, l1, h1) \<leftarrow> itemlist_get_head l h;
     (case item of
        Some a \<Rightarrow> do { d \<leftarrow> load_data a h1; h2 \<leftarrow> item_free a h1; Some (0, Some d, l1, h2) }
      | None \<Rightarrow> Some (-1, None, l1, h1)) }"

definition itemlist_get_tail_data :: "itemlist \<Rightarrow> heap \<Rightarrow> (int \<times> u64 option \<times> itemlist \<times> heap) option" where
  "itemlist_get_tail_data l h = do {
     (item, l1, h1) \<leftarrow> itemlist_get_tail l h;
     (case item of
        Some a \<Rightarrow> do { d \<leftarrow> load_data a h1; Some (0, Some d, l1, h1) }
      | None \<Rightarrow> Some (-1, None, l1, h1)) }"

definition itemlist_peek_head_data :: "itemlist \<Rightarrow> heap \<Rightarrow> (int \<times> u64 option \<times> itemlist) option" where
  "itemlist_peek_head_data l h = do {
     (item, l1) \<leftarrow> itemlist_peek_head l h;
     (case item of
        Some a \<Rightarrow> do { d \<leftarrow> load_data a h; Some (0, Some d, l1) }
      | None \<Rightarrow> Some (-1, None, l1)) }"

definition itemlist_peek_tail_data :: "itemlist \<Rightarrow> heap \<Rightarrow> (int \<times> u64 option \<times> itemlist) option" where
  "itemlist_peek_tail_data l h = do {
     (item, l1) \<leftarrow> itemlist_peek_tail l h;
     (case item of
        Some a \<Rightarrow> do { d \<leftarrow> load_data a h; Some (0, Some d, l1) }
      | None \<Rightarrow> Some (-1, None, l1)) }"

definition itemlist_clean_data ::
  "(u64 \<Rightarrow> 'x \<Rightarrow> 'x) option \<Rightarrow> itemlist \<Rightarrow> heap \<Rightarrow> 'x \<Rightarrow> (int \<times> itemlist \<times> heap \<times> 'x) option" where
  "itemlist_clean_data free_fun l h x = itemlist_clean free_fun l h x"

definition itemlist_del_match_data_item :: "itemlist \<Rightarrow> u64 \<Rightarrow> heap \<Rightarrow> (int \<times> itemlist \<times> heap) option" where
  "itemlist_del_match_data_item l data h = do {
     (item, l1, h1) \<leftarrow> itemlist_get_match_item l data h;
     (case item of
        Some a \<Rightarrow> do { h2 \<leftarrow> item_free a h1; Some (0, l1, h2) }
      | None \<Rightarrow> Some (-1, l1, h1)) }"

definition itemlist_item_insert :: "itemlist \<Rightarrow> addr \<Rightarrow> addr \<Rightarrow> int \<Rightarrow> heap \<Rightarrow> (int \<times> itemlist \<times> heap) option" where
  "itemlist_item_insert l position newitem flags h = do {
     l1 \<leftarrow> ITEM_LOCK l;
     if flags \<noteq> 3 \<and> 0 < max_items l1 \<and> max_items l1 \<le> item_count l1
     then do { l2 \<leftarrow> ITEM_UNLOCK l1; Some (-1, l2, h) }
     else do {
       h1 \<leftarrow> (if flags = 1 then list_add_tail newitem position h else list_add newitem position h);
       (l2, h2) \<leftarrow> (if flags = 3 then do { h2 \<leftarrow> list_del position h1; Some (l1, h2) }
                     else do { l2 \<leftarrow> inc_count l1; Some (l2, h1) });
       l3 \<leftarrow> ITEM_UNLOCK l2;
       Some (0, l3, h2) } }"

partial_function (option) print_loop ::
  "(addr \<Rightarrow> heap \<Rightarrow> 'x \<Rightarrow> 'x) \<Rightarrow> addr \<Rightarrow> addr \<Rightarrow> addr \<Rightarrow> heap \<Rightarrow> 'x \<Rightarrow> 'x option" where
  [code]: "print_loop print head pos n h x =
     (if pos = head then Some x
      else do {
        n' \<leftarrow> load_next n h;
        print_loop print head n n' h (print pos h x) })"

definition itemlist_print ::
  "(addr \<Rightarrow> heap \<Rightarrow> 'x \<Rightarrow> 'x) \<Rightarrow> itemlist \<Rightarrow> heap \<Rightarrow> 'x \<Rightarrow> (int \<times> itemlist \<times> 'x) option" where
  "itemlist_print print l h x = do {
     l1 \<leftarrow> ITEM_LOCK l;
     pos \<leftarrow> load_next (self l1) h;
     n \<leftarrow> load_next pos h;
     x1 \<leftarrow> print_loop print (self l1) pos n h x;
     l2 \<leftarrow> ITEM_UNLOCK l1;
     Some (0, l2, x1) }"

section \<open>The representation invariant\<close>

text \<open>\<open>items l h xs\<close>: the list object \<open>l\<close> holds the items \<open>xs\<close> in this order and its mutex is free.\<close>

definition items :: "itemlist \<Rightarrow> heap \<Rightarrow> addr list \<Rightarrow> bool" where
  "items l h xs \<longleftrightarrow> dll h (self l) xs \<and> item_count l = int (length xs) \<and> length xs \<le> 2147483647 \<and> \<not> mutex_held l"

definition contents :: "heap \<Rightarrow> addr list \<Rightarrow> u64 list" where
  "contents h xs = map (item_data h) xs"

text \<open>No room: the limit of the list or the range of the count is reached.\<close>

definition full :: "itemlist \<Rightarrow> bool" where
  "full l \<longleftrightarrow> 0 < max_items l \<and> max_items l \<le> item_count l"

lemma lock_unlock:
  assumes "\<not> mutex_held l"
  obtains l1 where "ITEM_LOCK l = Some l1" "self l1 = self l" "item_count l1 = item_count l"
    "max_items l1 = max_items l" "ITEM_UNLOCK l1 = Some l"
    "\<And>c. ITEM_UNLOCK (l1\<lparr>item_count := c\<rparr>) = Some (l\<lparr>item_count := c\<rparr>)"
proof (cases "multi_threads_access l")
  case True
  then show ?thesis
    using assms that [of "l\<lparr>mutex_held := True\<rparr>"] by (cases l) (simp add: ITEM_LOCK_def ITEM_UNLOCK_def)
next
  case False
  then show ?thesis using that [of l] by (simp add: ITEM_LOCK_def ITEM_UNLOCK_def)
qed

end
