(* ===== verification/Item_List_Lemmas.thy ===== *)
theory Item_List_Lemmas
  imports Item_List
begin

text \<open>
  What every operation of the item list does to the sequence of items it represents, on each
  branch; in particular none of them touches freed memory or blocks on its own mutex.
\<close>

section \<open>Access to the ends\<close>

lemma items_ends:
  assumes "items l h xs"
  shows "self l \<in> live h" "nxt h (self l) = hd (xs @ [self l])" "prv h (self l) = last (self l # xs)"
    "hd (xs @ [self l]) \<in> live h" "list_empty (self l) h = Some (xs = [])"
proof -
  have dll: "dll h (self l) xs" using assms by (simp add: items_def)
  have ends: "self l \<in> live h" "nxt h (self l) = hd (xs @ [self l])" "hd (xs @ [self l]) \<in> live h"
    using dll_neighbours [of h "self l" "[]" xs] dll by simp_all
  have "prv h (self l) = last (self l # xs)" using dll_neighbours(2) [of h "self l" xs "[]"] dll by simp
  moreover have "list_empty (self l) h = Some (xs = [])"
    using ends(1,2) dll by (cases xs) (auto simp: list_empty_def load_next_def dll_def)
  ultimately show "self l \<in> live h" "nxt h (self l) = hd (xs @ [self l])" "prv h (self l) = last (self l # xs)"
    "hd (xs @ [self l]) \<in> live h" "list_empty (self l) h = Some (xs = [])"
    using ends by simp_all
qed

lemma items_distinct: "items l h xs \<Longrightarrow> distinct (self l # xs) \<and> set xs \<subseteq> live h"
  by (auto simp: items_def dll_def)

section \<open>Adding\<close>

lemma add_tail_links:
  assumes "dll h head xs" and "item \<in> live h" and "item \<notin> set (head # xs)"
  shows "\<exists>h'. list_add_tail item head h = Some h' \<and> dll h' head (xs @ [item]) \<and>
    links_only (set (head # item # xs)) h h'"
  using dll_insert [of h head xs "[]" item] dll_neighbours [of h head xs "[]"] assms
  by (simp add: list_add_tail_def load_prev_def)

lemma itemlist_add_tail_ok:
  assumes inv: "items l h xs" and item: "item \<in> live h" "item \<notin> set (self l # xs)"
    and room: "\<not> full l" "length xs < 2147483647"
  shows "\<exists>h'. itemlist_add_tail l item h = Some (0, l\<lparr>item_count := int (length xs) + 1\<rparr>, h') \<and>
    items (l\<lparr>item_count := int (length xs) + 1\<rparr>) h' (xs @ [item]) \<and> links_only (set (self l # item # xs)) h h'"
proof -
  from inv have free: "\<not> mutex_held l" and cnt: "item_count l = int (length xs)" by (simp_all add: items_def)
  from inv item obtain h' where h': "list_add_tail item (self l) h = Some h'" "dll h' (self l) (xs @ [item])"
    "links_only (set (self l # item # xs)) h h'"
    using add_tail_links [of h "self l" xs item] by (auto simp: items_def)
  from free show ?thesis
    by (rule lock_unlock) (use h' cnt room free in \<open>simp add: itemlist_add_tail_def inc_count_def full_def items_def\<close>)
qed

lemma itemlist_add_tail_full:
  assumes inv: "items l h xs" and "full l"
  shows "itemlist_add_tail l item h = Some (-1, l, h)"
proof -
  from inv have "\<not> mutex_held l" by (simp add: items_def)
  then show ?thesis
    by (rule lock_unlock) (use assms(2) in \<open>simp add: itemlist_add_tail_def full_def\<close>)
qed

section \<open>Taking from the ends\<close>

lemma itemlist_get_head_cons:
  assumes inv: "items l h (x # xs)"
  shows "\<exists>h'. itemlist_get_head l h = Some (Some x, l\<lparr>item_count := int (length xs)\<rparr>, h') \<and>
    items (l\<lparr>item_count := int (length xs)\<rparr>) h' xs \<and> links_only (set (self l # x # xs)) h h'"
proof -
  from inv have free: "\<not> mutex_held l" and cnt: "item_count l = int (length xs) + 1" and "length xs \<le> 2147483647"
    and dll: "dll h (self l) ([] @ x # xs)"
    by (auto simp: items_def)
  moreover from dll_remove [OF dll] obtain h' where "list_del x h = Some h'" "dll h' (self l) xs"
    "links_only (set (self l # x # xs)) h h'" by auto
  moreover note items_ends [OF inv]
  ultimately show ?thesis
    by - (rule lock_unlock [OF free], simp add: itemlist_get_head_def load_next_def dec_count_def items_def)
qed

lemma itemlist_get_head_nil:
  assumes inv: "items l h []"
  shows "itemlist_get_head l h = Some (None, l, h)"
proof -
  from inv have "\<not> mutex_held l" by (simp add: items_def)
  then show ?thesis
    by (rule lock_unlock) (use items_ends [OF inv] in \<open>simp add: itemlist_get_head_def\<close>)
qed

lemma itemlist_get_tail_snoc:
  assumes inv: "items l h (xs @ [x])"
  shows "\<exists>h'. itemlist_get_tail l h = Some (Some x, l\<lparr>item_count := int (length xs)\<rparr>, h') \<and>
    items (l\<lparr>item_count := int (length xs)\<rparr>) h' xs \<and> links_only (set (self l # x # xs)) h h'"
proof -
  from inv have free: "\<not> mutex_held l" and cnt: "item_count l = int (length xs) + 1" and "length xs \<le> 2147483647"
    and dll: "dll h (self l) (xs @ [x])"
    by (auto simp: items_def)
  moreover from dll_remove [OF dll] obtain h' where "list_del x h = Some h'" "dll h' (self l) xs"
    "links_only (set (self l # x # xs)) h h'" by auto
  moreover note items_ends [OF inv]
  ultimately show ?thesis
    by - (rule lock_unlock [OF free], simp add: itemlist_get_tail_def load_prev_def dec_count_def items_def)
qed

lemma itemlist_get_tail_nil:
  assumes inv: "items l h []"
  shows "itemlist_get_tail l h = Some (None, l, h)"
proof -
  from inv have "\<not> mutex_held l" by (simp add: items_def)
  then show ?thesis
    by (rule lock_unlock) (use items_ends [OF inv] in \<open>simp add: itemlist_get_tail_def\<close>)
qed

lemma itemlist_peeks:
  assumes inv: "items l h xs"
  shows "itemlist_peek_head l h = Some (if xs = [] then None else Some (hd xs), l)"
    and "itemlist_peek_tail l h = Some (if xs = [] then None else Some (last xs), l)"
proof -
  from inv have free: "\<not> mutex_held l" by (simp add: items_def)
  show "itemlist_peek_head l h = Some (if xs = [] then None else Some (hd xs), l)"
    by (rule lock_unlock [OF free])
      (use items_ends [OF inv] in \<open>cases xs; simp add: itemlist_peek_head_def load_next_def\<close>)
  show "itemlist_peek_tail l h = Some (if xs = [] then None else Some (last xs), l)"
    by (rule lock_unlock [OF free])
      (use items_ends [OF inv] in \<open>simp add: itemlist_peek_tail_def load_prev_def\<close>)
qed

section \<open>Searching\<close>

lemma find_loop_finds:
  assumes "dll h head (xs @ ys)"
  shows "find_loop head data (hd (ys @ [head])) (nxt h (hd (ys @ [head]))) h =
    Some (find (\<lambda>a. item_data h a = data) ys)"
  using assms
proof (induction ys arbitrary: xs)
  case Nil
  then show ?case by (simp add: find_loop.simps)
next
  case (Cons y ys)
  have y: "y \<noteq> head" "y \<in> live h" using Cons.prems by (auto simp: dll_def)
  have "dll h head ((xs @ [y]) @ ys)" using Cons.prems by simp
  from dll_neighbours [OF this] Cons.IH [OF this] y show ?case
    by (simp add: find_loop.simps [of head data y] load_data_def load_next_def)
qed

lemma find_first_finds:
  assumes "dll h (self l) xs"
  shows "find_first l data h = Some (find (\<lambda>a. item_data h a = data) xs)"
proof -
  have "dll h (self l) ([] @ xs)" using assms by simp
  from dll_neighbours [OF this] find_loop_finds [OF this] show ?thesis
    by (simp add: find_first_def load_next_def)
qed

lemma itemlist_find_match_item_finds:
  assumes inv: "items l h xs"
  shows "itemlist_find_match_item l data h = Some (find (\<lambda>a. item_data h a = data) xs, l)"
proof -
  from inv have free: "\<not> mutex_held l" and dll: "dll h (self l) xs" by (simp_all add: items_def)
  show ?thesis
    by (rule lock_unlock [OF free])
      (use find_first_finds [of h _ xs data] dll in \<open>simp add: itemlist_find_match_item_def\<close>)
qed

lemma find_is_None: "(find (\<lambda>a. f a = d) xs = None) = (d \<notin> f ` set xs)"
  by (induction xs) auto

lemma find_splits:
  "find (\<lambda>a. f a = d) xs = Some y \<Longrightarrow> \<exists>as bs. xs = as @ y # bs \<and> f y = d \<and> d \<notin> f ` set as"
proof (induction xs)
  case (Cons x xs)
  show ?case
  proof (cases "f x = d")
    case True
    with Cons.prems show ?thesis by (intro exI [of _ "[]"] exI [of _ xs]) auto
  next
    case False
    with Cons obtain as bs where "xs = as @ y # bs" "f y = d" "d \<notin> f ` set as" by auto
    with False show ?thesis by (intro exI [of _ "x # as"] exI [of _ bs]) auto
  qed
qed simp

lemma itemlist_have_match_data_iff:
  assumes "items l h xs"
  shows "itemlist_have_match_data l data h = Some (data \<in> set (contents h xs), l)"
  using itemlist_find_match_item_finds [OF assms, of data]
  by (simp add: itemlist_have_match_data_def contents_def find_is_None del: not_None_eq)

section \<open>Removing\<close>

text \<open>Freeing an item that is no longer in the list.\<close>

lemma dll_free:
  "dll h head xs \<Longrightarrow> a \<notin> set (head # xs) \<Longrightarrow> dll (h\<lparr>live := live h - {a}\<rparr>) head xs"
  by (auto simp: dll_def linked_def)

lemma items_free: "items l h xs \<Longrightarrow> a \<notin> set (self l # xs) \<Longrightarrow> items l (h\<lparr>live := live h - {a}\<rparr>) xs"
  by (auto simp: items_def intro: dll_free)

lemma itemlist_del_item_ok:
  assumes inv: "items l h (xs @ x # ys)"
  shows "\<exists>h'. itemlist_del_item l x h = Some (0, l\<lparr>item_count := int (length (xs @ ys))\<rparr>, h') \<and>
    items (l\<lparr>item_count := int (length (xs @ ys))\<rparr>) h' (xs @ ys) \<and> links_only (set (self l # x # xs @ ys)) h h'"
proof -
  from inv have free: "\<not> mutex_held l" and cnt: "item_count l = int (length (xs @ ys)) + 1"
    and small: "length (xs @ ys) \<le> 2147483647" and dll: "dll h (self l) (xs @ x # ys)"
    by (auto simp: items_def)
  from dll_remove [OF dll] obtain h' where "list_del x h = Some h'" "dll h' (self l) (xs @ ys)"
    "links_only (set (self l # x # xs @ ys)) h h'" by auto
  with free cnt small show ?thesis
    by - (rule lock_unlock [OF free],
        simp add: itemlist_del_item_def itemlist_del_item_locked_def dec_count_def items_def)
qed

lemma itemlist_get_match_item_some:
  assumes inv: "items l h (xs @ x # ys)" and match: "item_data h x = data" "data \<notin> item_data h ` set xs"
  shows "\<exists>h'. itemlist_get_match_item l data h = Some (Some x, l\<lparr>item_count := int (length (xs @ ys))\<rparr>, h') \<and>
    items (l\<lparr>item_count := int (length (xs @ ys))\<rparr>) h' (xs @ ys) \<and> links_only (set (self l # x # xs @ ys)) h h'"
proof -
  from inv have free: "\<not> mutex_held l" and cnt: "item_count l = int (length (xs @ ys)) + 1"
    and small: "length (xs @ ys) \<le> 2147483647" and dll: "dll h (self l) (xs @ x # ys)"
    by (auto simp: items_def)
  from dll_remove [OF dll] obtain h' where h': "list_del x h = Some h'" "dll h' (self l) (xs @ ys)"
    "links_only (set (self l # x # xs @ ys)) h h'" by auto
  have "find (\<lambda>a. item_data h a = data) (xs @ x # ys) = Some x"
    using match by (induction xs) auto
  with find_first_finds [of h _ "xs @ x # ys" data] dll
  have "find_first l1 data h = Some (Some x)" if "self l1 = self l" for l1 using that by simp
  with h' free cnt small show ?thesis
    by - (rule lock_unlock [OF free], simp add: itemlist_get_match_item_def dec_count_def items_def)
qed

lemma itemlist_get_match_item_none:
  assumes inv: "items l h xs" and "data \<notin> item_data h ` set xs"
  shows "itemlist_get_match_item l data h = Some (None, l, h)"
proof -
  from inv have free: "\<not> mutex_held l" and dll: "dll h (self l) xs" by (simp_all add: items_def)
  have "find (\<lambda>a. item_data h a = data) xs = None" using assms(2) by (simp add: find_is_None)
  with find_first_finds [of h _ xs data] dll
  have "find_first l1 data h = Some None" if "self l1 = self l" for l1 using that by simp
  then show ?thesis
    by - (rule lock_unlock [OF free], simp add: itemlist_get_match_item_def)
qed

section \<open>Effects on the data held\<close>

text \<open>
  The list holds the data \<open>ds\<close>: some items with these data represent it.
\<close>

definition holds :: "itemlist \<Rightarrow> heap \<Rightarrow> u64 list \<Rightarrow> bool" where
  "holds l h ds \<longleftrightarrow> (\<exists>xs. items l h xs \<and> contents h xs = ds)"

lemma links_only_contents [simp]: "links_only A h h' \<Longrightarrow> contents h' xs = contents h xs"
  by (simp add: contents_def links_only_def)

lemma contents_simps [simp]:
  "contents h [] = []" "contents h (x # xs) = item_data h x # contents h xs"
  "contents h (xs @ ys) = contents h xs @ contents h ys" "length (contents h xs) = length xs"
  by (simp_all add: contents_def)

lemma contents_live [simp]: "contents (h\<lparr>live := L\<rparr>) xs = contents h xs"
  by (simp add: contents_def)

lemma remove1_contents:
  "item_data h x = d \<Longrightarrow> d \<notin> item_data h ` set xs \<Longrightarrow> contents h (xs @ ys) = remove1 d (contents h (xs @ x # ys))"
  by (induction xs) auto

lemma itemlist_get_head_data_holds:
  assumes "holds l h ds"
  shows "\<exists>l' h'. itemlist_get_head_data l h =
      Some (if ds = [] then -1 else 0, if ds = [] then None else Some (hd ds), l', h') \<and> holds l' h' (tl ds) \<and>
    l' = l\<lparr>item_count := int (length (tl ds))\<rparr>"
proof -
  obtain xs where inv: "items l h xs" and ds: "contents h xs = ds" using assms by (auto simp: holds_def)
  show ?thesis
  proof (cases xs)
    case Nil
    with inv ds itemlist_get_head_nil [of l h] show ?thesis
      by (auto simp: itemlist_get_head_data_def holds_def items_def intro!: exI [of _ "[]"])
  next
    case (Cons x ys)
    then obtain h' where h': "itemlist_get_head l h = Some (Some x, l\<lparr>item_count := int (length ys)\<rparr>, h')"
      "items (l\<lparr>item_count := int (length ys)\<rparr>) h' ys" "links_only (set (self l # x # ys)) h h'"
      using itemlist_get_head_cons inv by blast
    have x: "x \<in> live h'" "x \<notin> set (self l # ys)" "item_data h' x = item_data h x"
      using items_distinct [OF inv] Cons h'(3) by (auto simp: links_only_def)
    then have "items (l\<lparr>item_count := int (length ys)\<rparr>) (h'\<lparr>live := live h' - {x}\<rparr>) ys"
      using items_free [OF h'(2)] by simp
    with Cons ds h' x show ?thesis
      by (auto simp: itemlist_get_head_data_def load_data_def item_free_def holds_def)
  qed
qed

lemma itemlist_get_tail_data_holds:
  assumes "holds l h ds"
  shows "\<exists>l' h'. itemlist_get_tail_data l h =
      Some (if ds = [] then -1 else 0, if ds = [] then None else Some (last ds), l', h') \<and> holds l' h' (butlast ds) \<and>
    live h' = live h"
proof -
  obtain xs where inv: "items l h xs" and ds: "contents h xs = ds" using assms by (auto simp: holds_def)
  show ?thesis
  proof (cases xs rule: rev_cases)
    case Nil
    with inv ds itemlist_get_tail_nil [of l h] show ?thesis
      by (auto simp: itemlist_get_tail_data_def holds_def intro!: exI [of _ "[]"])
  next
    case (snoc ys x)
    then obtain h' where h': "itemlist_get_tail l h = Some (Some x, l\<lparr>item_count := int (length ys)\<rparr>, h')"
      "items (l\<lparr>item_count := int (length ys)\<rparr>) h' ys" "links_only (set (self l # x # ys)) h h'"
      using itemlist_get_tail_snoc inv by blast
    have x: "x \<in> live h'" "item_data h' x = item_data h x"
      using items_distinct [OF inv] snoc h'(3) by (auto simp: links_only_def)
    with snoc ds h' links_only_live [OF h'(3)] show ?thesis
      by (auto simp: itemlist_get_tail_data_def load_data_def holds_def)
  qed
qed

lemma itemlist_del_match_holds:
  assumes "holds l h ds"
  shows "\<exists>l' h'. itemlist_del_match_data_item l d h = Some (if d \<in> set ds then 0 else -1, l', h') \<and>
    holds l' h' (remove1 d ds)"
proof -
  obtain xs where inv: "items l h xs" and ds: "contents h xs = ds" using assms by (auto simp: holds_def)
  show ?thesis
  proof (cases "d \<in> set ds")
    case False
    then show ?thesis
      using inv ds itemlist_get_match_item_none [OF inv, of d]
      by (auto simp: itemlist_del_match_data_item_def holds_def contents_def remove1_idem)
  next
    case True
    then have "find (\<lambda>a. item_data h a = d) xs \<noteq> None" using ds find_is_None [of "item_data h" d xs]
      by (auto simp: contents_def)
    then obtain y as bs where xs: "xs = as @ y # bs" "item_data h y = d" "d \<notin> item_data h ` set as"
      using find_splits [of "item_data h" d xs] by blast
    then obtain h' l' where h': "itemlist_get_match_item l d h = Some (Some y, l', h')" "items l' h' (as @ bs)"
      "links_only (set (self l # y # as @ bs)) h h'" "self l' = self l"
      using itemlist_get_match_item_some [of l h as y bs d] inv by auto
    have y: "y \<in> live h'" "y \<notin> set (self l' # as @ bs)"
      using items_distinct [OF inv] xs(1) links_only_live [OF h'(3)] h'(4) by auto
    then have "items l' (h'\<lparr>live := live h' - {y}\<rparr>) (as @ bs)" using items_free [OF h'(2)] by simp
    moreover have "contents (h'\<lparr>live := live h' - {y}\<rparr>) (as @ bs) = remove1 d ds"
      using remove1_contents [OF xs(2,3), of bs] ds xs(1) links_only_contents [OF h'(3)] by simp
    ultimately show ?thesis
      using h'(1) y(1) True by (auto simp: itemlist_del_match_data_item_def item_free_def holds_def)
  qed
qed

lemma fresh_items:
  assumes "items l h xs" and "a \<notin> live h"
  shows "items l (h\<lparr>live := insert a (live h), item_data := (item_data h)(a := d), extdata := e\<rparr>) xs"
    "contents (h\<lparr>live := insert a (live h), item_data := (item_data h)(a := d), extdata := e\<rparr>) xs = contents h xs"
    "a \<notin> set (self l # xs)"
  using assms by (auto simp: items_def dll_def linked_def contents_def)

lemma free_again: "a \<notin> L \<Longrightarrow> insert a L - {a} = L"
  by auto

text \<open>The specification of adding: the result code and the data held afterwards.\<close>

definition commit_spec :: "itemlist \<Rightarrow> bool \<Rightarrow> u64 \<Rightarrow> u64 list \<Rightarrow> int \<times> u64 list" where
  "commit_spec l memory d ds =
     (if \<not> memory then (-12, ds)
      else if 0 < max_items l \<and> max_items l \<le> int (length ds) then (-1, ds)
      else (0, ds @ [d]))"

definition add_spec :: "itemlist \<Rightarrow> bool \<Rightarrow> u64 \<Rightarrow> u64 list \<Rightarrow> int \<times> u64 list" where
  "add_spec l memory d ds =
     (if reject_same_item_data l \<and> d \<in> set ds then (0, ds) else commit_spec l memory d ds)"

lemma add_check_iff:
  "holds l h ds \<Longrightarrow> add_check l d h = Some (reject_same_item_data l \<and> d \<in> set ds, l)"
  using itemlist_have_match_data_iff [of l h _ d] by (auto simp: add_check_def holds_def)

lemma count_only: "\<exists>c. l = l\<lparr>item_count := c\<rparr>"
  by (intro exI [of _ "item_count l"]) simp

lemma add_commit_full:
  assumes "holds l h ds" and full: "full l" and call: "add_commit got l d 0 [] h = Some (r, l', h')"
  shows "l' = l \<and> holds l h' ds"
proof (cases "fst (item_alloc got h)")
  case None
  then have "item_alloc got h = (None, h)" by (auto simp: item_alloc_def split: option.splits if_splits)
  then show ?thesis using assms by (auto simp: add_commit_def)
next
  case (Some a)
  then have alloc: "item_alloc got h = (Some a, h\<lparr>live := insert a (live h)\<rparr>)" and fresh: "a \<notin> live h"
    by (auto simp: item_alloc_def split: option.splits if_splits)
  obtain xs where inv: "items l h xs" and ds: "contents h xs = ds" using assms by (auto simp: holds_def)
  let ?h2 = "h\<lparr>live := insert a (live h), item_data := (item_data h)(a := d), extdata := (extdata h)(a := [])\<rparr>"
  note h2 = fresh_items(1) [OF inv fresh, where d = d and e = "(extdata h)(a := [])"] fresh_items(3) [OF inv fresh]
  have "holds l (?h2\<lparr>live := live ?h2 - {a}\<rparr>) ds"
    using items_free [OF h2(1,2)] h2(2) ds unfolding holds_def by (intro exI [of _ xs]) (simp add: contents_def)
  then show ?thesis
    using call itemlist_add_tail_full [OF h2(1) full] by (auto simp: add_commit_def alloc fill_item_def item_free_def)
qed

text \<open>Inserting, with the items themselves in view.\<close>

lemma add_commit_items:
  fixes got d
  assumes inv: "items l h xs" and ext: "extnum \<le> length ext" and range: "length xs < 2147483647"
  defines "r \<equiv> fst (commit_spec l (fst (item_alloc got h) \<noteq> None) d (contents h xs))"
  shows "\<exists>l' h' xs'. add_commit got l d extnum ext h = Some (r, l', h') \<and> items l' h' xs' \<and>
    (if r = 0 then (\<exists>a. xs' = xs @ [a] \<and> item_data h' a = d \<and> extdata h' a = take extnum ext)
     else xs' = xs \<and> live h' = live h) \<and>
    (\<forall>x\<in>set xs. item_data h' x = item_data h x \<and> extdata h' x = extdata h x) \<and>
    (\<exists>c. l' = l\<lparr>item_count := c\<rparr>) \<and> live h' \<subseteq> live h \<union> set_option got"
proof (cases "fst (item_alloc got h)")
  case None
  then have "item_alloc got h = (None, h)" by (auto simp: item_alloc_def split: option.splits if_splits)
  then show ?thesis using inv count_only [of l] by (auto simp: add_commit_def commit_spec_def r_def)
next
  case (Some a)
  then have alloc: "item_alloc got h = (Some a, h\<lparr>live := insert a (live h)\<rparr>)" and fresh: "a \<notin> live h"
    and got: "a \<in> set_option got"
    by (auto simp: item_alloc_def split: option.splits if_splits)
  have cnt: "item_count l = int (length xs)" using inv by (auto simp: items_def)
  let ?h2 = "h\<lparr>live := insert a (live h), item_data := (item_data h)(a := d), extdata := (extdata h)(a := take extnum ext)\<rparr>"
  note h2 = fresh_items(1,2) [OF inv fresh, where d = d and e = "(extdata h)(a := take extnum ext)"]
    fresh_items(3) [OF inv fresh]
  have fill: "fill_item a d extnum ext (h\<lparr>live := insert a (live h)\<rparr>) = Some ?h2"
    using ext by (simp add: fill_item_def)
  show ?thesis
  proof (cases "full l")
    case True
    then have "r = -1" using cnt alloc by (simp add: r_def commit_spec_def full_def)
    moreover have "add_commit got l d extnum ext h = Some (-1, l, ?h2\<lparr>live := live ?h2 - {a}\<rparr>)"
      using itemlist_add_tail_full [OF h2(1) True] by (simp add: add_commit_def alloc fill item_free_def)
    moreover have "\<forall>x\<in>set xs. x \<noteq> a" using h2(3) by auto
    ultimately show ?thesis
      using items_free [OF h2(1,3)] count_only [of l] free_again [OF fresh]
      by (intro exI [of _ l] exI [of _ "?h2\<lparr>live := live ?h2 - {a}\<rparr>"] exI [of _ xs]) auto
  next
    case False
    then have r0: "r = 0" using cnt alloc by (simp add: r_def commit_spec_def full_def)
    obtain h3 where h3: "itemlist_add_tail l a ?h2 = Some (0, l\<lparr>item_count := int (length xs) + 1\<rparr>, h3)"
      "items (l\<lparr>item_count := int (length xs) + 1\<rparr>) h3 (xs @ [a])" "links_only (set (self l # a # xs)) ?h2 h3"
      using itemlist_add_tail_ok [OF h2(1) _ h2(3) False] range by fastforce
    have "add_commit got l d extnum ext h = Some (0, l\<lparr>item_count := int (length xs) + 1\<rparr>, h3)"
      using h3(1) by (simp add: add_commit_def alloc fill)
    moreover have "live h3 \<subseteq> live h \<union> set_option got" using links_only_live [OF h3(3)] got by simp
    ultimately show ?thesis
      using r0 h3(2,3) h2(3)
      by (intro exI [of _ "l\<lparr>item_count := int (length xs) + 1\<rparr>"] exI [of _ h3] exI [of _ "xs @ [a]"])
        (auto simp: links_only_def)
  qed
qed

lemma add_commit_holds:
  assumes "holds l h ds" and ext: "extnum \<le> length ext" and range: "length ds < 2147483647"
  shows "\<exists>l' h'. add_commit got l d extnum ext h =
      Some (fst (commit_spec l (fst (item_alloc got h) \<noteq> None) d ds), l', h') \<and>
    holds l' h' (snd (commit_spec l (fst (item_alloc got h) \<noteq> None) d ds)) \<and>
    (\<exists>c. l' = l\<lparr>item_count := c\<rparr>) \<and>
    (snd (commit_spec l (fst (item_alloc got h) \<noteq> None) d ds) = ds \<longrightarrow> live h' = live h) \<and>
    live h' \<subseteq> live h \<union> set_option got"
proof -
  obtain xs where inv: "items l h xs" and ds: "contents h xs = ds" using assms by (auto simp: holds_def)
  let ?s = "commit_spec l (fst (item_alloc got h) \<noteq> None) d ds"
  have "length xs < 2147483647" using range ds by auto
  from add_commit_items [OF inv ext this, of got d] ds obtain l' h' xs' where
    call: "add_commit got l d extnum ext h = Some (fst ?s, l', h')" "items l' h' xs'"
      "if fst ?s = 0 then (\<exists>a. xs' = xs @ [a] \<and> item_data h' a = d \<and> extdata h' a = take extnum ext)
       else xs' = xs \<and> live h' = live h"
      "\<forall>x\<in>set xs. item_data h' x = item_data h x"
    and rest: "\<exists>c. l' = l\<lparr>item_count := c\<rparr>" "live h' \<subseteq> live h \<union> set_option got"
    by auto
  have "contents h' xs = ds" using call(4) ds by (auto simp: contents_def)
  then have "holds l' h' (snd ?s)" "snd ?s = ds \<longrightarrow> live h' = live h"
    using call(2,3) by (auto simp: holds_def commit_spec_def split: if_splits)
  with call(1) rest show ?thesis by blast
qed

lemma itemlist_add_holds:
  assumes "holds l h ds" and "extnum \<le> length ext" and "length ds < 2147483647"
  shows "\<exists>l' h'. itemlist_add_tail_data_ext got l d extnum ext h =
      Some (fst (add_spec l (fst (item_alloc got h) \<noteq> None) d ds), l', h') \<and>
    holds l' h' (snd (add_spec l (fst (item_alloc got h) \<noteq> None) d ds)) \<and>
    (\<exists>c. l' = l\<lparr>item_count := c\<rparr>) \<and>
    (snd (add_spec l (fst (item_alloc got h) \<noteq> None) d ds) = ds \<longrightarrow> live h' = live h)"
  using add_commit_holds [OF assms, of got d] add_check_iff [OF assms(1), of d] assms(1) count_only [of l]
  by (auto simp: itemlist_add_tail_data_ext_def add_spec_def)

section \<open>Cleaning, inserting, visiting\<close>

definition free_call :: "(u64 \<Rightarrow> 'x \<Rightarrow> 'x) option \<Rightarrow> u64 \<Rightarrow> 'x \<Rightarrow> 'x" where
  "free_call free_fun d x = (case free_fun of Some f \<Rightarrow> if d \<noteq> 0 then f d x else x | None \<Rightarrow> x)"

lemma clean_loop_cleans:
  assumes "dll h (self l) xs" and "item_count l = int (length xs)"
  shows "\<exists>h'. clean_loop free_fun (hd (xs @ [self l])) (nxt h (hd (xs @ [self l]))) l h x =
      Some (l\<lparr>item_count := 0\<rparr>, h', fold (free_call free_fun) (contents h xs) x) \<and>
    dll h' (self l) [] \<and> live h' = live h - set xs"
  using assms
proof (induction xs arbitrary: l h x)
  case Nil
  then show ?case by (auto simp: clean_loop.simps)
next
  case (Cons y ys)
  let ?l = "l\<lparr>item_count := int (length ys)\<rparr>"
  from dll_remove [of h "self l" "[]" y ys] Cons.prems(1) obtain h1 where
    h1: "list_del y h = Some h1" "dll h1 (self l) ys" "links_only (set (self l # y # ys)) h h1" by auto
  let ?h2 = "h1\<lparr>live := live h1 - {y}\<rparr>"
  have y: "y \<in> live h" "y \<noteq> self l" "y \<notin> set ys" using Cons.prems(1) by (auto simp: dll_def)
  have n: "nxt h y = hd (ys @ [self l])" using dll_neighbours [of h "self l" "[y]" ys] Cons.prems(1) by simp
  have dll2: "dll ?h2 (self ?l) ys" using dll_free [OF h1(2), of y] y by simp
  have "hd (ys @ [self l]) \<in> live ?h2" using dll_neighbours(4) [of ?h2 "self l" "[]" ys] dll2 by simp
  moreover have "contents ?h2 ys = contents h ys" using links_only_contents [OF h1(3)] by simp
  moreover obtain h' where "clean_loop free_fun (hd (ys @ [self l])) (nxt ?h2 (hd (ys @ [self l]))) ?l ?h2
        (free_call free_fun (item_data h y) x) =
      Some (?l\<lparr>item_count := 0\<rparr>, h', fold (free_call free_fun) (contents ?h2 ys) (free_call free_fun (item_data h y) x))"
    "dll h' (self l) []" "live h' = live ?h2 - set ys"
    using Cons.IH [OF dll2, of "free_call free_fun (item_data h y) x"] by auto
  ultimately show ?case
    using y n h1 Cons.prems(2) links_only_live [OF h1(3)]
    by (auto simp: clean_loop.simps [of free_fun y] load_data_def item_free_def dec_count_def load_next_def
        free_call_def [symmetric] intro!: exI [of _ h'])
qed

lemma itemlist_clean_cleans:
  assumes inv: "items l h xs"
  shows "\<exists>h'. itemlist_clean free_fun l h x =
      Some (0, l\<lparr>item_count := 0\<rparr>, h', fold (free_call free_fun) (contents h xs) x) \<and>
    items (l\<lparr>item_count := 0\<rparr>) h' [] \<and> live h' = live h - set xs"
proof -
  from inv have free: "\<not> mutex_held l" by (simp add: items_def)
  obtain l1 where l1: "ITEM_LOCK l = Some l1" "self l1 = self l" "item_count l1 = item_count l"
    "ITEM_UNLOCK (l1\<lparr>item_count := 0\<rparr>) = Some (l\<lparr>item_count := 0\<rparr>)"
    using free by (rule lock_unlock) blast
  obtain h' where "clean_loop free_fun (hd (xs @ [self l])) (nxt h (hd (xs @ [self l]))) l1 h x =
      Some (l1\<lparr>item_count := 0\<rparr>, h', fold (free_call free_fun) (contents h xs) x)"
    "dll h' (self l) []" "live h' = live h - set xs"
    using clean_loop_cleans [of h l1 xs free_fun x] inv l1 by (auto simp: items_def)
  then show ?thesis
    using l1 items_ends [OF inv] free by (simp add: itemlist_clean_def load_next_def items_def)
qed

lemma print_loop_visits:
  assumes "dll h head (xs @ ys)"
  shows "print_loop print head (hd (ys @ [head])) (nxt h (hd (ys @ [head]))) h x = Some (fold (\<lambda>a. print a h) ys x)"
  using assms
proof (induction ys arbitrary: xs x)
  case Nil
  then show ?case by (simp add: print_loop.simps)
next
  case (Cons y ys)
  have y: "y \<noteq> head" using Cons.prems by (auto simp: dll_def)
  have "dll h head ((xs @ [y]) @ ys)" using Cons.prems by simp
  from dll_neighbours [OF this] Cons.IH [OF this] y show ?case
    by (simp add: print_loop.simps [of print head y] load_next_def)
qed

lemma itemlist_print_visits:
  assumes inv: "items l h xs"
  shows "itemlist_print print l h x = Some (0, l, fold (\<lambda>a. print a h) xs x)"
proof -
  from inv have free: "\<not> mutex_held l" and dll: "dll h (self l) ([] @ xs)" by (simp_all add: items_def)
  show ?thesis
    by (rule lock_unlock [OF free])
      (use print_loop_visits [OF dll, of print x] items_ends [OF inv] in \<open>simp add: itemlist_print_def load_next_def\<close>)
qed

text \<open>Where an inserted item ends up, by the value of the flag.\<close>

definition inserted :: "int \<Rightarrow> addr list \<Rightarrow> addr \<Rightarrow> addr \<Rightarrow> addr list \<Rightarrow> addr list" where
  "inserted flags xs p new ys =
     (if flags = 1 then xs @ new # p # ys else if flags = 3 then xs @ new # ys else xs @ p # new # ys)"

lemma insert_links:
  assumes dll: "dll h head (xs @ p # ys)" and new: "new \<in> live h" "new \<notin> set (head # xs @ p # ys)"
  shows "\<exists>h'. list_add_tail new p h = Some h' \<and> dll h' head (xs @ new # p # ys)"
    and "\<exists>h'. list_add new p h = Some h' \<and> dll h' head (xs @ p # new # ys)"
proof -
  have p: "p \<in> live h" using dll by (simp add: dll_def)
  show "\<exists>h'. list_add_tail new p h = Some h' \<and> dll h' head (xs @ new # p # ys)"
    using dll_insert [OF dll new(2,1)] dll_neighbours [OF dll] p by (auto simp: list_add_tail_def load_prev_def)
  have dll': "dll h head ((xs @ [p]) @ ys)" using dll by simp
  have "new \<notin> set (head # (xs @ [p]) @ ys)" using new(2) by simp
  from dll_insert [OF dll' this new(1)] dll_neighbours [OF dll'] p
  show "\<exists>h'. list_add new p h = Some h' \<and> dll h' head (xs @ p # new # ys)"
    by (auto simp: list_add_def load_next_def)
qed

lemma itemlist_item_insert_ok:
  assumes inv: "items l h (xs @ p # ys)" and new: "new \<in> live h" "new \<notin> set (self l # xs @ p # ys)"
    and room: "flags = 3 \<or> \<not> full l \<and> length (xs @ p # ys) < 2147483647"
  shows "\<exists>h'. itemlist_item_insert l p new flags h =
      Some (0, l\<lparr>item_count := int (length (inserted flags xs p new ys))\<rparr>, h') \<and>
    items (l\<lparr>item_count := int (length (inserted flags xs p new ys))\<rparr>) h' (inserted flags xs p new ys)"
proof -
  from inv have free: "\<not> mutex_held l" and cnt: "item_count l = int (length xs + length ys + 1)"
    and dll: "dll h (self l) (xs @ p # ys)" and small: "length xs + length ys < 2147483647"
    by (auto simp: items_def)
  obtain h1 where h1: "list_add_tail new p h = Some h1" "dll h1 (self l) (xs @ new # p # ys)"
    using insert_links(1) [OF dll new] by blast
  obtain h2 where h2: "list_add new p h = Some h2" "dll h2 (self l) (xs @ p # new # ys)"
    using insert_links(2) [OF dll new] by blast
  obtain h3 where h3: "list_del p h2 = Some h3" "dll h3 (self l) (xs @ new # ys)"
    using dll_remove [OF h2(2)] by blast
  show ?thesis
    by (rule lock_unlock [OF free])
      (use room cnt free small h1 h2 h3 in
        \<open>auto simp: itemlist_item_insert_def inserted_def inc_count_def items_def full_def\<close>)
qed

end
