(* ===== verification/Item_List_Properties.thy ===== *)
theory Item_List_Properties
  imports Item_List_Lemmas
begin

text \<open>
  What the item list promises: first-in first-out order through an interface that any queue
  can provide, the effect of each operation on the data held, and what threads sharing a list
  can and cannot rely on.
\<close>

section \<open>The queue interface\<close>

datatype ('m, 'a) queue_op = Put 'm 'a | Get

fun queue_run :: "('m \<Rightarrow> 'a \<Rightarrow> 's \<Rightarrow> (bool \<times> 's) option) \<Rightarrow> ('s \<Rightarrow> ('a option \<times> 's) option) \<Rightarrow>
    ('m, 'a) queue_op list \<Rightarrow> 's \<Rightarrow> ('a list \<times> 'a list \<times> 's) option" where
  "queue_run put get [] s = Some ([], [], s)"
| "queue_run put get (Put m d # ops) s = do {
     (ok, s1) \<leftarrow> put m d s;
     (accepted, got, s2) \<leftarrow> queue_run put get ops s1;
     Some (if ok then d # accepted else accepted, got, s2) }"
| "queue_run put get (Get # ops) s = do {
     (r, s1) \<leftarrow> get s;
     (accepted, got, s2) \<leftarrow> queue_run put get ops s1;
     Some (accepted, (case r of Some d \<Rightarrow> d # got | None \<Rightarrow> got), s2) }"

locale fifo_queue =
  fixes holding :: "'s \<Rightarrow> 'a list \<Rightarrow> bool"
    and capacity :: nat
    and put :: "'m \<Rightarrow> 'a \<Rightarrow> 's \<Rightarrow> (bool \<times> 's) option"
    and get :: "'s \<Rightarrow> ('a option \<times> 's) option"
  assumes put_appends: "holding s ds \<Longrightarrow> length ds < capacity \<Longrightarrow>
      \<exists>ok s'. put m d s = Some (ok, s') \<and> holding s' (if ok then ds @ [d] else ds)"
    and get_pops: "holding s ds \<Longrightarrow>
      \<exists>s'. get s = Some (if ds = [] then None else Some (hd ds), s') \<and> holding s' (tl ds)"
begin

lemma run_is_fifo:
  "holding s ds \<Longrightarrow> length ds + length ops \<le> capacity \<Longrightarrow>
   \<exists>accepted got s' ds'. queue_run put get ops s = Some (accepted, got, s') \<and> holding s' ds' \<and>
     ds @ accepted = got @ ds'"
proof (induction ops arbitrary: s ds)
  case Nil
  then show ?case by auto
next
  case (Cons op ops)
  show ?case
  proof (cases op)
    case (Put m d)
    obtain ok s1 where one: "put m d s = Some (ok, s1)" "holding s1 (if ok then ds @ [d] else ds)"
      using put_appends [OF Cons.prems(1)] Cons.prems(2) by fastforce
    have "length (if ok then ds @ [d] else ds) + length ops \<le> capacity" using Cons.prems(2) by simp
    from Cons.IH [OF one(2) this] obtain accepted got s' ds' where
      "queue_run put get ops s1 = Some (accepted, got, s')" "holding s' ds'"
      "(if ok then ds @ [d] else ds) @ accepted = got @ ds'" by blast
    with one(1) Put show ?thesis by (cases ok) auto
  next
    case Get
    obtain s1 where one: "get s = Some (if ds = [] then None else Some (hd ds), s1)" "holding s1 (tl ds)"
      using get_pops [OF Cons.prems(1)] by blast
    have "length (tl ds) + length ops \<le> capacity" using Cons.prems(2) by simp
    from Cons.IH [OF one(2) this] obtain accepted got s' ds' where
      "queue_run put get ops s1 = Some (accepted, got, s')" "holding s' ds'" "tl ds @ accepted = got @ ds'" by blast
    with one(1) Get show ?thesis by (cases ds) auto
  qed
qed

end

text \<open>The item list without rejection of equal data is such a queue.\<close>

definition list_put :: "addr option \<Rightarrow> u64 \<Rightarrow> itemlist \<times> heap \<Rightarrow> (bool \<times> itemlist \<times> heap) option" where
  "list_put got d s = do {
     (r, l, h) \<leftarrow> itemlist_add_tail_data got (fst s) d (snd s);
     Some (r = 0, l, h) }"

definition list_get :: "itemlist \<times> heap \<Rightarrow> (u64 option \<times> itemlist \<times> heap) option" where
  "list_get s = do {
     (r, d, l, h) \<leftarrow> itemlist_get_head_data (fst s) (snd s);
     Some (d, l, h) }"

definition list_holding :: "itemlist \<times> heap \<Rightarrow> u64 list \<Rightarrow> bool" where
  "list_holding s ds \<longleftrightarrow> holds (fst s) (snd s) ds \<and> \<not> reject_same_item_data (fst s)"

interpretation item_fifo: fifo_queue list_holding 2147483647 list_put list_get
proof
  fix s ds m d
  assume "list_holding s ds" and "length ds < 2147483647"
  then have hold: "holds (fst s) (snd s) ds" "\<not> reject_same_item_data (fst s)" and range: "length ds < 2147483647"
    by (simp_all add: list_holding_def)
  from itemlist_add_holds [OF hold(1) _ range, of 0 "[]" m d] obtain l h c where
    add: "itemlist_add_tail_data m (fst s) d (snd s) =
        Some (fst (add_spec (fst s) (fst (item_alloc m (snd s)) \<noteq> None) d ds), l, h)"
      "holds l h (snd (add_spec (fst s) (fst (item_alloc m (snd s)) \<noteq> None) d ds))" "l = (fst s)\<lparr>item_count := c\<rparr>"
    by (auto simp: itemlist_add_tail_data_def)
  have "snd (add_spec (fst s) b d ds) = (if fst (add_spec (fst s) b d ds) = 0 then ds @ [d] else ds)" for b
    using hold(2) by (simp add: add_spec_def commit_spec_def)
  with add hold(2) show "\<exists>ok s'. list_put m d s = Some (ok, s') \<and> list_holding s' (if ok then ds @ [d] else ds)"
    by (auto simp: list_put_def list_holding_def)
next
  fix s ds
  assume "list_holding s ds"
  then show "\<exists>s'. list_get s = Some (if ds = [] then None else Some (hd ds), s') \<and> list_holding s' (tl ds)"
    using itemlist_get_head_data_holds [of "fst s" "snd s" ds] by (auto simp: list_holding_def list_get_def)
qed

section \<open>A concrete list\<close>

definition ex_heap :: heap where
  "ex_heap = \<lparr>nxt = (\<lambda>_. 0), prv = (\<lambda>_. 0), item_data = (\<lambda>_. 0), extdata = (\<lambda>_. []), live = {100}\<rparr>"

definition ex_list0 :: itemlist where
  "ex_list0 = \<lparr>self = 100, multi_threads_access = True, mutex_held = False, item_count = 0, max_items = 3,
     item_ext_buf_size = 0, reject_same_item_data = False\<rparr>"

definition ex_list :: "bool \<Rightarrow> itemlist" where
  "ex_list reject = ex_list0\<lparr>reject_same_item_data := reject\<rparr>"

definition ex_heap1 :: heap where
  "ex_heap1 = ex_heap\<lparr>nxt := (nxt ex_heap)(100 := 100), prv := (prv ex_heap)(100 := 100)\<rparr>"

lemma ex_items: "items (ex_list b) ex_heap1 []"
  by (simp add: items_def dll_def linked_def ex_list_def ex_list0_def ex_heap1_def ex_heap_def)

lemma ex_holds: "holds (ex_list b) ex_heap1 []"
  using ex_items by (auto simp: holds_def intro!: exI [of _ "[]"])

section \<open>Sequential use\<close>

text \<open>
  C8. An item list used through itemlist_add_tail_data and itemlist_get_head_data is a
  first-in first-out queue: every sequence of calls returns, without touching freed memory or
  blocking on its mutex, and the data taken out, followed by the data still held, are the
  data held at the start followed by the data accepted, in order.
\<close>

theorem item_list_is_fifo:
  assumes "holds l h ds" and "\<not> reject_same_item_data l" and "length ds + length ops \<le> 2147483647"
  shows "\<exists>accepted got l' h' ds'. queue_run list_put list_get ops (l, h) = Some (accepted, got, l', h') \<and>
    holds l' h' ds' \<and> ds @ accepted = got @ ds'"
proof -
  have "list_holding (l, h) ds" using assms(1,2) by (simp add: list_holding_def)
  from item_fifo.run_is_fifo [OF this assms(3)] obtain accepted got s' ds' where
    "queue_run list_put list_get ops (l, h) = Some (accepted, got, s')" "list_holding s' ds'" "ds @ accepted = got @ ds'"
    by blast
  then show ?thesis by (cases s') (auto simp: list_holding_def)
qed

theorem item_list_is_fifo_witness:
  "\<exists>accepted got l' h' ds'. queue_run list_put list_get [Put (Some 8) 5, Put None 6, Put (Some 9) 7, Get, Get, Get]
      (ex_list False, ex_heap1) = Some (accepted, got, l', h') \<and> holds l' h' ds' \<and> accepted = got @ ds'"
  using item_list_is_fifo [OF ex_holds, of False "[Put (Some 8) 5, Put None 6, Put (Some 9) 7, Get, Get, Get]"]
  by (simp add: ex_list_def del: queue_run.simps)

text \<open>
  Adding data has exactly the documented outcomes: 0 without a change when equal data are
  rejected and present, -12 without a change when no memory is available, -1 without a change
  and with the new item freed when the limit is reached, and otherwise 0 with the data
  appended.
\<close>

theorem add_data_outcome:
  assumes "holds l h ds" and "extnum \<le> length ext" and "length ds < 2147483647"
  shows "\<exists>l' h' ds'. itemlist_add_tail_data_ext got l d extnum ext h =
      Some (if reject_same_item_data l \<and> d \<in> set ds then 0
            else if fst (item_alloc got h) = None then -12
            else if 0 < max_items l \<and> max_items l \<le> int (length ds) then -1 else 0, l', h') \<and>
    holds l' h' ds' \<and> (ds' = ds \<and> live h' = live h \<or> ds' = ds @ [d]) \<and>
    (ds' = ds @ [d] \<longleftrightarrow> \<not> (reject_same_item_data l \<and> d \<in> set ds) \<and> fst (item_alloc got h) \<noteq> None \<and>
       \<not> (0 < max_items l \<and> max_items l \<le> int (length ds)))"
  using itemlist_add_holds [OF assms, of got d]
  by (auto simp: add_spec_def commit_spec_def split: if_splits)

theorem add_data_outcome_witness:
  "\<exists>l' h'. itemlist_add_tail_data_ext (Some 8) (ex_list True) 5 0 [] ex_heap1 = Some (0, l', h') \<and> holds l' h' [5]"
proof -
  have "fst (item_alloc (Some 8) ex_heap1) = Some 8" by (simp add: item_alloc_def ex_heap1_def ex_heap_def)
  then show ?thesis
    using add_data_outcome [OF ex_holds, of 0 "[]" "Some 8" True 5] by (auto simp: ex_list_def ex_list0_def)
qed

text \<open>
  Deleting by data removes the first item with these data and reports 0, and reports -1
  without a change when there is none.
\<close>

theorem delete_data_outcome:
  assumes "holds l h ds"
  shows "\<exists>l' h'. itemlist_del_match_data_item l d h = Some (if d \<in> set ds then 0 else -1, l', h') \<and>
    holds l' h' (remove1 d ds)"
  using assms by (rule itemlist_del_match_holds)

theorem delete_data_outcome_witness:
  "\<exists>l' h'. itemlist_del_match_data_item (ex_list True) 5 ex_heap1 = Some (-1, l', h') \<and> holds l' h' []"
  using delete_data_outcome [OF ex_holds, of True 5] by simp

text \<open>
  C22. Cleaning a list terminates, calls the release function once for every item with
  non-zero data, in list order, frees exactly the items of the list and leaves it empty.
\<close>

theorem clean_releases_everything:
  assumes "items l h xs"
  shows "\<exists>h'. itemlist_clean (Some f) l h x =
      Some (0, l\<lparr>item_count := 0\<rparr>, h', fold f (filter (\<lambda>d. d \<noteq> 0) (contents h xs)) x) \<and>
    items (l\<lparr>item_count := 0\<rparr>) h' [] \<and> live h' = live h - set xs"
proof -
  have "fold (free_call (Some f)) ds x = fold f (filter (\<lambda>d. d \<noteq> 0) ds) x" for ds
    by (induction ds arbitrary: x) (simp_all add: free_call_def)
  then show ?thesis using itemlist_clean_cleans [OF assms, of "Some f" x] by simp
qed

theorem clean_releases_everything_witness:
  "\<exists>h'. itemlist_clean (Some (#)) (ex_list False) ex_heap1 [] = Some (0, ex_list False, h', []) \<and>
     items (ex_list False) h' []"
proof -
  have "(ex_list False)\<lparr>item_count := 0\<rparr> = ex_list False" by (simp add: ex_list_def ex_list0_def)
  with clean_releases_everything [OF ex_items, of "(#)" False "[]"] show ?thesis by auto
qed

text \<open>
  itemlist_item_insert puts the new item before the given one for flag 1, in its place
  for flag 3 and after it for every other flag, and keeps the count equal to the number of
  items.
\<close>

theorem insert_position:
  assumes "items l h (xs @ p # ys)" and "new \<in> live h" "new \<notin> set (self l # xs @ p # ys)"
    and "flags = 3 \<or> \<not> full l \<and> length (xs @ p # ys) < 2147483647"
  shows "\<exists>l' h'. itemlist_item_insert l p new flags h = Some (0, l', h') \<and>
    items l' h' (if flags = 1 then xs @ new # p # ys else if flags = 3 then xs @ new # ys else xs @ p # new # ys)"
  using itemlist_item_insert_ok [OF assms] by (auto simp: inserted_def)

definition ex_pair :: heap where
  "ex_pair = \<lparr>nxt = (\<lambda>a. if a = 100 then 8 else 100), prv = (\<lambda>a. if a = 100 then 8 else 100),
     item_data = (\<lambda>a. 5), extdata = (\<lambda>_. []), live = {8, 9, 100}\<rparr>"

lemma ex_pair_items: "items ((ex_list False)\<lparr>item_count := 1\<rparr>) ex_pair [8]"
  by (simp add: items_def dll_def linked_def ex_list_def ex_list0_def ex_pair_def)

theorem insert_position_witness:
  "\<exists>l' h'. itemlist_item_insert ((ex_list False)\<lparr>item_count := 1\<rparr>) 8 9 3 ex_pair = Some (0, l', h') \<and> items l' h' [9]"
  using insert_position [of "(ex_list False)\<lparr>item_count := 1\<rparr>" ex_pair "[]" 8 "[]" 9 3] ex_pair_items
  by (simp add: ex_pair_def ex_list_def ex_list0_def)

text \<open>
  Taking data from the head frees the item that held them; taking data from the tail
  does not, so the item is lost to its owner and stays allocated.
\<close>

theorem tail_data_leaks_item:
  assumes "items l h (xs @ [x])"
  shows "\<exists>l' h'. itemlist_get_tail_data l h = Some (0, Some (item_data h x), l', h') \<and> items l' h' xs \<and>
    x \<in> live h' \<and> x \<notin> set xs"
proof -
  obtain h' where h': "itemlist_get_tail l h = Some (Some x, l\<lparr>item_count := int (length xs)\<rparr>, h')"
    "items (l\<lparr>item_count := int (length xs)\<rparr>) h' xs" "links_only (set (self l # x # xs)) h h'"
    using itemlist_get_tail_snoc [OF assms] by blast
  have "x \<in> live h'" "item_data h' x = item_data h x" "x \<notin> set xs"
    using items_distinct [OF assms] h'(3) by (auto simp: links_only_def)
  with h' show ?thesis by (auto simp: itemlist_get_tail_data_def load_data_def)
qed

theorem tail_data_leaks_item_witness:
  "\<exists>l' h'. itemlist_get_tail_data ((ex_list False)\<lparr>item_count := 1\<rparr>) ex_pair = Some (0, Some 5, l', h') \<and> 8 \<in> live h'"
  using tail_data_leaks_item [of "(ex_list False)\<lparr>item_count := 1\<rparr>" ex_pair "[]" 8] ex_pair_items
  by (auto simp: ex_pair_def)

section \<open>Threads adding to one list\<close>

text \<open>
  Threads call itemlist_add_tail_data on a shared list. Each critical section runs under the
  mutex and is one step; between the search for equal data and the insertion other threads
  may run. Thread \<open>t\<close> adds \<open>data t\<close>, and the allocator may answer anything.
\<close>

datatype pc = Ready | Checked | Finished int

record adders =
  shared :: itemlist
  memory :: heap
  pcs :: "nat \<Rightarrow> pc"

inductive add_step :: "(nat \<Rightarrow> u64) \<Rightarrow> adders \<Rightarrow> adders \<Rightarrow> bool" for data where
  check: "pcs c t = Ready \<Longrightarrow> add_check (shared c) (data t) (memory c) = Some (same, l') \<Longrightarrow>
    add_step data c (c\<lparr>shared := l', pcs := (pcs c)(t := if same then Finished 0 else Checked)\<rparr>)"
| commit: "pcs c t = Checked \<Longrightarrow> add_commit got (shared c) (data t) 0 [] (memory c) = Some (r, l', h') \<Longrightarrow>
    add_step data c (c\<lparr>shared := l', memory := h', pcs := (pcs c)(t := Finished r)\<rparr>)"

inductive add_reach :: "(nat \<Rightarrow> u64) \<Rightarrow> adders \<Rightarrow> adders \<Rightarrow> bool" for data c0 where
  start: "add_reach data c0 c0"
| step: "add_reach data c0 c \<Longrightarrow> add_step data c c' \<Longrightarrow> add_reach data c0 c'"

inductive_cases add_stepE: "add_step data c c'"

definition bounded_list :: "int \<Rightarrow> adders \<Rightarrow> bool" where
  "bounded_list m c \<longleftrightarrow> max_items (shared c) = m \<and>
     (\<exists>ds. holds (shared c) (memory c) ds \<and> int (length ds) \<le> m)"

lemma add_step_bounded:
  assumes "add_step data c c'" and "bounded_list m c" and "0 < m" "m \<le> 2147483647"
  shows "bounded_list m c'"
proof -
  obtain ds where ds: "holds (shared c) (memory c) ds" "int (length ds) \<le> m" and m: "max_items (shared c) = m"
    using assms(2) by (auto simp: bounded_list_def)
  from assms(1) show ?thesis
  proof cases
    case (check t same l')
    with ds m add_check_iff [OF ds(1)] show ?thesis by (auto simp: bounded_list_def)
  next
    case (commit t got r l' h')
    show ?thesis
    proof (cases "int (length ds) < 2147483647")
      case True
      then have "length ds < 2147483647" by simp
      from add_commit_holds [OF ds(1) _ this, of 0 "[]" got "data t"] commit m ds(2) assms(3) show ?thesis
        by (auto simp: bounded_list_def commit_spec_def split: if_splits)
    next
      case False
      then have full: "full (shared c)"
        using ds m assms(3,4) by (auto simp: full_def holds_def items_def)
      have "l' = shared c" "holds (shared c) h' ds"
        using commit(3) add_commit_full [OF ds(1) full] by auto
      with commit(1) ds m show ?thesis by (auto simp: bounded_list_def)
    qed
  qed
qed

lemma add_reach_bounded:
  "add_reach data c0 c \<Longrightarrow> bounded_list m c0 \<Longrightarrow> 0 < m \<Longrightarrow> m \<le> 2147483647 \<Longrightarrow> bounded_list m c"
  by (induction rule: add_reach.induct) (auto intro: add_step_bounded)

lemma add_progress:
  assumes "bounded_list m c" and "m \<le> 2147483646" and "\<nexists>r. pcs c t = Finished r"
  shows "\<exists>c'. add_step data c c' \<and> pcs c' t \<noteq> pcs c t"
proof -
  obtain ds where ds: "holds (shared c) (memory c) ds" "int (length ds) \<le> m"
    using assms(1) by (auto simp: bounded_list_def)
  show ?thesis
  proof (cases "pcs c t")
    case Ready
    show ?thesis
      by (rule exI, rule conjI, rule add_step.check [of c t data, OF Ready add_check_iff [OF ds(1)]])
        (simp add: Ready)
  next
    case Checked
    have "length ds < 2147483647" using ds(2) assms(2) by simp
    from add_commit_holds [OF ds(1) _ this, of 0 "[]" None "data t"] obtain r l' h' where
      "add_commit None (shared c) (data t) 0 [] (memory c) = Some (r, l', h')" by auto
    note stepped = add_step.commit [of c t None data, OF Checked this]
    show ?thesis by (rule exI, rule conjI, rule stepped) (simp add: Checked)
  next
    case (Finished r)
    then show ?thesis using assms(3) by blast
  qed
qed


definition ex_adders :: adders where
  "ex_adders = \<lparr>shared = ex_list True, memory = ex_heap1, pcs = (\<lambda>t. Ready)\<rparr>"


text \<open>
  The rejection of equal data is not atomic. One thread alone never makes the data of a
  rejecting list repeat, but two threads that both search before either inserts leave the
  same data in the list twice.
\<close>

theorem rejection_is_not_atomic:
  assumes hold: "holds l h ds" and reject: "reject_same_item_data l" and new: "d \<notin> set ds"
    and dist: "distinct ds" and room: "int (length ds) + 1 < max_items l" and range: "length ds + 1 < 2147483647"
    and mem: "a \<noteq> 0" "a \<notin> live h" "b \<noteq> 0" "b \<notin> live h" "a \<noteq> b"
  shows "(\<forall>got e. \<exists>r l' h' ds'. itemlist_add_tail_data got l e h = Some (r, l', h') \<and> holds l' h' ds' \<and> distinct ds') \<and>
    (\<exists>c. add_reach (\<lambda>t. d) \<lparr>shared = l, memory = h, pcs = (\<lambda>t. Ready)\<rparr> c \<and> holds (shared c) (memory c) (ds @ [d, d]))"
proof (intro conjI allI)
  fix got e
  have "length ds < 2147483647" using range by simp
  from itemlist_add_holds [OF hold _ this, of 0 "[]" got e]
  show "\<exists>r l' h' ds'. itemlist_add_tail_data got l e h = Some (r, l', h') \<and> holds l' h' ds' \<and> distinct ds'"
    using dist reject by (fastforce simp: itemlist_add_tail_data_def add_spec_def commit_spec_def)
next
  let ?c0 = "\<lparr>shared = l, memory = h, pcs = (\<lambda>t. Ready)\<rparr>"
  let ?c1 = "?c0\<lparr>pcs := (pcs ?c0)(0 := Checked)\<rparr>" and ?c2 = "?c0\<lparr>pcs := (\<lambda>t. Ready)(0 := Checked, 1 := Checked)\<rparr>"
  have chk: "add_check l d h = Some (False, l)" using add_check_iff [OF hold, of d] new by simp
  have s1: "add_step (\<lambda>t. d) ?c0 ?c1" using add_step.check [of ?c0 0 "\<lambda>t. d" False l] chk by simp
  have s2: "add_step (\<lambda>t. d) ?c1 ?c2" using add_step.check [of ?c1 1 "\<lambda>t. d" False l] chk by simp
  have "fst (item_alloc (Some a) h) = Some a" using mem by (simp add: item_alloc_def)
  with add_commit_holds [OF hold, of 0 "[]" "Some a" d] room range obtain l1 h1 where
    one: "add_commit (Some a) l d 0 [] h = Some (0, l1, h1)" "holds l1 h1 (ds @ [d])" "max_items l1 = max_items l"
      "live h1 \<subseteq> live h \<union> {a}"
    by (auto simp: commit_spec_def)
  have "fst (item_alloc (Some b) h1) = Some b" using mem one(4) by (auto simp: item_alloc_def)
  with add_commit_holds [OF one(2), of 0 "[]" "Some b" d] room range one(3) obtain l2 h2 where
    two: "add_commit (Some b) l1 d 0 [] h1 = Some (0, l2, h2)" "holds l2 h2 (ds @ [d, d])"
    by (auto simp: commit_spec_def)
  let ?c3 = "?c2\<lparr>shared := l1, memory := h1, pcs := (pcs ?c2)(0 := Finished 0)\<rparr>"
  have s3: "add_step (\<lambda>t. d) ?c2 ?c3"
    using add_step.commit [of ?c2 0 "Some a" "\<lambda>t. d" 0 l1 h1] one(1) by simp
  have s4: "add_step (\<lambda>t. d) ?c3 (?c3\<lparr>shared := l2, memory := h2, pcs := (pcs ?c3)(1 := Finished 0)\<rparr>)"
    using add_step.commit [of ?c3 1 "Some b" "\<lambda>t. d" 0 l2 h2] two(1) by simp
  have "add_reach (\<lambda>t. d) ?c0 (?c3\<lparr>shared := l2, memory := h2, pcs := (pcs ?c3)(1 := Finished 0)\<rparr>)"
    by (rule add_reach.step [OF add_reach.step [OF add_reach.step [OF add_reach.step [OF add_reach.start s1] s2] s3] s4])
  then show "\<exists>c. add_reach (\<lambda>t. d) ?c0 c \<and> holds (shared c) (memory c) (ds @ [d, d])"
    using two(2) by (intro exI conjI) (assumption, simp)
qed

theorem rejection_is_not_atomic_witness:
  "\<exists>c. add_reach (\<lambda>t. 7) \<lparr>shared = ex_list True, memory = ex_heap1, pcs = (\<lambda>t. Ready)\<rparr> c \<and>
     holds (shared c) (memory c) [7, 7]"
  using rejection_is_not_atomic [OF ex_holds, of True 7 8 9]
  by (simp add: ex_list_def ex_list0_def ex_heap1_def ex_heap_def)

end
