(* ===== verification/Keyed_List.thy ===== *)
theory Keyed_List
  imports Item_List_Properties
begin

text \<open>
  Item lists as the thread pool uses them: the data of an item is a key, its first extra word
  a value, equal keys are rejected and the size is not limited. The interface is a locale; its
  laws are proved for the pointer-level operations, so that clients may reason about plain
  lists of pairs.
\<close>

section \<open>Lists of pairs\<close>

definition kl_add :: "bool \<Rightarrow> 'k \<Rightarrow> 'v \<Rightarrow> ('k \<times> 'v) list \<Rightarrow> int \<times> ('k \<times> 'v) list" where
  "kl_add avail k v es =
     (if k \<in> fst ` set es then (0, es) else if \<not> avail then (-12, es) else (0, es @ [(k, v)]))"

fun kl_drop :: "'k \<Rightarrow> ('k \<times> 'v) list \<Rightarrow> ('k \<times> 'v) list" where
  "kl_drop k [] = []"
| "kl_drop k (e # es) = (if fst e = k then es else e # kl_drop k es)"

lemma kl_drop_absent: "k \<notin> fst ` set es \<Longrightarrow> kl_drop k es = es"
  by (induction es) auto

lemma kl_drop_split: "k \<notin> fst ` set as \<Longrightarrow> kl_drop k (as @ (k, v) # bs) = as @ bs"
  by (induction as) auto

lemma set_kl_drop: "set (kl_drop k es) \<subseteq> set es"
  by (induction es) auto

lemma distinct_kl_drop: "distinct (map fst es) \<Longrightarrow> distinct (map fst (kl_drop k es))"
  using set_kl_drop by (induction es) force+

lemma map_of_kl_drop:
  "distinct (map fst es) \<Longrightarrow> map_of (kl_drop k es) j = (if j = k then None else map_of es j)"
  by (induction es) (auto simp: map_of_eq_None_iff [THEN iffD2])

lemma keys_kl_drop: "distinct (map fst es) \<Longrightarrow> fst ` set (kl_drop k es) = fst ` set es - {k}"
proof (induction es)
  case (Cons e es)
  then show ?case by (cases e) auto
qed simp

lemma in_kl_drop: "distinct (map fst es) \<Longrightarrow> (a, b) \<in> set (kl_drop k es) \<longleftrightarrow> (a, b) \<in> set es \<and> a \<noteq> k"
  by (induction es) (auto simp: image_iff)

lemma distinct_snd_kl_drop: "distinct (map snd es) \<Longrightarrow> distinct (map snd (kl_drop k es))"
  using set_kl_drop by (induction es) force+

lemma length_kl_drop: "length (kl_drop k es) \<le> length es"
  by (induction es) auto

section \<open>The interface\<close>

locale keyed_list =
  fixes rep :: "'s \<Rightarrow> ('k \<times> 'v) list \<Rightarrow> bool"
    and capacity :: nat
    and memory_for :: "'m \<Rightarrow> 's \<Rightarrow> bool"
    and add :: "'m \<Rightarrow> 'k \<Rightarrow> 'v \<Rightarrow> 's \<Rightarrow> (int \<times> 's) option"
    and find_value :: "'k \<Rightarrow> 's \<Rightarrow> ('v option \<times> 's) option"
    and take_value :: "'k \<Rightarrow> 's \<Rightarrow> ('v option \<times> 's) option"
  assumes add_rep: "rep s es \<Longrightarrow> length es < capacity \<Longrightarrow>
      \<exists>s'. add m k v s = Some (fst (kl_add (memory_for m s) k v es), s') \<and> rep s' (snd (kl_add (memory_for m s) k v es))"
    and find_rep: "rep s es \<Longrightarrow> find_value k s = Some (map_of es k, s)"
    and take_rep: "rep s es \<Longrightarrow> \<exists>s'. take_value k s = Some (map_of es k, s') \<and> rep s' (kl_drop k es)"
begin

lemma distinct_add: "distinct (map fst es) \<Longrightarrow> distinct (map fst (snd (kl_add m k v es)))"
  by (auto simp: kl_add_def)

lemma find_after_add:
  assumes "rep s es" and "length es < capacity" and "k \<notin> fst ` set es" and "memory_for m s"
  shows "\<exists>s'. add m k v s = Some (0, s') \<and> find_value k s' = Some (Some v, s') \<and>
    (\<forall>j. j \<noteq> k \<longrightarrow> find_value j s' = Some (map_of es j, s'))"
proof -
  obtain s' where s': "add m k v s = Some (0, s')" "rep s' (es @ [(k, v)])"
    using add_rep [OF assms(1,2), of m k v] assms(3,4) by (auto simp: kl_add_def)
  have "map_of es k = None" using assms(3) by (simp add: map_of_eq_None_iff)
  then show ?thesis
    using s' find_rep [OF s'(2)] by (auto simp: map_add_def split: option.splits)
qed

lemma find_after_take:
  assumes "rep s es" and "distinct (map fst es)"
  shows "\<exists>s'. take_value k s = Some (map_of es k, s') \<and> find_value k s' = Some (None, s') \<and>
    (\<forall>j. j \<noteq> k \<longrightarrow> find_value j s' = Some (map_of es j, s'))"
proof -
  obtain s' where s': "take_value k s = Some (map_of es k, s')" "rep s' (kl_drop k es)"
    using take_rep [OF assms(1)] by blast
  with find_rep [OF s'(2)] map_of_kl_drop [OF assms(2)] show ?thesis by auto
qed

end

section \<open>The pointer-level lists provide it\<close>

definition item_add :: "addr option \<Rightarrow> u64 \<Rightarrow> u64 \<Rightarrow> itemlist \<times> heap \<Rightarrow> (int \<times> itemlist \<times> heap) option" where
  "item_add got k v s = itemlist_add_tail_data_ext got (fst s) k 1 [v] (snd s)"

definition load_ext :: "addr \<Rightarrow> heap \<Rightarrow> u64 option" where
  "load_ext a h = (if a \<in> live h \<and> extdata h a \<noteq> [] then Some (hd (extdata h a)) else None)"

definition item_find :: "u64 \<Rightarrow> itemlist \<times> heap \<Rightarrow> (u64 option \<times> itemlist \<times> heap) option" where
  "item_find k s = do {
     (item, l1) \<leftarrow> itemlist_find_match_item (fst s) k (snd s);
     (case item of
        Some a \<Rightarrow> do { v \<leftarrow> load_ext a (snd s); Some (Some v, l1, snd s) }
      | None \<Rightarrow> Some (None, l1, snd s)) }"

definition item_take :: "u64 \<Rightarrow> itemlist \<times> heap \<Rightarrow> (u64 option \<times> itemlist \<times> heap) option" where
  "item_take k s = do {
     (item, l1, h1) \<leftarrow> itemlist_get_match_item (fst s) k (snd s);
     (case item of
        Some a \<Rightarrow> do { v \<leftarrow> load_ext a h1; h2 \<leftarrow> item_free a h1; Some (Some v, l1, h2) }
      | None \<Rightarrow> Some (None, l1, h1)) }"

definition entry :: "heap \<Rightarrow> addr \<Rightarrow> u64 \<times> u64" where
  "entry h a = (item_data h a, hd (extdata h a))"

definition item_rep :: "itemlist \<times> heap \<Rightarrow> (u64 \<times> u64) list \<Rightarrow> bool" where
  "item_rep s es \<longleftrightarrow> reject_same_item_data (fst s) \<and> max_items (fst s) = 0 \<and>
     (\<exists>xs. items (fst s) (snd s) xs \<and> map (entry (snd s)) xs = es \<and> (\<forall>x\<in>set xs. extdata (snd s) x \<noteq> []))"

definition memory_for_item :: "addr option \<Rightarrow> itemlist \<times> heap \<Rightarrow> bool" where
  "memory_for_item got s \<longleftrightarrow> fst (item_alloc got (snd s)) \<noteq> None"

lemma entry_keys: "fst ` set (map (entry h) xs) = set (contents h xs)"
  by (simp add: entry_def contents_def image_image)

lemma find_entry:
  "map_of (map (entry h) xs) k = map_option (\<lambda>a. hd (extdata h a)) (find (\<lambda>a. item_data h a = k) xs)"
  by (induction xs) (auto simp: entry_def)

lemma item_add_rep:
  assumes "item_rep s es" and "length es < 2147483647"
  shows "\<exists>s'. item_add m k v s = Some (fst (kl_add (memory_for_item m s) k v es), s') \<and>
    item_rep s' (snd (kl_add (memory_for_item m s) k v es))"
proof -
  obtain l h where s: "s = (l, h)" by fastforce
  from assms(1) s obtain xs where xs: "items l h xs" "map (entry h) xs = es" "\<forall>x\<in>set xs. extdata h x \<noteq> []"
    and flags: "reject_same_item_data l" "max_items l = 0"
    by (auto simp: item_rep_def)
  have hold: "holds l h (contents h xs)" using xs(1) by (auto simp: holds_def)
  have keys: "(k \<in> fst ` set es) = (k \<in> set (contents h xs))" using entry_keys xs(2) by metis
  show ?thesis
  proof (cases "k \<in> fst ` set es")
    case True
    then have "item_add m k v s = Some (0, s)"
      using add_check_iff [OF hold, of k] flags keys by (simp add: item_add_def itemlist_add_tail_data_ext_def s)
    with True assms(1) show ?thesis by (simp add: kl_add_def)
  next
    case False
    let ?r = "fst (commit_spec l (fst (item_alloc m h) \<noteq> None) k (contents h xs))"
    have r: "?r = (if memory_for_item m s then 0 else -12)"
      using flags by (simp add: commit_spec_def memory_for_item_def s)
    have "length xs < 2147483647" using assms(2) xs(2) by auto
    from add_commit_items [OF xs(1) _ this, of 1 "[v]" m k] obtain l' h' xs' c where
      call: "add_commit m l k 1 [v] h = Some (?r, l', h')" "items l' h' xs'"
        "if ?r = 0 then \<exists>a. xs' = xs @ [a] \<and> item_data h' a = k \<and> extdata h' a = [v] else xs' = xs"
        "\<forall>x\<in>set xs. item_data h' x = item_data h x \<and> extdata h' x = extdata h x" "l' = l\<lparr>item_count := c\<rparr>"
      by (auto split: if_splits)
    have same: "map (entry h') xs = es" using call(4) xs(2) by (auto simp: entry_def)
    have "item_add m k v s = Some (?r, l', h')"
      using call(1) add_check_iff [OF hold, of k] False keys
      by (simp add: item_add_def itemlist_add_tail_data_ext_def s)
    moreover have "item_rep (l', h') (if ?r = 0 then es @ [(k, v)] else es)"
      using call(2-5) same flags xs(3)
      by (simp only: item_rep_def fst_conv snd_conv, intro conjI exI [of _ xs'])
        (auto simp: entry_def split: if_splits)
    ultimately show ?thesis using False r by (auto simp: kl_add_def split: if_splits)
  qed
qed

lemma item_find_rep:
  assumes "item_rep s es"
  shows "item_find k s = Some (map_of es k, s)"
proof -
  obtain l h where s: "s = (l, h)" by fastforce
  from assms s obtain xs where xs: "items l h xs" "map (entry h) xs = es" "\<forall>x\<in>set xs. extdata h x \<noteq> []"
    by (auto simp: item_rep_def)
  have found: "a \<in> live h \<and> extdata h a \<noteq> []" if "find (\<lambda>a. item_data h a = k) xs = Some a" for a
  proof -
    have "a \<in> set xs" using find_splits [OF that] by auto
    then show ?thesis using xs(3) items_distinct [OF xs(1)] by auto
  qed
  show ?thesis
    using itemlist_find_match_item_finds [OF xs(1), of k] find_entry [of h xs k] xs(2) found s
    by (auto simp: item_find_def load_ext_def split: option.splits)
qed

lemma item_take_rep:
  assumes "item_rep s es"
  shows "\<exists>s'. item_take k s = Some (map_of es k, s') \<and> item_rep s' (kl_drop k es)"
proof -
  obtain l h where s: "s = (l, h)" by fastforce
  from assms s obtain xs where xs: "items l h xs" "map (entry h) xs = es" "\<forall>x\<in>set xs. extdata h x \<noteq> []"
    and flags: "reject_same_item_data l" "max_items l = 0"
    by (auto simp: item_rep_def)
  show ?thesis
  proof (cases "find (\<lambda>a. item_data h a = k) xs")
    case None
    then have absent: "k \<notin> item_data h ` set xs" by (simp add: find_is_None)
    then have "kl_drop k es = es" using xs(2) by (intro kl_drop_absent) (auto simp: entry_def)
    then show ?thesis
      using itemlist_get_match_item_none [OF xs(1) absent] find_entry [of h xs k] None xs(2) assms s
      by (simp add: item_take_def)
  next
    case (Some a)
    from find_splits [OF this] obtain as bs where
      split: "xs = as @ a # bs" "item_data h a = k" "k \<notin> item_data h ` set as" by blast
    obtain h' where h': "itemlist_get_match_item l k h = Some (Some a, l\<lparr>item_count := int (length (as @ bs))\<rparr>, h')"
      "items (l\<lparr>item_count := int (length (as @ bs))\<rparr>) h' (as @ bs)" "links_only (set (self l # a # as @ bs)) h h'"
      using itemlist_get_match_item_some [of l h as a bs k] xs(1) split by auto
    have a: "a \<in> live h'" "a \<notin> set (self l # as @ bs)" "extdata h' a = extdata h a"
      using items_distinct [OF xs(1)] split(1) h'(3) by (auto simp: links_only_def)
    have "items (l\<lparr>item_count := int (length (as @ bs))\<rparr>) (h'\<lparr>live := live h' - {a}\<rparr>) (as @ bs)"
      using items_free [OF h'(2)] a(2) by simp
    moreover have "kl_drop k es = map (entry (h'\<lparr>live := live h' - {a}\<rparr>)) (as @ bs)"
    proof -
      have "entry (h'\<lparr>live := live h' - {a}\<rparr>) = entry h" using h'(3) by (auto simp: entry_def links_only_def fun_eq_iff)
      moreover have "es = map (entry h) as @ (k, hd (extdata h a)) # map (entry h) bs"
        using xs(2) split by (auto simp: entry_def)
      moreover have "k \<notin> fst ` set (map (entry h) as)" using split(3) by (auto simp: entry_def)
      ultimately show ?thesis by (simp add: kl_drop_split)
    qed
    ultimately have "item_rep (l\<lparr>item_count := int (length (as @ bs))\<rparr>, h'\<lparr>live := live h' - {a}\<rparr>) (kl_drop k es)"
      using flags xs(3) split(1) h'(3) by (auto simp: item_rep_def links_only_def)
    moreover have "extdata h a \<noteq> []" using xs(3) split(1) by simp
    ultimately show ?thesis
      using h'(1) a find_entry [of h xs k] Some xs(2) s
      by (auto simp: item_take_def load_ext_def item_free_def)
  qed
qed

interpretation items_keyed: keyed_list item_rep 2147483647 memory_for_item item_add item_find item_take
  using item_add_rep item_find_rep item_take_rep by unfold_locales auto

text \<open>
  C23. On the pointer-level list of the thread pool a value stored under a fresh key is found
  and later taken under that key; after it was taken the key is not found, and the value of
  every other key is found the same at every moment.
\<close>

theorem thread_entry_lifecycle:
  assumes rep: "item_rep s es" and fresh: "k \<notin> fst ` set es" and keys: "distinct (map fst es)"
    and room: "length es < 2147483647" and memory: "memory_for_item got s"
  shows "\<exists>s1 s2. item_add got k v s = Some (0, s1) \<and> item_take k s1 = Some (Some v, s2) \<and>
    item_find k s1 = Some (Some v, s1) \<and> item_find k s2 = Some (None, s2) \<and> item_rep s2 es \<and>
    (\<forall>j. j \<noteq> k \<longrightarrow> item_find j s1 = Some (map_of es j, s1) \<and> item_find j s2 = Some (map_of es j, s2))"
proof -
  obtain s1 where s1: "item_add got k v s = Some (0, s1)" "item_rep s1 (es @ [(k, v)])"
    using items_keyed.add_rep [OF rep room, of got k v] fresh memory by (auto simp: kl_add_def)
  have find1: "item_find k s1 = Some (Some v, s1)" "\<forall>j. j \<noteq> k \<longrightarrow> item_find j s1 = Some (map_of es j, s1)"
    using items_keyed.find_after_add [OF rep room fresh memory, of v] s1(1) by auto
  obtain s2 where s2: "item_take k s1 = Some (Some v, s2)" "item_rep s2 es"
    using items_keyed.take_rep [OF s1(2), of k] kl_drop_split [OF fresh, of v "[]"] items_keyed.find_rep [OF s1(2), of k] find1(1)
    by auto
  have "map_of es k = None" using fresh by (simp add: map_of_eq_None_iff)
  with s1(1) s2 find1 items_keyed.find_rep [OF s2(2)] show ?thesis by (intro exI [of _ s1] exI [of _ s2]) simp
qed

theorem thread_entry_lifecycle_witness:
  "\<exists>s1 s2. item_add (Some 8) 11 200 ((ex_list True)\<lparr>max_items := 0\<rparr>, ex_heap1) = Some (0, s1) \<and>
     item_take 11 s1 = Some (Some 200, s2) \<and> item_find 11 s2 = Some (None, s2)"
proof -
  have rep: "item_rep ((ex_list True)\<lparr>max_items := 0\<rparr>, ex_heap1) []"
    using ex_items [of True] by (simp add: item_rep_def items_def dll_def linked_def ex_list_def ex_list0_def)
  have "memory_for_item (Some 8) ((ex_list True)\<lparr>max_items := 0\<rparr>, ex_heap1)"
    by (simp add: memory_for_item_def item_alloc_def ex_heap1_def ex_heap_def)
  from thread_entry_lifecycle [OF rep _ _ _ this, of 11 200] show ?thesis by auto
qed

end
