(* ===== verification/Thread_Pool.thy ===== *)
theory Thread_Pool
  imports Keyed_List "HOL-Library.Signed_Division"
begin

text \<open>
  The thread pool of \<^verbatim>\<open>amavutils/amthreadpool.c\<close>. Its item lists are lists of pairs (thread
  id, pointer), which \<^verbatim>\<open>Keyed_List\<close> shows the pointer-level lists to implement. Thread data
  and pools are structures at addresses; using one that was freed, or a null pool, has the
  value \<open>None\<close>. What the operating system answers (new addresses, new thread ids, the
  result of a wait, the time) is an argument.
\<close>

unbundle bit_operations_syntax

section \<open>State\<close>

definition MAX_THREAD_DEPTH :: nat where
  "MAX_THREAD_DEPTH = 8"

record threadpool_thread_data =
  td_pid :: u64
  start_routine :: u64
  td_arg :: u64
  ppid :: "u64 list"
  td_pool :: u64
  on_required_exit :: int
  thread_inited :: bool
  signals :: nat

record threadpool =
  pool_pid :: u64
  threadlist :: "(u64 \<times> u64) list"

record tp_state =
  threadpool_list :: "(u64 \<times> u64) list"
  threadpool_threadlist :: "(u64 \<times> u64) list"
  threads :: "u64 \<Rightarrow> threadpool_thread_data option"
  pools :: "u64 \<Rightarrow> threadpool option"
  names :: "u64 \<Rightarrow> string"

text \<open>The answers of the allocator during one call: a block, and whether items could be allocated.\<close>

record mallocs =
  block :: "u64 option"
  pool_item :: bool
  member_item :: bool
  thread_item :: bool

definition malloc_at :: "tp_state \<Rightarrow> u64 option \<Rightarrow> u64 option" where
  "malloc_at st got =
     (case got of
        Some p \<Rightarrow> if p = 0 \<or> threads st p \<noteq> None \<or> pools st p \<noteq> None then None else Some p
      | None \<Rightarrow> None)"

definition update_thread :: "u64 \<Rightarrow> (threadpool_thread_data \<Rightarrow> threadpool_thread_data) \<Rightarrow> tp_state \<Rightarrow> tp_state option" where
  "update_thread t f st =
     (case threads st t of
        Some td \<Rightarrow> Some (st\<lparr>threads := (threads st)(t \<mapsto> f td)\<rparr>)
      | None \<Rightarrow> None)"

definition amthreadpool_findthead_thread_data :: "tp_state \<Rightarrow> u64 \<Rightarrow> u64 option" where
  "amthreadpool_findthead_thread_data st pid = map_of (threadpool_threadlist st) pid"

section \<open>Pools and their members\<close>

text \<open>The result 0 is the null pointer; \<open>this\<close> is the id of the calling thread.\<close>

definition amthreadpool_create_pool :: "mallocs \<Rightarrow> u64 \<Rightarrow> u64 \<Rightarrow> tp_state \<Rightarrow> u64 \<times> tp_state" where
  "amthreadpool_create_pool M this pid st =
     (case malloc_at st (block M) of
        None \<Rightarrow> (0, st)
      | Some pool \<Rightarrow>
          (let pid' = (if pid = 0 then this else pid) in
           (pool, st\<lparr>pools := (pools st)(pool \<mapsto> \<lparr>pool_pid = pid', threadlist = []\<rparr>),
                     threadpool_list := snd (kl_add (pool_item M) pid' pool (threadpool_list st))\<rparr>)))"

definition amthreadpool_pool_add_thread ::
  "mallocs \<Rightarrow> u64 \<Rightarrow> u64 \<Rightarrow> u64 \<Rightarrow> u64 \<Rightarrow> tp_state \<Rightarrow> (int \<times> tp_state) option" where
  "amthreadpool_pool_add_thread M this pool pid thread st = do {
     td \<leftarrow> threads st thread;
     (ret, st1) \<leftarrow>
       (if pool \<noteq> 0
        then do {
          p \<leftarrow> pools st pool;
          let (r, es) = kl_add (member_item M) (td_pid td) thread (threadlist p);
          Some (r, st\<lparr>pools := (pools st)(pool \<mapsto> p\<lparr>threadlist := es\<rparr>)\<rparr>) }
        else let (new_pool, st1) = amthreadpool_create_pool M this pid st in
             do { st2 \<leftarrow> update_thread thread (\<lambda>t. t\<lparr>td_pool := new_pool\<rparr>) st1; Some (0, st2) });
     let (r2, es2) = kl_add (thread_item M) (td_pid td) thread (threadpool_threadlist st1);
     Some (ret OR r2, st1\<lparr>threadpool_threadlist := es2\<rparr>) }"

definition amthreadpool_release :: "u64 \<Rightarrow> tp_state \<Rightarrow> (int \<times> tp_state) option" where
  "amthreadpool_release pid st =
     (case map_of (threadpool_list st) pid of
        None \<Rightarrow> Some (0, st)
      | Some pool \<Rightarrow> do {
          p \<leftarrow> pools st pool;
          Some (0, st\<lparr>threadpool_list := kl_drop pid (threadpool_list st), pools := (pools st)(pool := None)\<rparr>) })"

definition amthreadpool_pool_del_thread :: "u64 \<Rightarrow> tp_state \<Rightarrow> (int \<times> tp_state) option" where
  "amthreadpool_pool_del_thread pid st =
     (case map_of (threadpool_threadlist st) pid of
        None \<Rightarrow> Some (-2, st)
      | Some t1 \<Rightarrow> do {
          td \<leftarrow> threads st t1;
          p \<leftarrow> pools st (td_pool td);
          let st1 = st\<lparr>threadpool_threadlist := kl_drop pid (threadpool_threadlist st),
                       pools := (pools st)(td_pool td \<mapsto> p\<lparr>threadlist := kl_drop pid (threadlist p)\<rparr>),
                       threads := (threads st)(t1 := None)\<rparr>;
          if pool_pid p = pid
          then do { (r, st2) \<leftarrow> amthreadpool_release pid st1; Some (0, st2) }
          else Some (0, st1) })"

section \<open>Waking, sleeping, cancelling\<close>

definition amthreadpool_thread_wake_t :: "u64 \<Rightarrow> int \<Rightarrow> tp_state \<Rightarrow> tp_state option" where
  "amthreadpool_thread_wake_t t trycancel st =
     update_thread t (\<lambda>td. td\<lparr>on_required_exit := trycancel, signals := signals td + 1\<rparr>) st"

text \<open>The absolute time of the end of a sleep, from the time of day in seconds and microseconds.\<close>

definition sleep_deadline :: "int \<Rightarrow> int \<Rightarrow> int \<Rightarrow> int \<times> int" where
  "sleep_deadline us64 sec usec =
     (sec + (us64 + usec) sdiv 1000000, ((us64 + usec) * 1000) smod 1000000000)"

text \<open>
  A sleep of the calling thread: the return value, the absolute deadline of the timed wait
  (none when the thread is unknown to the pool and plainly sleeps), and the new state. The
  argument \<open>waited\<close> is what the timed wait returns.
\<close>

definition amthreadpool_thread_usleep_in ::
  "u64 \<Rightarrow> int \<Rightarrow> int \<times> int \<Rightarrow> int \<Rightarrow> tp_state \<Rightarrow> (int \<times> (int \<times> int) option \<times> tp_state) option" where
  "amthreadpool_thread_usleep_in this us now waited st =
     (case amthreadpool_findthead_thread_data st this of
        None \<Rightarrow> Some (0, None, st)
      | Some t \<Rightarrow> do {
          td \<leftarrow> threads st t;
          let us64 = (if 1 < on_required_exit td \<and> us < 100 * 1000 then 100 * 1000 else us);
          st1 \<leftarrow> (if 1 < on_required_exit td
                  then update_thread t (\<lambda>td. td\<lparr>on_required_exit := on_required_exit td - 1\<rparr>) st
                  else Some st);
          Some (waited, Some (sleep_deadline us64 (fst now) (snd now)), st1) })"

text \<open>
  The variant for a monotonic clock, by build: plain sleep on 64-bit ARM, the monotonic time
  in seconds and nanoseconds on old 32-bit systems, the time of day elsewhere.
\<close>

datatype build = Aarch64 | Lp32_before_21 | Other_build

definition sleep_deadline_monotonic :: "int \<Rightarrow> int \<Rightarrow> int \<Rightarrow> int \<times> int" where
  "sleep_deadline_monotonic us64 sec nsec =
     (sec + (us64 + nsec sdiv 1000) sdiv 1000000, (us64 * 1000 + nsec) smod 1000000000)"

definition amthreadpool_thread_usleep_in_monotonic ::
  "build \<Rightarrow> u64 \<Rightarrow> int \<Rightarrow> int \<times> int \<Rightarrow> int \<Rightarrow> tp_state \<Rightarrow> (int \<times> (int \<times> int) option \<times> tp_state) option" where
  "amthreadpool_thread_usleep_in_monotonic b this us now waited st =
     (if b = Aarch64 then Some (0, None, st)
      else case amthreadpool_findthead_thread_data st this of
        None \<Rightarrow> Some (0, None, st)
      | Some t \<Rightarrow> do {
          td \<leftarrow> threads st t;
          let us64 = (if 1 < on_required_exit td \<and> us < 100 * 1000 then 100 * 1000 else us);
          st1 \<leftarrow> (if 1 < on_required_exit td
                  then update_thread t (\<lambda>td. td\<lparr>on_required_exit := on_required_exit td - 1\<rparr>) st
                  else Some st);
          Some (waited,
            Some (if b = Lp32_before_21 then sleep_deadline_monotonic us64 (fst now) (snd now)
                  else sleep_deadline us64 (fst now) (snd now)), st1) })"

text \<open>The debugging variant only adds two clock readings that feed a disabled log line.\<close>

definition amthreadpool_thread_usleep_debug ::
  "build \<Rightarrow> u64 \<Rightarrow> int \<Rightarrow> int \<times> int \<Rightarrow> int \<Rightarrow> tp_state \<Rightarrow> (int \<times> (int \<times> int) option \<times> tp_state) option" where
  "amthreadpool_thread_usleep_debug b this us now waited st =
     amthreadpool_thread_usleep_in_monotonic b this us now waited st"

definition amthreadpool_thread_wake :: "u64 \<Rightarrow> tp_state \<Rightarrow> (int \<times> tp_state) option" where
  "amthreadpool_thread_wake pid st =
     (case amthreadpool_findthead_thread_data st pid of
        None \<Rightarrow> Some (-1, st)
      | Some t \<Rightarrow> do {
          td \<leftarrow> threads st t;
          st1 \<leftarrow> amthreadpool_thread_wake_t t (on_required_exit td) st;
          Some (0, st1) })"

definition amthreadpool_on_require_exit :: "u64 \<Rightarrow> u64 \<Rightarrow> tp_state \<Rightarrow> int option" where
  "amthreadpool_on_require_exit this pid st =
     (case amthreadpool_findthead_thread_data st (if pid \<noteq> 0 then pid else this) of
        None \<Rightarrow> Some 0
      | Some t \<Rightarrow> do { td \<leftarrow> threads st t; Some (if on_required_exit td \<noteq> 0 then 1 else 0) })"

fun wake_all :: "(u64 \<times> u64) list \<Rightarrow> int \<Rightarrow> tp_state \<Rightarrow> tp_state option" where
  "wake_all [] cancel st = Some st"
| "wake_all (e # es) cancel st = do {
     st1 \<leftarrow> amthreadpool_thread_wake_t (snd e) cancel st;
     wake_all es cancel st1 }"

text \<open>A pool that was freed is not told apart from a live one by the null test.\<close>

definition amthreadpool_pool_thread_cancel_l1 :: "u64 \<Rightarrow> int \<Rightarrow> bool \<Rightarrow> tp_state \<Rightarrow> (int \<times> tp_state) option" where
  "amthreadpool_pool_thread_cancel_l1 pid cancel allthreads st =
     (case amthreadpool_findthead_thread_data st pid of
        None \<Rightarrow> Some (0, st)
      | Some t \<Rightarrow> do {
          td \<leftarrow> threads st t;
          st1 \<leftarrow> (if allthreads \<and> td_pool td \<noteq> 0
                  then do {
                    p \<leftarrow> pools st (td_pool td);
                    if pool_pid p = pid then wake_all (threadlist p) cancel st else Some st }
                  else Some st);
          st2 \<leftarrow> amthreadpool_thread_wake_t t cancel st1;
          Some (0, st2) })"

definition amthreadpool_pool_thread_cancel :: "u64 \<Rightarrow> tp_state \<Rightarrow> (int \<times> tp_state) option" where
  "amthreadpool_pool_thread_cancel pid st = amthreadpool_pool_thread_cancel_l1 pid 3 True st"

definition amthreadpool_pool_thread_uncancel :: "u64 \<Rightarrow> tp_state \<Rightarrow> (int \<times> tp_state) option" where
  "amthreadpool_pool_thread_uncancel pid st = amthreadpool_pool_thread_cancel_l1 pid 0 True st"

definition amthreadpool_thread_cancel :: "u64 \<Rightarrow> tp_state \<Rightarrow> (int \<times> tp_state) option" where
  "amthreadpool_thread_cancel pid st = amthreadpool_pool_thread_cancel_l1 pid 3 False st"

definition amthreadpool_thread_uncancel :: "u64 \<Rightarrow> tp_state \<Rightarrow> (int \<times> tp_state) option" where
  "amthreadpool_thread_uncancel pid st = amthreadpool_pool_thread_cancel_l1 pid 0 False st"

section \<open>Creating and joining threads\<close>

text \<open>The ancestors of a new thread: its creator, then the creator's own up to the fixed depth.\<close>

function copy_ppid :: "nat \<Rightarrow> u64 list \<Rightarrow> u64 list \<Rightarrow> u64 list" where
  "copy_ppid i src dst =
     (if MAX_THREAD_DEPTH - 1 \<le> i \<or> src ! i = 0 then dst
      else copy_ppid (i + 1) src (dst[i + 1 := src ! i]))"
  by auto
termination by (relation "measure (\<lambda>(i, _). MAX_THREAD_DEPTH - i)") auto

declare copy_ppid.simps [simp del]

definition amthreadpool_start_thread :: "mallocs \<Rightarrow> u64 \<Rightarrow> u64 \<Rightarrow> tp_state \<Rightarrow> tp_state option" where
  "amthreadpool_start_thread M this t st = do {
     st1 \<leftarrow> update_thread t (\<lambda>td. td\<lparr>td_pid := this\<rparr>) st;
     td \<leftarrow> threads st1 t;
     (pool, st2) \<leftarrow>
       (case amthreadpool_findthead_thread_data st1 (ppid td ! 0) of
          None \<Rightarrow> Some (0, st1)
        | Some thread_p \<Rightarrow> do {
            tp \<leftarrow> threads st1 thread_p;
            st2 \<leftarrow> update_thread t (\<lambda>td. td\<lparr>ppid := copy_ppid 0 (ppid tp) (ppid td), td_pool := td_pool tp\<rparr>) st1;
            Some (td_pool tp, st2) });
     (r, st3) \<leftarrow> amthreadpool_pool_add_thread M this pool this t st2;
     update_thread t (\<lambda>td. td\<lparr>thread_inited := True, signals := signals td + 1\<rparr>) st3 }"

definition new_thread_data :: "u64 \<Rightarrow> u64 \<Rightarrow> u64 \<Rightarrow> threadpool_thread_data" where
  "new_thread_data this routine arg =
     \<lparr>td_pid = 0, start_routine = routine, td_arg = arg, ppid = this # replicate (MAX_THREAD_DEPTH - 1) 0,
      td_pool = 0, on_required_exit = 0, thread_inited = False, signals = 0\<rparr>"

text \<open>
  \<open>created\<close> is the result of \<^verbatim>\<open>pthread_create\<close> and the id of the new thread. The creator waits
  until the new thread has registered itself, so the call includes that registration.
\<close>

definition amthreadpool_pthread_create_name ::
  "mallocs \<Rightarrow> u64 option \<Rightarrow> int \<times> u64 \<Rightarrow> u64 \<Rightarrow> u64 \<Rightarrow> u64 \<Rightarrow> string option \<Rightarrow> tp_state \<Rightarrow> (int \<times> u64 option \<times> tp_state) option" where
  "amthreadpool_pthread_create_name M got created this routine arg name st =
     (case malloc_at st got of
        None \<Rightarrow> Some (-100, None, st)
      | Some t \<Rightarrow>
          (let st1 = st\<lparr>threads := (threads st)(t \<mapsto> new_thread_data this routine arg)\<rparr> in
           if fst created = 0
           then do {
             st2 \<leftarrow> amthreadpool_start_thread M (snd created) t st1;
             Some (0, Some (snd created),
               (case name of Some n \<Rightarrow> st2\<lparr>names := (names st2)(this := n)\<rparr> | None \<Rightarrow> st2)) }
           else Some (fst created, None, st1)))"

definition amthreadpool_pthread_create ::
  "mallocs \<Rightarrow> u64 option \<Rightarrow> int \<times> u64 \<Rightarrow> u64 \<Rightarrow> u64 \<Rightarrow> u64 \<Rightarrow> tp_state \<Rightarrow> (int \<times> u64 option \<times> tp_state) option" where
  "amthreadpool_pthread_create M got created this routine arg st =
     amthreadpool_pthread_create_name M got created this routine arg None st"

definition amthreadpool_pthread_join :: "int \<Rightarrow> u64 \<Rightarrow> tp_state \<Rightarrow> (int \<times> tp_state) option" where
  "amthreadpool_pthread_join joined thid st = do {
     (r, st1) \<leftarrow> amthreadpool_pool_del_thread thid st;
     Some (joined, st1) }"

definition amthreadpool_system_init :: "bool \<Rightarrow> tp_state \<Rightarrow> int \<times> bool \<times> tp_state" where
  "amthreadpool_system_init inited st =
     (if inited then (0, inited, st)
      else (0, True, st\<lparr>threadpool_list := [], threadpool_threadlist := []\<rparr>))"

end
