(* ===== verification/Thread_Pool_Lemmas.thy ===== *)
theory Thread_Pool_Lemmas
  imports Thread_Pool
begin

text \<open>
  The invariant that ties the three kinds of lists of the thread pool to the structures they
  point at, and that creating threads and joining them children first keeps it.
\<close>

section \<open>Invariant\<close>

definition thread_ok :: "tp_state \<Rightarrow> u64 \<Rightarrow> u64 \<Rightarrow> bool" where
  "thread_ok st pid t \<longleftrightarrow>
     (\<exists>td p. threads st t = Some td \<and> td_pid td = pid \<and> length (ppid td) = 8 \<and> pools st (td_pool td) = Some p \<and>
        (pool_pid p = pid \<or> (pid, t) \<in> set (threadlist p)))"

definition member_ok :: "tp_state \<Rightarrow> u64 \<Rightarrow> u64 \<Rightarrow> u64 \<Rightarrow> bool" where
  "member_ok st q pid t \<longleftrightarrow>
     (pid, t) \<in> set (threadpool_threadlist st) \<and> (\<exists>td. threads st t = Some td \<and> td_pool td = q)"

definition pool_ok :: "tp_state \<Rightarrow> u64 \<Rightarrow> threadpool \<Rightarrow> bool" where
  "pool_ok st q p \<longleftrightarrow>
     (pool_pid p, q) \<in> set (threadpool_list st) \<and> distinct (map fst (threadlist p)) \<and>
     pool_pid p \<notin> fst ` set (threadlist p) \<and> (\<forall>(pid, t) \<in> set (threadlist p). member_ok st q pid t) \<and>
     (\<exists>t. member_ok st q (pool_pid p) t)"

definition tp_inv :: "tp_state \<Rightarrow> bool" where
  "tp_inv st \<longleftrightarrow>
     distinct (map fst (threadpool_threadlist st)) \<and> distinct (map snd (threadpool_threadlist st)) \<and>
     distinct (map fst (threadpool_list st)) \<and> pools st 0 = None \<and>
     (\<forall>(pid, t) \<in> set (threadpool_threadlist st). thread_ok st pid t) \<and>
     (\<forall>q p. pools st q = Some p \<longrightarrow> pool_ok st q p) \<and>
     (\<forall>(pid, q) \<in> set (threadpool_list st). \<exists>p. pools st q = Some p \<and> pool_pid p = pid)"

lemma tp_invI:
  assumes "distinct (map fst (threadpool_threadlist st))" "distinct (map snd (threadpool_threadlist st))"
    "distinct (map fst (threadpool_list st))" "pools st 0 = None"
    and "\<And>pid t. (pid, t) \<in> set (threadpool_threadlist st) \<Longrightarrow> thread_ok st pid t"
    and "\<And>q p. pools st q = Some p \<Longrightarrow> pool_ok st q p"
    and "\<And>pid q. (pid, q) \<in> set (threadpool_list st) \<Longrightarrow> \<exists>p. pools st q = Some p \<and> pool_pid p = pid"
  shows "tp_inv st"
  using assms by (auto simp: tp_inv_def)

text \<open>An empty system.\<close>

definition no_threads :: tp_state where
  "no_threads = \<lparr>threadpool_list = [], threadpool_threadlist = [], threads = (\<lambda>_. None), pools = (\<lambda>_. None),
     names = (\<lambda>_. [])\<rparr>"

lemma no_threads_inv: "tp_inv no_threads"
  by (simp add: tp_inv_def no_threads_def)

section \<open>Creating a thread\<close>

lemma length_copy_ppid: "length (copy_ppid i src dst) = length dst"
  by (induction i src dst rule: copy_ppid.induct) (subst copy_ppid.simps, simp)

lemma copy_ppid_nth:
  "i \<le> 7 \<Longrightarrow> length src = 8 \<Longrightarrow> length dst = 8 \<Longrightarrow> j < 8 \<Longrightarrow>
   copy_ppid i src dst ! j =
     (if i < j \<and> (\<forall>k. i \<le> k \<and> k < j \<longrightarrow> src ! k \<noteq> 0) then src ! (j - 1) else dst ! j)"
proof (induction i src dst rule: copy_ppid.induct)
  case (1 i src dst)
  show ?case
  proof (cases "MAX_THREAD_DEPTH - 1 \<le> i \<or> src ! i = 0")
    case True
    then show ?thesis
      using 1(2-5) by (subst copy_ppid.simps) (auto simp: MAX_THREAD_DEPTH_def)
  next
    case False
    then have i: "i + 1 \<le> 7" by (simp add: MAX_THREAD_DEPTH_def)
    have step: "copy_ppid i src dst = copy_ppid (i + 1) src (dst[i + 1 := src ! i])"
      using False by (subst copy_ppid.simps) simp
    note IH = 1(1) [OF False i 1(3) _ 1(5), unfolded length_list_update, OF 1(4)]
    consider "j \<le> i" | "j = i + 1" | "i + 1 < j" by linarith
    then show ?thesis
    proof cases
      case 1
      then show ?thesis using IH step by simp
    next
      case 2
      have "\<forall>k. i \<le> k \<and> k < i + 1 \<longrightarrow> src ! k \<noteq> 0" using False by (metis less_Suc_eq_le Suc_eq_plus1 le_antisym)
      then show ?thesis using IH step 2 i 1(4) by simp
    next
      case 3
      have "(\<forall>k. i \<le> k \<and> k < j \<longrightarrow> src ! k \<noteq> 0) = (\<forall>k. i + 1 \<le> k \<and> k < j \<longrightarrow> src ! k \<noteq> 0)"
        using False by (metis Suc_eq_plus1 Suc_leI le_neq_implies_less Suc_leD)
      then show ?thesis using IH step 3 by auto
    qed
  qed
qed

text \<open>
  Memory is available (\<open>t\<close> for the thread data, \<open>q\<close> for a pool) and the id of the new thread
  is not that of a registered thread.
\<close>

definition create_ok :: "mallocs \<Rightarrow> u64 option \<Rightarrow> u64 \<Rightarrow> u64 \<Rightarrow> u64 \<Rightarrow> tp_state \<Rightarrow> bool" where
  "create_ok M got sub t q st \<longleftrightarrow>
     got = Some t \<and> t \<noteq> 0 \<and> threads st t = None \<and> pools st t = None \<and>
     block M = Some q \<and> q \<noteq> 0 \<and> q \<noteq> t \<and> threads st q = None \<and> pools st q = None \<and>
     pool_item M \<and> member_item M \<and> thread_item M \<and> sub \<notin> fst ` set (threadpool_threadlist st) \<and> sub \<noteq> 0"

definition rename :: "string option \<Rightarrow> u64 \<Rightarrow> tp_state \<Rightarrow> tp_state" where
  "rename name this st = (case name of Some n \<Rightarrow> st\<lparr>names := (names st)(this := n)\<rparr> | None \<Rightarrow> st)"

lemma create_known:
  assumes ok: "create_ok M got sub t q st"
    and tp: "map_of (threadpool_threadlist st) this = Some tt" "threads st tt = Some tp"
    and pool: "pools st (td_pool tp) = Some p" "td_pool tp \<noteq> 0" "sub \<notin> fst ` set (threadlist p)"
  shows "amthreadpool_pthread_create_name M got (0, sub) this routine arg name st =
    Some (0, Some sub, rename name this (st
      \<lparr>pools := (pools st)(td_pool tp \<mapsto> p\<lparr>threadlist := threadlist p @ [(sub, t)]\<rparr>),
       threadpool_threadlist := threadpool_threadlist st @ [(sub, t)],
       threads := (threads st)(t \<mapsto> (new_thread_data this routine arg)
         \<lparr>td_pid := sub, ppid := copy_ppid 0 (ppid tp) (ppid (new_thread_data this routine arg)),
          td_pool := td_pool tp, thread_inited := True, signals := 1\<rparr>)\<rparr>))"
proof -
  have "tt \<noteq> t" using ok tp(2) by (auto simp: create_ok_def)
  then show ?thesis
    using assms
    by (simp add: amthreadpool_pthread_create_name_def create_ok_def malloc_at_def amthreadpool_start_thread_def
        update_thread_def amthreadpool_findthead_thread_data_def amthreadpool_pool_add_thread_def kl_add_def
        new_thread_data_def rename_def Let_def cong: option.case_cong)
qed

lemma create_unknown:
  assumes ok: "create_ok M got sub t q st"
    and new: "map_of (threadpool_threadlist st) this = None" "sub \<notin> fst ` set (threadpool_list st)"
  shows "amthreadpool_pthread_create_name M got (0, sub) this routine arg name st =
    Some (0, Some sub, rename name this (st
      \<lparr>pools := (pools st)(q \<mapsto> \<lparr>pool_pid = sub, threadlist = []\<rparr>),
       threadpool_list := threadpool_list st @ [(sub, q)],
       threadpool_threadlist := threadpool_threadlist st @ [(sub, t)],
       threads := (threads st)(t \<mapsto> (new_thread_data this routine arg)
         \<lparr>td_pid := sub, td_pool := q, thread_inited := True, signals := 1\<rparr>)\<rparr>))"
  using assms
  by (simp add: amthreadpool_pthread_create_name_def create_ok_def malloc_at_def amthreadpool_start_thread_def
      update_thread_def amthreadpool_findthead_thread_data_def amthreadpool_pool_add_thread_def
      amthreadpool_create_pool_def kl_add_def new_thread_data_def rename_def Let_def cong: option.case_cong)

lemma rename_inv [simp]: "tp_inv (rename name this st) = tp_inv st"
  by (cases name) (simp_all add: rename_def tp_inv_def thread_ok_def pool_ok_def member_ok_def)

lemma inv_thread:
  assumes "tp_inv st" and "map_of (threadpool_threadlist st) pid = Some t"
  obtains td p where "threads st t = Some td" "td_pid td = pid" "length (ppid td) = 8"
    "pools st (td_pool td) = Some p" "td_pool td \<noteq> 0" "pool_ok st (td_pool td) p"
    "pool_pid p = pid \<or> (pid, t) \<in> set (threadlist p)"
proof -
  have "(pid, t) \<in> set (threadpool_threadlist st)" using assms(2) by (rule map_of_SomeD)
  with assms(1) have "thread_ok st pid t" by (auto simp: tp_inv_def)
  then obtain td p where td: "threads st t = Some td" "td_pid td = pid" "length (ppid td) = 8"
    "pools st (td_pool td) = Some p" "pool_pid p = pid \<or> (pid, t) \<in> set (threadlist p)"
    by (auto simp: thread_ok_def)
  moreover have "pool_ok st (td_pool td) p" "td_pool td \<noteq> 0"
    using assms(1) td(4) by (auto simp: tp_inv_def)
  ultimately show thesis using that by blast
qed

lemma inv_unused:
  assumes "tp_inv st" and "threads st t = None"
  shows "t \<notin> snd ` set (threadpool_threadlist st)"
proof
  assume "t \<in> snd ` set (threadpool_threadlist st)"
  then obtain pid where "(pid, t) \<in> set (threadpool_threadlist st)" by auto
  then have "thread_ok st pid t" using assms(1) by (auto simp: tp_inv_def)
  with assms(2) show False by (simp add: thread_ok_def)
qed

lemma inv_new_pid:
  assumes "tp_inv st" and "sub \<notin> fst ` set (threadpool_threadlist st)"
  shows "sub \<notin> fst ` set (threadpool_list st)" "pools st q = Some p \<Longrightarrow> sub \<notin> fst ` set (threadlist p)"
    "pools st q = Some p \<Longrightarrow> pool_pid p \<noteq> sub"
proof -
  have ok: "pool_ok st q p" if "pools st q = Some p" for q p using assms(1) that by (auto simp: tp_inv_def)
  have pid: "pool_pid p \<noteq> sub" if "pools st q = Some p" for q p
    using ok [OF that] assms(2) by (auto simp: pool_ok_def member_ok_def image_iff)
  then show "pools st q = Some p \<Longrightarrow> pool_pid p \<noteq> sub" .
  show "pools st q = Some p \<Longrightarrow> sub \<notin> fst ` set (threadlist p)"
    using ok assms(2) by (fastforce simp: pool_ok_def member_ok_def image_iff)
  show "sub \<notin> fst ` set (threadpool_list st)"
    using pid assms(1) by (fastforce simp: tp_inv_def)
qed

lemma member_ok_mono:
  assumes "member_ok st q pid t'" and "threads st t = None"
    and "threads st' = (threads st)(t \<mapsto> td)" and "threadpool_threadlist st' = threadpool_threadlist st @ [(sub, t)]"
  shows "member_ok st' q pid t'"
  using assms by (auto simp: member_ok_def)

lemma create_known_inv:
  assumes inv: "tp_inv st" and ok: "create_ok M got sub t q st"
    and tp: "map_of (threadpool_threadlist st) this = Some tt" "threads st tt = Some tp" "pools st (td_pool tp) = Some p"
    and td: "td_pid td = sub" "length (ppid td) = 8" "td_pool td = td_pool tp"
  shows "tp_inv (st\<lparr>pools := (pools st)(td_pool tp \<mapsto> p\<lparr>threadlist := threadlist p @ [(sub, t)]\<rparr>),
       threadpool_threadlist := threadpool_threadlist st @ [(sub, t)], threads := (threads st)(t \<mapsto> td)\<rparr>)"
    (is "tp_inv ?st")
proof -
  have t: "threads st t = None" and sub: "sub \<notin> fst ` set (threadpool_threadlist st)"
    using ok by (simp_all add: create_ok_def)
  note unused = inv_unused [OF inv t] and new = inv_new_pid [OF inv sub]
  have mem: "member_ok ?st q' pid t'" if "member_ok st q' pid t'" for q' pid t'
    using that t by (rule member_ok_mono) simp_all
  have new_mem: "member_ok ?st (td_pool tp) sub t" using td by (simp add: member_ok_def)
  show ?thesis
  proof (rule tp_invI)
    show "distinct (map fst (threadpool_threadlist ?st))" "distinct (map snd (threadpool_threadlist ?st))"
      "distinct (map fst (threadpool_list ?st))" "pools ?st 0 = None"
      using inv sub unused tp(3) by (auto simp: tp_inv_def)
  next
    fix pid t'
    assume listed: "(pid, t') \<in> set (threadpool_threadlist ?st)"
    show "thread_ok ?st pid t'"
    proof (cases "t' = t")
      case True
      then have "pid = sub" using listed unused by (auto simp: image_iff)
      then show ?thesis using True td tp(3) by (auto simp: thread_ok_def)
    next
      case False
      then have "thread_ok st pid t'" using inv listed by (auto simp: tp_inv_def)
      then show ?thesis using False tp(3) by (auto simp: thread_ok_def)
    qed
  next
    fix q' p'
    assume p': "pools ?st q' = Some p'"
    show "pool_ok ?st q' p'"
    proof (cases "q' = td_pool tp")
      case True
      have "pool_ok st (td_pool tp) p" using inv tp(3) by (auto simp: tp_inv_def)
      moreover have "p' = p\<lparr>threadlist := threadlist p @ [(sub, t)]\<rparr>" using p' True by simp
      ultimately show ?thesis
        using True mem new_mem new(2,3) [OF tp(3)] by (auto simp: pool_ok_def)
    next
      case False
      then have "pool_ok st q' p'" using inv p' by (auto simp: tp_inv_def)
      then show ?thesis using mem by (auto simp: pool_ok_def)
    qed
  next
    fix pid q'
    assume "(pid, q') \<in> set (threadpool_list ?st)"
    then have "\<exists>p'. pools st q' = Some p' \<and> pool_pid p' = pid" using inv by (auto simp: tp_inv_def)
    then show "\<exists>p'. pools ?st q' = Some p' \<and> pool_pid p' = pid"
      using tp(3) by (cases "q' = td_pool tp") auto
  qed
qed

lemma create_unknown_inv:
  assumes inv: "tp_inv st" and ok: "create_ok M got sub t q st"
    and td: "td_pid td = sub" "length (ppid td) = 8" "td_pool td = q"
  shows "tp_inv (st\<lparr>pools := (pools st)(q \<mapsto> \<lparr>pool_pid = sub, threadlist = []\<rparr>),
       threadpool_list := threadpool_list st @ [(sub, q)],
       threadpool_threadlist := threadpool_threadlist st @ [(sub, t)], threads := (threads st)(t \<mapsto> td)\<rparr>)"
    (is "tp_inv ?st")
proof -
  have t: "threads st t = None" and sub: "sub \<notin> fst ` set (threadpool_threadlist st)" and q: "pools st q = None" "q \<noteq> 0"
    using ok by (simp_all add: create_ok_def)
  note unused = inv_unused [OF inv t] and new = inv_new_pid [OF inv sub]
  have mem: "member_ok ?st q' pid t'" if "member_ok st q' pid t'" for q' pid t'
    using that t by (rule member_ok_mono) simp_all
  have new_mem: "member_ok ?st q sub t" using td by (simp add: member_ok_def)
  show ?thesis
  proof (rule tp_invI)
    show "distinct (map fst (threadpool_threadlist ?st))" "distinct (map snd (threadpool_threadlist ?st))"
      "distinct (map fst (threadpool_list ?st))" "pools ?st 0 = None"
      using inv sub unused new(1) q(2) by (auto simp: tp_inv_def)
  next
    fix pid t'
    assume listed: "(pid, t') \<in> set (threadpool_threadlist ?st)"
    show "thread_ok ?st pid t'"
    proof (cases "t' = t")
      case True
      then have "pid = sub" using listed unused by (auto simp: image_iff)
      then show ?thesis using True td by (auto simp: thread_ok_def)
    next
      case False
      then have "thread_ok st pid t'" using inv listed by (auto simp: tp_inv_def)
      then show ?thesis using False q(1) by (fastforce simp: thread_ok_def)
    qed
  next
    fix q' p'
    assume p': "pools ?st q' = Some p'"
    show "pool_ok ?st q' p'"
    proof (cases "q' = q")
      case True
      then show ?thesis using p' new_mem by (auto simp: pool_ok_def)
    next
      case False
      then have "pool_ok st q' p'" using inv p' by (auto simp: tp_inv_def)
      then show ?thesis using mem by (auto simp: pool_ok_def)
    qed
  next
    fix pid q'
    assume "(pid, q') \<in> set (threadpool_list ?st)"
    then consider "pid = sub" "q' = q" | "\<exists>p'. pools st q' = Some p' \<and> pool_pid p' = pid"
      using inv by (auto simp: tp_inv_def)
    then show "\<exists>p'. pools ?st q' = Some p' \<and> pool_pid p' = pid"
      using q(1) by cases (auto split: if_splits)
  qed
qed

section \<open>Joining a thread\<close>

text \<open>A thread may be joined when the pool it owns, if any, has no other members.\<close>

definition childless :: "u64 \<Rightarrow> tp_state \<Rightarrow> bool" where
  "childless pid st \<longleftrightarrow> (\<forall>q p. pools st q = Some p \<longrightarrow> pool_pid p = pid \<longrightarrow> threadlist p = [])"

lemma inv_distinct:
  assumes "tp_inv st"
  shows "(pid, t) \<in> set (threadpool_threadlist st) \<Longrightarrow> (pid, t') \<in> set (threadpool_threadlist st) \<Longrightarrow> t = t'"
    "(pid, t) \<in> set (threadpool_threadlist st) \<Longrightarrow> (pid', t) \<in> set (threadpool_threadlist st) \<Longrightarrow> pid = pid'"
    "(pid, q) \<in> set (threadpool_list st) \<Longrightarrow> (pid, q') \<in> set (threadpool_list st) \<Longrightarrow> q = q'"
proof -
  have d: "distinct (map fst (threadpool_threadlist st))" "distinct (map snd (threadpool_threadlist st))"
    "distinct (map fst (threadpool_list st))" using assms by (simp_all add: tp_inv_def)
  show "(pid, t) \<in> set (threadpool_threadlist st) \<Longrightarrow> (pid, t') \<in> set (threadpool_threadlist st) \<Longrightarrow> t = t'"
    using d(1) by (rule eq_key_imp_eq_value)
  show "(pid, t) \<in> set (threadpool_threadlist st) \<Longrightarrow> (pid', t) \<in> set (threadpool_threadlist st) \<Longrightarrow> pid = pid'"
    using d(2) by (auto simp: distinct_map dest: inj_onD [of snd _ "(pid, t)" "(pid', t)"])
  show "(pid, q) \<in> set (threadpool_list st) \<Longrightarrow> (pid, q') \<in> set (threadpool_list st) \<Longrightarrow> q = q'"
    using d(3) by (rule eq_key_imp_eq_value)
qed

lemma join_owner:
  assumes inv: "tp_inv st" and t: "map_of (threadpool_threadlist st) pid = Some t" "threads st t = Some td"
    and pool: "pools st (td_pool td) = Some p" "pool_pid p = pid"
  shows "amthreadpool_pool_del_thread pid st = Some (0, st
      \<lparr>threadpool_threadlist := kl_drop pid (threadpool_threadlist st),
       threads := (threads st)(t := None), threadpool_list := kl_drop pid (threadpool_list st),
       pools := (pools st)(td_pool td := None)\<rparr>)"
proof -
  have "(pid, td_pool td) \<in> set (threadpool_list st)" "distinct (map fst (threadpool_list st))"
    using inv pool by (auto simp: tp_inv_def pool_ok_def)
  then have "map_of (threadpool_list st) pid = Some (td_pool td)" by simp
  then show ?thesis
    using t pool by (simp add: amthreadpool_pool_del_thread_def amthreadpool_release_def Let_def)
qed

lemma join_owner_inv:
  assumes inv: "tp_inv st" and t: "map_of (threadpool_threadlist st) pid = Some t" "threads st t = Some td"
    and pool: "pools st (td_pool td) = Some p" "pool_pid p = pid" "threadlist p = []"
  shows "tp_inv (st
      \<lparr>threadpool_threadlist := kl_drop pid (threadpool_threadlist st),
       threads := (threads st)(t := None), threadpool_list := kl_drop pid (threadpool_list st),
       pools := (pools st)(td_pool td := None)\<rparr>)" (is "tp_inv ?st")
proof -
  let ?q = "td_pool td"
  have d: "distinct (map fst (threadpool_threadlist st))" "distinct (map snd (threadpool_threadlist st))"
    "distinct (map fst (threadpool_list st))" "pools st 0 = None" using inv by (simp_all add: tp_inv_def)
  have listed: "(pid, t) \<in> set (threadpool_threadlist st)" using t(1) by (rule map_of_SomeD)
  have q: "(pid, ?q) \<in> set (threadpool_list st)" using inv pool by (auto simp: tp_inv_def pool_ok_def)
  have mem: "member_ok ?st q' pid' t'" if "member_ok st q' pid' t'" "q' \<noteq> ?q" for q' pid' t'
  proof -
    have "t' \<noteq> t" using that t(2) by (auto simp: member_ok_def)
    moreover from this have "pid' \<noteq> pid" using that listed inv_distinct(1) [OF inv] by (auto simp: member_ok_def)
    ultimately show ?thesis using that d(1) by (simp add: member_ok_def in_kl_drop)
  qed
  show ?thesis
  proof (rule tp_invI)
    show "distinct (map fst (threadpool_threadlist ?st))" "distinct (map snd (threadpool_threadlist ?st))"
      "distinct (map fst (threadpool_list ?st))" "pools ?st 0 = None"
      using d by (simp_all add: distinct_kl_drop distinct_snd_kl_drop)
  next
    fix pid' t'
    assume "(pid', t') \<in> set (threadpool_threadlist ?st)"
    then have in': "(pid', t') \<in> set (threadpool_threadlist st)" "pid' \<noteq> pid" using d(1) by (simp_all add: in_kl_drop)
    have "t' \<noteq> t" using in' listed inv_distinct(2) [OF inv] by blast
    have "thread_ok st pid' t'" using inv in'(1) by (auto simp: tp_inv_def)
    then obtain td' p' where td': "threads st t' = Some td'" "td_pid td' = pid'" "length (ppid td') = 8"
      "pools st (td_pool td') = Some p'" "pool_pid p' = pid' \<or> (pid', t') \<in> set (threadlist p')"
      by (auto simp: thread_ok_def)
    then have "td_pool td' \<noteq> ?q" using pool in'(2) by auto
    with td' \<open>t' \<noteq> t\<close> show "thread_ok ?st pid' t'" by (auto simp: thread_ok_def)
  next
    fix q' p'
    assume "pools ?st q' = Some p'"
    then have p': "pools st q' = Some p'" "q' \<noteq> ?q" by (simp_all split: if_splits)
    then have "pool_ok st q' p'" using inv by (auto simp: tp_inv_def)
    moreover from this have "pool_pid p' \<noteq> pid" using q p'(2) inv_distinct(3) [OF inv] by (auto simp: pool_ok_def)
    ultimately show "pool_ok ?st q' p'" using mem [OF _ p'(2)] d(3) by (auto simp: pool_ok_def in_kl_drop)
  next
    fix pid' q'
    assume "(pid', q') \<in> set (threadpool_list ?st)"
    then have in': "(pid', q') \<in> set (threadpool_list st)" "pid' \<noteq> pid" using d(3) by (simp_all add: in_kl_drop)
    then obtain p' where "pools st q' = Some p'" "pool_pid p' = pid'" using inv by (auto simp: tp_inv_def)
    then show "\<exists>p'. pools ?st q' = Some p' \<and> pool_pid p' = pid'" using pool(1,2) in'(2) by auto
  qed
qed

lemma join_member_inv:
  assumes inv: "tp_inv st" and t: "map_of (threadpool_threadlist st) pid = Some t" "threads st t = Some td"
    and pool: "pools st (td_pool td) = Some p" "pool_pid p \<noteq> pid"
  shows "tp_inv (st
      \<lparr>threadpool_threadlist := kl_drop pid (threadpool_threadlist st),
       pools := (pools st)(td_pool td \<mapsto> p\<lparr>threadlist := kl_drop pid (threadlist p)\<rparr>),
       threads := (threads st)(t := None)\<rparr>)" (is "tp_inv ?st")
proof -
  let ?q = "td_pool td"
  have d: "distinct (map fst (threadpool_threadlist st))" "distinct (map snd (threadpool_threadlist st))"
    "distinct (map fst (threadpool_list st))" "pools st 0 = None" using inv by (simp_all add: tp_inv_def)
  have listed: "(pid, t) \<in> set (threadpool_threadlist st)" using t(1) by (rule map_of_SomeD)
  have ok: "pool_ok st ?q p" using inv pool by (auto simp: tp_inv_def)
  have mem: "member_ok ?st q' pid' t'" if "member_ok st q' pid' t'" "pid' \<noteq> pid" for q' pid' t'
  proof -
    have "t' \<noteq> t" using that listed inv_distinct(2) [OF inv] by (auto simp: member_ok_def)
    then show ?thesis using that d(1) by (simp add: member_ok_def in_kl_drop)
  qed
  show ?thesis
  proof (rule tp_invI)
    show "distinct (map fst (threadpool_threadlist ?st))" "distinct (map snd (threadpool_threadlist ?st))"
      "distinct (map fst (threadpool_list ?st))" "pools ?st 0 = None"
      using d pool(1) by (auto simp: distinct_kl_drop distinct_snd_kl_drop)
  next
    fix pid' t'
    assume "(pid', t') \<in> set (threadpool_threadlist ?st)"
    then have in': "(pid', t') \<in> set (threadpool_threadlist st)" "pid' \<noteq> pid" using d(1) by (simp_all add: in_kl_drop)
    have ne: "t' \<noteq> t" using in' listed inv_distinct(2) [OF inv] by blast
    have "thread_ok st pid' t'" using inv in'(1) by (auto simp: tp_inv_def)
    then show "thread_ok ?st pid' t'"
      using ne pool(1) in'(2) ok by (auto simp: thread_ok_def pool_ok_def in_kl_drop)
  next
    fix q' p'
    assume p': "pools ?st q' = Some p'"
    show "pool_ok ?st q' p'"
    proof (cases "q' = ?q")
      case True
      with p' have "p' = p\<lparr>threadlist := kl_drop pid (threadlist p)\<rparr>" by simp
      then show ?thesis
        using ok mem pool(2) True by (fastforce simp: pool_ok_def in_kl_drop distinct_kl_drop keys_kl_drop)
    next
      case False
      then have ok': "pool_ok st q' p'" using p' inv by (auto simp: tp_inv_def)
      have ne: "pid' \<noteq> pid" if "member_ok st q' pid' t'" for pid' t'
        using that False t(2) inv_distinct(1) [OF inv listed, of t'] by (auto simp: member_ok_def)
      show ?thesis using ok' mem ne by (fastforce simp: pool_ok_def)
    qed
  next
    fix pid' q'
    assume "(pid', q') \<in> set (threadpool_list ?st)"
    then have "\<exists>p'. pools st q' = Some p' \<and> pool_pid p' = pid'" using inv by (auto simp: tp_inv_def)
    then show "\<exists>p'. pools ?st q' = Some p' \<and> pool_pid p' = pid'" using pool(1) by (cases "q' = ?q") auto
  qed
qed

lemma join_inv:
  assumes inv: "tp_inv st" and alone: "childless pid st"
  shows "\<exists>st'. amthreadpool_pthread_join joined pid st = Some (joined, st') \<and> tp_inv st' \<and>
    threadpool_threadlist st' = kl_drop pid (threadpool_threadlist st)"
proof (cases "map_of (threadpool_threadlist st) pid")
  case None
  then have "pid \<notin> fst ` set (threadpool_threadlist st)" by (simp add: map_of_eq_None_iff)
  then show ?thesis
    using None inv by (simp add: amthreadpool_pthread_join_def amthreadpool_pool_del_thread_def kl_drop_absent)
next
  case (Some t)
  with inv obtain td p where td: "threads st t = Some td" "pools st (td_pool td) = Some p"
    by (rule inv_thread)
  show ?thesis
  proof (cases "pool_pid p = pid")
    case True
    then have "threadlist p = []" using alone td(2) by (auto simp: childless_def)
    then show ?thesis
      using join_owner [OF inv Some td True] join_owner_inv [OF inv Some td True]
      by (simp add: amthreadpool_pthread_join_def)
  next
    case False
    then show ?thesis
      using join_member_inv [OF inv Some td False] Some td
      by (simp add: amthreadpool_pthread_join_def amthreadpool_pool_del_thread_def Let_def)
  qed
qed

end
