(* ===== verification/Thread_Pool_Properties.thy ===== *)
theory Thread_Pool_Properties
  imports Thread_Pool_Lemmas
begin

text \<open>
  What the thread pool guarantees as long as threads are joined children first, and what goes
  wrong otherwise.
\<close>

section \<open>Runs\<close>

definition keeps_identity :: "(threadpool_thread_data \<Rightarrow> threadpool_thread_data) \<Rightarrow> bool" where
  "keeps_identity f \<longleftrightarrow> (\<forall>td. td_pid (f td) = td_pid td \<and> ppid (f td) = ppid td \<and> td_pool (f td) = td_pool td)"

lemma update_thread_inv:
  assumes "update_thread t f st = Some st'" and "keeps_identity f" and inv: "tp_inv st"
  shows "tp_inv st'"
proof -
  obtain td where st': "threads st t = Some td" "st' = st\<lparr>threads := (threads st)(t \<mapsto> f td)\<rparr>"
    using assms(1) by (auto simp: update_thread_def split: option.splits)
  have f: "td_pid (f td) = td_pid td" "ppid (f td) = ppid td" "td_pool (f td) = td_pool td"
    using assms(2) by (simp_all add: keeps_identity_def)
  have "thread_ok st' pid t' = thread_ok st pid t'" "member_ok st' q pid t' = member_ok st q pid t'" for q pid t'
    using st' f by (auto simp: thread_ok_def member_ok_def)
  then show ?thesis using inv st'(2) by (simp add: tp_inv_def pool_ok_def)
qed

lemma wake_t_identity: "keeps_identity (\<lambda>td. td\<lparr>on_required_exit := c, signals := signals td + 1\<rparr>)"
  "keeps_identity (\<lambda>td. td\<lparr>on_required_exit := on_required_exit td - 1\<rparr>)"
  by (simp_all add: keeps_identity_def)

lemma wake_t_some:
  assumes "threads st t \<noteq> None" and "tp_inv st"
  shows "\<exists>st'. amthreadpool_thread_wake_t t c st = Some st' \<and> tp_inv st' \<and> dom (threads st') = dom (threads st)"
proof -
  obtain td where "threads st t = Some td" using assms(1) by blast
  then obtain st' where st': "amthreadpool_thread_wake_t t c st = Some st'" "dom (threads st') = dom (threads st)"
    by (auto simp: amthreadpool_thread_wake_t_def update_thread_def)
  then have "tp_inv st'"
    using update_thread_inv [OF _ wake_t_identity(1) assms(2)] by (simp add: amthreadpool_thread_wake_t_def)
  with st' show ?thesis by blast
qed

lemma wake_all_some:
  "\<forall>e\<in>set es. threads st (snd e) \<noteq> None \<Longrightarrow> tp_inv st \<Longrightarrow>
   \<exists>st'. wake_all es c st = Some st' \<and> tp_inv st' \<and> dom (threads st') = dom (threads st)"
proof (induction es arbitrary: st)
  case (Cons e es)
  then obtain st1 where st1: "amthreadpool_thread_wake_t (snd e) c st = Some st1" "tp_inv st1"
    "dom (threads st1) = dom (threads st)"
    using wake_t_some [of st "snd e" c] by auto
  have "\<forall>e\<in>set es. threads st1 (snd e) \<noteq> None"
  proof
    fix e' assume "e' \<in> set es"
    then have "snd e' \<in> dom (threads st)" using Cons.prems(1) by auto
    then show "threads st1 (snd e') \<noteq> None" using st1(3) by (metis domIff)
  qed
  from Cons.IH [OF this st1(2)] st1 show ?case by auto
qed simp

lemma members_live:
  "pool_ok st q p \<Longrightarrow> \<forall>e\<in>set (threadlist p). threads st (snd e) \<noteq> None"
  by (fastforce simp: pool_ok_def member_ok_def)

lemma cancel_some:
  assumes inv: "tp_inv st"
  shows "\<exists>st'. amthreadpool_pool_thread_cancel_l1 pid c allthreads st = Some (0, st') \<and> tp_inv st'"
proof (cases "map_of (threadpool_threadlist st) pid")
  case None
  then show ?thesis
    using inv by (simp add: amthreadpool_pool_thread_cancel_l1_def amthreadpool_findthead_thread_data_def)
next
  case (Some t)
  with inv obtain td p where td: "threads st t = Some td" "pools st (td_pool td) = Some p" "pool_ok st (td_pool td) p"
    by (rule inv_thread)
  obtain st1 where all: "wake_all (threadlist p) c st = Some st1" "tp_inv st1" "dom (threads st1) = dom (threads st)"
    using wake_all_some [OF members_live [OF td(3)] inv] by blast
  have "threads st1 t \<noteq> None" using all(3) td(1) by (metis domIff option.distinct(1))
  then obtain st2 where st2: "amthreadpool_thread_wake_t t c st1 = Some st2" "tp_inv st2"
    using wake_t_some [OF _ all(2)] by blast
  obtain st3 where st3: "amthreadpool_thread_wake_t t c st = Some st3" "tp_inv st3"
    using wake_t_some [OF _ inv] td(1) by fastforce
  show ?thesis
    using Some td all st2 st3
    by (simp add: amthreadpool_pool_thread_cancel_l1_def amthreadpool_findthead_thread_data_def)
qed

lemma usleep_some:
  assumes inv: "tp_inv st"
  shows "\<exists>r d st'. amthreadpool_thread_usleep_in this us now waited st = Some (r, d, st') \<and> tp_inv st'"
proof (cases "map_of (threadpool_threadlist st) this")
  case None
  then show ?thesis
    using inv by (simp add: amthreadpool_thread_usleep_in_def amthreadpool_findthead_thread_data_def)
next
  case (Some t)
  with inv obtain td p where "threads st t = Some td" by (rule inv_thread)
  then show ?thesis
    using Some inv update_thread_inv [OF _ wake_t_identity(2) inv, of t]
    by (auto simp: amthreadpool_thread_usleep_in_def amthreadpool_findthead_thread_data_def update_thread_def Let_def)
qed

lemma create_some:
  assumes inv: "tp_inv st" and ok: "create_ok M got sub t q st"
  shows "\<exists>st'. amthreadpool_pthread_create_name M got (0, sub) this routine arg name st = Some (0, Some sub, st') \<and>
    tp_inv st' \<and> map_of (threadpool_threadlist st') sub = Some t"
proof -
  have sub: "sub \<notin> fst ` set (threadpool_threadlist st)" using ok by (simp add: create_ok_def)
  then have find: "map_of (threadpool_threadlist st @ [(sub, t)]) sub = Some t"
    by (auto simp: map_add_def map_of_eq_None_iff [THEN iffD2])
  have names: "threadpool_threadlist (rename name this s) = threadpool_threadlist s" for s
    by (cases name) (simp_all add: rename_def)
  show ?thesis
  proof (cases "map_of (threadpool_threadlist st) this")
    case None
    have "length (ppid (new_thread_data this routine arg)) = 8" by (simp add: new_thread_data_def MAX_THREAD_DEPTH_def)
    then show ?thesis
      using create_unknown [OF ok None inv_new_pid(1) [OF inv sub]] find
        create_unknown_inv [OF inv ok, of "(new_thread_data this routine arg)
         \<lparr>td_pid := sub, td_pool := q, thread_inited := True, signals := 1\<rparr>"]
      by (simp add: names)
  next
    case (Some tt)
    with inv obtain tp p where tp: "threads st tt = Some tp" "length (ppid tp) = 8"
      "pools st (td_pool tp) = Some p" "td_pool tp \<noteq> 0" by (rule inv_thread)
    have "length (ppid (new_thread_data this routine arg)) = 8" by (simp add: new_thread_data_def MAX_THREAD_DEPTH_def)
    then show ?thesis
      using create_known [OF ok Some tp(1,3,4) inv_new_pid(2) [OF inv sub tp(3)]] find
        create_known_inv [OF inv ok Some tp(1,3), of "(new_thread_data this routine arg)
         \<lparr>td_pid := sub, ppid := copy_ppid 0 (ppid tp) (ppid (new_thread_data this routine arg)),
          td_pool := td_pool tp, thread_inited := True, signals := 1\<rparr>"]
      by (simp add: names length_copy_ppid)
  qed
qed

inductive tp_reach :: "tp_state \<Rightarrow> tp_state \<Rightarrow> bool" for st0 where
  start: "tp_reach st0 st0"
| create: "tp_reach st0 st \<Longrightarrow> create_ok M got sub t q st \<Longrightarrow>
    amthreadpool_pthread_create_name M got (0, sub) this routine arg name st = Some (r, n, st') \<Longrightarrow> tp_reach st0 st'"
| join: "tp_reach st0 st \<Longrightarrow> childless pid st \<Longrightarrow> amthreadpool_pthread_join joined pid st = Some (r, st') \<Longrightarrow> tp_reach st0 st'"
| cancel: "tp_reach st0 st \<Longrightarrow> amthreadpool_pool_thread_cancel_l1 pid c allthreads st = Some (r, st') \<Longrightarrow> tp_reach st0 st'"
| usleep: "tp_reach st0 st \<Longrightarrow> amthreadpool_thread_usleep_in this us now waited st = Some (r, d, st') \<Longrightarrow> tp_reach st0 st'"

lemma tp_reach_inv: "tp_reach st0 st \<Longrightarrow> tp_inv st0 \<Longrightarrow> tp_inv st"
proof (induction rule: tp_reach.induct)
  case (create st M got sub t q this routine arg name r n st')
  then show ?case using create_some [of st M got sub t q this routine arg name] by auto
next
  case (join st pid joined r st')
  then show ?case using join_inv [of st pid joined] by auto
next
  case (cancel st pid c allthreads r st')
  then show ?case using cancel_some [of st pid c allthreads] by auto
next
  case (usleep st this us now waited r d st')
  then show ?case using usleep_some [of st this us now waited] by auto
qed


definition ex_mallocs :: "u64 \<Rightarrow> mallocs" where
  "ex_mallocs q = \<lparr>block = Some q, pool_item = True, member_item = True, thread_item = True\<rparr>"

lemma ex_create_ok: "create_ok (ex_mallocs 200) (Some 100) 11 100 200 no_threads"
  by (simp add: create_ok_def ex_mallocs_def no_threads_def)


text \<open>
  Joining a pool owner before its members frees the pool under them: the join of the owner
  succeeds, and the join of a member that follows uses the freed pool.
\<close>

theorem join_owner_first_use_after_free:
  assumes inv: "tp_inv st" and owner: "map_of (threadpool_threadlist st) a = Some ta" "threads st ta = Some td"
    and pool: "pools st (td_pool td) = Some p" "pool_pid p = a" and member: "(b, tb) \<in> set (threadlist p)"
  shows "\<exists>st1. amthreadpool_pthread_join 0 a st = Some (0, st1) \<and> amthreadpool_pthread_join 0 b st1 = None"
proof -
  let ?st1 = "st\<lparr>threadpool_threadlist := kl_drop a (threadpool_threadlist st),
     threads := (threads st)(ta := None), threadpool_list := kl_drop a (threadpool_list st),
     pools := (pools st)(td_pool td := None)\<rparr>"
  have join: "amthreadpool_pthread_join 0 a st = Some (0, ?st1)"
    using join_owner [OF inv owner pool] by (simp add: amthreadpool_pthread_join_def)
  have "pool_ok st (td_pool td) p" using inv pool(1) by (auto simp: tp_inv_def)
  then obtain tdb where b: "(b, tb) \<in> set (threadpool_threadlist st)" "b \<noteq> a" "threads st tb = Some tdb"
    "td_pool tdb = td_pool td"
    using member pool(2) by (force simp: pool_ok_def member_ok_def)
  have d: "distinct (map fst (threadpool_threadlist st))" using inv by (simp add: tp_inv_def)
  have "map_of (threadpool_threadlist ?st1) b = Some tb" using b(1,2) d by (simp add: map_of_kl_drop)
  moreover have "tb \<noteq> ta" using b(1,2) inv_distinct(2) [OF inv] map_of_SomeD [OF owner(1)] by blast
  ultimately have "amthreadpool_pthread_join 0 b ?st1 = None"
    using b(3,4) by (simp add: amthreadpool_pthread_join_def amthreadpool_pool_del_thread_def)
  with join show ?thesis by blast
qed

definition ex_family :: tp_state where
  "ex_family = \<lparr>threadpool_list = [(11, 200)], threadpool_threadlist = [(11, 100), (12, 101)],
     threads = [100 \<mapsto> (new_thread_data 1 5 6)\<lparr>td_pid := 11, td_pool := 200\<rparr>,
                101 \<mapsto> (new_thread_data 11 5 6)\<lparr>td_pid := 12, td_pool := 200\<rparr>],
     pools = [200 \<mapsto> \<lparr>pool_pid = 11, threadlist = [(12, 101)]\<rparr>], names = (\<lambda>_. [])\<rparr>"

lemma ex_family_inv: "tp_inv ex_family"
  by (auto simp: tp_inv_def ex_family_def thread_ok_def pool_ok_def member_ok_def new_thread_data_def
      MAX_THREAD_DEPTH_def split: if_splits)

theorem join_owner_first_use_after_free_witness:
  "\<exists>st1. amthreadpool_pthread_join 0 11 ex_family = Some (0, st1) \<and> amthreadpool_pthread_join 0 12 st1 = None"
  by (rule join_owner_first_use_after_free [OF ex_family_inv, where ta = 100 and tb = 101 and
      td = "(new_thread_data 1 5 6)\<lparr>td_pid := 11, td_pool := 200\<rparr>" and p = "\<lparr>pool_pid = 11, threadlist = [(12, 101)]\<rparr>"])
    (simp_all add: ex_family_def new_thread_data_def)

text \<open>
  A thread created by a registered thread joins the pool of its creator and knows its
  ancestors: the creator first, then the creator's own recorded ancestors, up to eight.
\<close>

theorem created_thread_inherits:
  assumes inv: "tp_inv st" and ok: "create_ok M got sub t q st"
    and creator: "map_of (threadpool_threadlist st) this = Some tt" and tp: "threads st tt = Some tp"
    and call: "amthreadpool_pthread_create_name M got (0, sub) this routine arg name st = Some (r, n, st')"
  shows "\<exists>td. threads st' t = Some td \<and> td_pid td = sub \<and> thread_inited td \<and> td_pool td = td_pool tp \<and>
    ppid td ! 0 = this \<and>
    (\<forall>j. 1 \<le> j \<and> j < 8 \<longrightarrow> ppid td ! j = (if \<forall>k<j. ppid tp ! k \<noteq> 0 then ppid tp ! (j - 1) else 0)) \<and>
    (\<exists>p. pools st' (td_pool tp) = Some p \<and> (sub, t) \<in> set (threadlist p))"
proof -
  have sub: "sub \<notin> fst ` set (threadpool_threadlist st)" using ok by (simp add: create_ok_def)
  obtain tp' p where tp': "threads st tt = Some tp'" "length (ppid tp') = 8" "pools st (td_pool tp') = Some p" "td_pool tp' \<noteq> 0"
    using inv creator by (rule inv_thread)
  then have tp'': "length (ppid tp) = 8" "pools st (td_pool tp) = Some p" "td_pool tp \<noteq> 0" using tp by simp_all
  let ?new = "ppid (new_thread_data this routine arg)"
  have new: "length ?new = 8" "?new ! 0 = this" "\<And>j. 1 \<le> j \<Longrightarrow> j < 8 \<Longrightarrow> ?new ! j = 0"
    by (auto simp: new_thread_data_def MAX_THREAD_DEPTH_def nth_Cons')
  note created = create_known [OF ok creator tp tp''(2,3) inv_new_pid(2) [OF inv sub tp''(2)], of routine arg name]
  have "copy_ppid 0 (ppid tp) ?new ! j =
      (if 0 < j \<and> (\<forall>k<j. ppid tp ! k \<noteq> 0) then ppid tp ! (j - 1) else ?new ! j)" if "j < 8" for j
    using copy_ppid_nth [of 0 "ppid tp" ?new j] that tp''(1) new(1) by simp
  then show ?thesis
    using created call new(2,3) by (cases name) (auto simp: rename_def)
qed

theorem created_thread_inherits_witness:
  "\<exists>st' td. amthreadpool_pthread_create_name (ex_mallocs 201) (Some 102) (0, 13) 12 5 6 None ex_family = Some (0, Some 13, st') \<and>
     threads st' 102 = Some td \<and> td_pool td = 200 \<and> ppid td ! 0 = 12 \<and> ppid td ! 1 = 11"
proof -
  have ok: "create_ok (ex_mallocs 201) (Some 102) 13 102 201 ex_family"
    by (simp add: create_ok_def ex_mallocs_def ex_family_def)
  obtain st' where st': "amthreadpool_pthread_create_name (ex_mallocs 201) (Some 102) (0, 13) 12 5 6 None ex_family = Some (0, Some 13, st')"
    using create_some [OF ex_family_inv ok] by blast
  let ?tp = "(new_thread_data 11 5 6)\<lparr>td_pid := 12, td_pool := 200\<rparr>"
  have "map_of (threadpool_threadlist ex_family) 12 = Some 101" "threads ex_family 101 = Some ?tp"
    by (simp_all add: ex_family_def)
  from created_thread_inherits [OF ex_family_inv ok this st'] obtain td where
    td: "threads st' 102 = Some td" "td_pool td = td_pool ?tp" "ppid td ! 0 = 12"
      "\<forall>j. 1 \<le> j \<and> j < 8 \<longrightarrow> ppid td ! j = (if \<forall>k<j. ppid ?tp ! k \<noteq> 0 then ppid ?tp ! (j - 1) else 0)"
    by blast
  from td(4) [rule_format, of 1] have "ppid td ! 1 = 11" by (simp add: new_thread_data_def)
  with st' td show ?thesis by (simp add: new_thread_data_def)
qed

section \<open>Cancelling and sleeping\<close>

definition exit_flag :: "tp_state \<Rightarrow> u64 \<Rightarrow> int option" where
  "exit_flag st t = map_option on_required_exit (threads st t)"

lemma wake_t_flag:
  "amthreadpool_thread_wake_t t c st = Some st' \<Longrightarrow>
   exit_flag st' = (exit_flag st)(t \<mapsto> c) \<and> threadpool_threadlist st' = threadpool_threadlist st \<and> pools st' = pools st"
  by (auto simp: amthreadpool_thread_wake_t_def update_thread_def exit_flag_def fun_eq_iff split: option.splits)

lemma wake_all_flag:
  "wake_all es c st = Some st' \<Longrightarrow>
   exit_flag st' = (\<lambda>t. if t \<in> snd ` set es then Some c else exit_flag st t) \<and>
   threadpool_threadlist st' = threadpool_threadlist st"
proof (induction es arbitrary: st)
  case (Cons e es)
  then obtain st1 where st1: "amthreadpool_thread_wake_t (snd e) c st = Some st1" "wake_all es c st1 = Some st'"
    by (auto simp: bind_eq_Some_conv)
  from Cons.IH [OF st1(2)] wake_t_flag [OF st1(1)] show ?case by (auto simp: fun_eq_iff)
qed (auto simp: fun_eq_iff)

text \<open>
  C24. Cancelling the pool of its owner asks exactly the owner and the members of the pool to
  exit, and no other thread; uncancelling withdraws exactly these requests.
\<close>

theorem pool_cancel_reaches_members:
  assumes inv: "tp_inv st" and owner: "map_of (threadpool_threadlist st) pid = Some t" "threads st t = Some td"
    and pool: "pools st (td_pool td) = Some p" "pool_pid p = pid"
  shows "\<exists>st1 st2. amthreadpool_pool_thread_cancel pid st = Some (0, st1) \<and>
    amthreadpool_pool_thread_uncancel pid st = Some (0, st2) \<and>
    (\<forall>u. exit_flag st1 u = (if u = t \<or> u \<in> snd ` set (threadlist p) then Some 3 else exit_flag st u)) \<and>
    (\<forall>u. exit_flag st2 u = (if u = t \<or> u \<in> snd ` set (threadlist p) then Some 0 else exit_flag st u))"
proof -
  have nz: "td_pool td \<noteq> 0" using inv pool(1) by (auto simp: tp_inv_def)
  have eff: "\<exists>st'. amthreadpool_pool_thread_cancel_l1 pid c True st = Some (0, st') \<and>
      (\<forall>u. exit_flag st' u = (if u = t \<or> u \<in> snd ` set (threadlist p) then Some c else exit_flag st u))" for c
  proof -
    obtain st' where st': "amthreadpool_pool_thread_cancel_l1 pid c True st = Some (0, st')"
      using cancel_some [OF inv] by blast
    then obtain st1 where "wake_all (threadlist p) c st = Some st1" "amthreadpool_thread_wake_t t c st1 = Some st'"
      using owner pool nz
      by (auto simp: amthreadpool_pool_thread_cancel_l1_def amthreadpool_findthead_thread_data_def bind_eq_Some_conv)
    with st' wake_all_flag wake_t_flag show ?thesis by (intro exI [of _ st']) fastforce
  qed
  from eff [of 3] eff [of 0] show ?thesis
    by (auto simp: amthreadpool_pool_thread_cancel_def amthreadpool_pool_thread_uncancel_def)
qed

theorem pool_cancel_reaches_members_witness:
  "\<exists>st1. amthreadpool_pool_thread_cancel 11 ex_family = Some (0, st1) \<and> exit_flag st1 100 = Some 3 \<and> exit_flag st1 101 = Some 3"
proof -
  have owner: "map_of (threadpool_threadlist ex_family) 11 = Some 100"
    "threads ex_family 100 = Some ((new_thread_data 1 5 6)\<lparr>td_pid := 11, td_pool := 200\<rparr>)"
    by (simp_all add: ex_family_def)
  have pool: "pools ex_family (td_pool ((new_thread_data 1 5 6)\<lparr>td_pid := 11, td_pool := 200\<rparr>)) =
      Some \<lparr>pool_pid = 11, threadlist = [(12, 101)]\<rparr>"
    by (simp add: ex_family_def)
  from pool_cancel_reaches_members [OF ex_family_inv owner pool] show ?thesis by auto
qed

lemma pair_given: "\<exists>a b. x = (a, b) \<and> (a, b) = x"
  by (cases x) simp

text \<open>
  C25. A request to exit survives sleeping: each sleep of a thread with a pending request
  counts it down, but never below one, so the thread keeps being told to exit until the
  request is withdrawn; a sleep that counts down lasts at least a tenth of a second.
\<close>

theorem exit_request_survives_sleep:
  assumes "map_of (threadpool_threadlist st) this = Some t" and "threads st t = Some td" and "0 < on_required_exit td"
    and "this \<noteq> 0"
  shows "\<exists>d st'. amthreadpool_thread_usleep_in this us now waited st = Some (waited, Some d, st') \<and>
    exit_flag st' t = Some (max 1 (on_required_exit td - 1)) \<and>
    amthreadpool_on_require_exit this this st' = Some 1 \<and>
    d = sleep_deadline (if 1 < on_required_exit td then max us 100000 else us) (fst now) (snd now)"
  using assms
  by (auto simp: amthreadpool_thread_usleep_in_def amthreadpool_findthead_thread_data_def update_thread_def
      exit_flag_def amthreadpool_on_require_exit_def Let_def max_def pair_given)

theorem exit_request_survives_sleep_witness:
  "\<exists>st1 d st'. amthreadpool_thread_cancel 12 ex_family = Some (0, st1) \<and>
     amthreadpool_thread_usleep_in 12 500 (7, 999999) 110 st1 = Some (110, Some d, st') \<and>
     exit_flag st' 101 = Some 2 \<and> d = (8, 99999000)"
proof -
  let ?td = "(new_thread_data 11 5 6)\<lparr>td_pid := 12, td_pool := 200, on_required_exit := 3, signals := 1\<rparr>"
  let ?st1 = "ex_family\<lparr>threads := (threads ex_family)(101 \<mapsto> ?td)\<rparr>"
  have cancel: "amthreadpool_thread_cancel 12 ex_family = Some (0, ?st1)"
    by (simp add: amthreadpool_thread_cancel_def amthreadpool_pool_thread_cancel_l1_def
        amthreadpool_findthead_thread_data_def amthreadpool_thread_wake_t_def update_thread_def ex_family_def
        new_thread_data_def)
  have "map_of (threadpool_threadlist ?st1) 12 = Some 101" "threads ?st1 101 = Some ?td" by (simp_all add: ex_family_def)
  from exit_request_survives_sleep [OF this, of 500 "(7, 999999)" 110] cancel show ?thesis
    by (auto simp: sleep_deadline_def)
qed

lemma trunc_nonneg:
  fixes a b :: int
  assumes "0 \<le> a" "0 < b"
  shows "a sdiv b = a div b" and "a smod b = a mod b"
  using assms by (cases "a = 0"; simp add: signed_divide_int_def signed_modulo_int_def)+

text \<open>
  For a sleep time that is not negative and a proper time of day, the deadline handed to
  the timed wait is a proper time and lies exactly the sleep time after the current time.
\<close>

theorem sleep_deadline_exact:
  assumes "0 \<le> us" and "0 \<le> usec" "usec < 1000000" and "sleep_deadline us sec usec = (s, ns)"
  shows "0 \<le> ns \<and> ns < 1000000000 \<and> s * 1000000000 + ns = (sec * 1000000 + usec + us) * 1000"
proof -
  have "s = sec + (us + usec) div 1000000" "ns = ((us + usec) * 1000) mod 1000000000"
    using assms by (auto simp: sleep_deadline_def trunc_nonneg)
  moreover have "((us + usec) * 1000) mod 1000000000 = (us + usec) mod 1000000 * 1000"
    using mod_mult_mult2 [of "us + usec" 1000 1000000] by simp
  moreover obtain q r where "(us + usec) div 1000000 = q" "(us + usec) mod 1000000 = r" by blast
  moreover from this have "q * 1000000 + r = us + usec" "0 \<le> r" "r < 1000000"
    using div_mult_mod_eq [of "us + usec" 1000000] by auto
  ultimately show ?thesis by simp
qed

theorem sleep_deadline_exact_witness:
  "sleep_deadline 1500000 10 700000 = (12, 200000000) \<and> 12 * 1000000000 + 200000000 = (10 * 1000000 + 700000 + 1500000) * (1000 :: int)"
  using sleep_deadline_exact [of 1500000 700000 10 12 200000000] by (simp add: sleep_deadline_def)

text \<open>
  The name given for a new thread is set on the thread that creates it; the new thread
  keeps whatever name it had.
\<close>

theorem name_set_on_creator:
  assumes "tp_inv st" and "create_ok M got sub t q st" and "sub \<noteq> this"
  shows "\<exists>st'. amthreadpool_pthread_create_name M got (0, sub) this routine arg (Some n) st = Some (0, Some sub, st') \<and>
    names st' this = n \<and> names st' sub = names st sub"
proof -
  have sub: "sub \<notin> fst ` set (threadpool_threadlist st)" using assms(2) by (simp add: create_ok_def)
  show ?thesis
  proof (cases "map_of (threadpool_threadlist st) this")
    case None
    then show ?thesis
      using create_unknown [OF assms(2) None inv_new_pid(1) [OF assms(1) sub]] assms(3) by (simp add: rename_def)
  next
    case (Some tt)
    with assms(1) obtain tp p where tp: "threads st tt = Some tp" "pools st (td_pool tp) = Some p" "td_pool tp \<noteq> 0"
      by (rule inv_thread)
    show ?thesis
      using create_known [OF assms(2) Some tp inv_new_pid(2) [OF assms(1) sub tp(2)]] assms(3) by (simp add: rename_def)
  qed
qed

theorem name_set_on_creator_witness:
  "\<exists>st'. amthreadpool_pthread_create_name (ex_mallocs 200) (Some 100) (0, 11) 1 5 6 (Some ''worker'') no_threads
      = Some (0, Some 11, st') \<and> names st' 1 = ''worker'' \<and> names st' 11 = []"
  using name_set_on_creator [OF no_threads_inv ex_create_ok, of 1 5 6 "''worker''"] by (simp add: no_threads_def)

end
