(* ===== verification/Std_Map.thy ===== *)
theory Std_Map
  imports Prelude "HOL-Library.List_Lexorder" "HOL-Library.Char_ord" "HOL-Library.Signed_Division"
begin

text \<open>
  The C++ standard library as the power and the Wi-Fi code use it: ordered maps keyed by strings, kept as
  association lists in ascending order of the keys, and durations and time points of the
  steady clock as integers with the limits of their 64-bit representation.
\<close>

section \<open>Ordered maps\<close>

fun map_put :: "'k :: linorder \<Rightarrow> 'v \<Rightarrow> ('k \<times> 'v) list \<Rightarrow> ('k \<times> 'v) list" where
  "map_put k v [] = [(k, v)]"
| "map_put k v (e # m) =
     (if k < fst e then (k, v) # e # m else if k = fst e then (k, v) # m else e # map_put k v m)"

definition map_erase :: "'k \<Rightarrow> ('k \<times> 'v) list \<Rightarrow> ('k \<times> 'v) list" where
  "map_erase k m = filter (\<lambda>e. fst e \<noteq> k) m"

definition ordered :: "('k :: linorder \<times> 'v) list \<Rightarrow> bool" where
  "ordered m \<longleftrightarrow> sorted_wrt (<) (map fst m)"

lemma ordered_Nil [simp]: "ordered []"
  by (simp add: ordered_def)

lemma ordered_Cons [simp]: "ordered (e # m) \<longleftrightarrow> (\<forall>k\<in>fst ` set m. fst e < k) \<and> ordered m"
  by (auto simp: ordered_def)

lemma ordered_distinct: "ordered m \<Longrightarrow> distinct (map fst m)"
  by (induction m) auto

lemma keys_map_put [simp]: "fst ` set (map_put k v m) = insert k (fst ` set m)"
  by (induction m) auto

lemma ordered_map_put: "ordered m \<Longrightarrow> ordered (map_put k v m)"
  by (induction m) force+

lemma map_of_map_put: "ordered m \<Longrightarrow> map_of (map_put k v m) = (map_of m)(k \<mapsto> v)"
proof (induction m)
  case (Cons e m)
  then show ?case by (cases e) (auto simp: fun_eq_iff)
qed simp

lemma map_of_map_erase: "map_of (map_erase k m) = (map_of m)(k := None)"
  unfolding map_erase_def by (induction m) (auto simp: fun_eq_iff)

lemma ordered_filter: "ordered m \<Longrightarrow> ordered (filter P m)"
  by (induction m) auto

lemma ordered_map_erase: "ordered m \<Longrightarrow> ordered (map_erase k m)"
  by (simp add: map_erase_def ordered_filter)

lemma set_map_put: "x \<in> set (map_put k v m) \<Longrightarrow> x = (k, v) \<or> x \<in> set m"
  by (induction m) (auto split: if_splits)

lemma in_map_put: "ordered m \<Longrightarrow> (a, b) \<in> set (map_put k v m) \<longleftrightarrow> (if a = k then b = v else (a, b) \<in> set m)"
proof (induction m)
  case (Cons e m)
  then show ?case by (cases e) auto
qed auto

section \<open>Durations\<close>

definition time_point_max :: int where
  "time_point_max = 9223372036854775807"

definition ms_max :: int where
  "ms_max = 9223372036854775807"

definition int64 :: "int \<Rightarrow> int option" where
  "int64 i = (if -9223372036854775808 \<le> i \<and> i \<le> 9223372036854775807 then Some i else None)"

definition ms_of_ns :: "int \<Rightarrow> int" where
  "ms_of_ns d = d sdiv 1000000"

lemma ms_of_ns_pos: "0 < ms_of_ns d \<longleftrightarrow> 1000000 \<le> d"
proof (cases "0 \<le> d")
  case True
  then have "ms_of_ns d = d div 1000000" by (cases "d = 0") (simp_all add: ms_of_ns_def signed_divide_int_def)
  then show ?thesis by (simp add: pos_imp_zdiv_pos_iff)
next
  case False
  then have "ms_of_ns d \<le> 0" by (simp add: ms_of_ns_def signed_divide_int_def sgn_if)
  with False show ?thesis by simp
qed

lemma ms_of_ns_nonneg: "0 \<le> d \<Longrightarrow> ms_of_ns d = d div 1000000"
  by (cases "d = 0") (simp_all add: ms_of_ns_def signed_divide_int_def)

lemma ms_of_ns_mono: "a \<le> b \<Longrightarrow> 0 < ms_of_ns a \<Longrightarrow> ms_of_ns a \<le> ms_of_ns b"
  by (simp add: ms_of_ns_pos ms_of_ns_nonneg zdiv_mono1)

end
