(* ===== verification/Perf_Node.thy ===== *)
theory Perf_Node
  imports Std_Map "HOL-Library.Monad_Syntax"
begin

text \<open>
  The nodes of \<^verbatim>\<open>power/libperfmgr\<close>: groups of timed requests for the values of a node, and the
  two kinds of node, a file and a system property. The environment holds what the code
  cannot determine: the successive readings of the steady clock, the outcome of each attempt
  to write, and what the files and properties contain. Indexing outside a vector and signed
  overflow have the value \<open>None\<close>.
\<close>

section \<open>Environment\<close>

datatype write_answer = Open_failed | Write_failed | Written

text \<open>\<open>stored path\<close> is \<open>None\<close> when the content is not known, as after an interrupted write.\<close>

record env =
  clock :: "nat \<Rightarrow> int"
  readings :: nat
  answers :: "nat \<Rightarrow> write_answer"
  attempts :: nat
  stored :: "string \<Rightarrow> string option"

definition read_clock :: "env \<Rightarrow> int \<times> env" where
  "read_clock w = (clock w (readings w), w\<lparr>readings := Suc (readings w)\<rparr>)"

definition write_file :: "string \<Rightarrow> string \<Rightarrow> env \<Rightarrow> write_answer \<times> env" where
  "write_file path v w =
     (let a = answers w (attempts w); w1 = w\<lparr>attempts := Suc (attempts w)\<rparr> in
      (a, case a of
            Open_failed \<Rightarrow> w1
          | Write_failed \<Rightarrow> w1\<lparr>stored := (stored w1)(path := None)\<rparr>
          | Written \<Rightarrow> w1\<lparr>stored := (stored w1)(path \<mapsto> v)\<rparr>))"

definition SetProperty :: "string \<Rightarrow> string \<Rightarrow> env \<Rightarrow> bool \<times> env" where
  "SetProperty path v w =
     (let ok = (answers w (attempts w) = Written); w1 = w\<lparr>attempts := Suc (attempts w)\<rparr> in
      (ok, if ok then w1\<lparr>stored := (stored w1)(path \<mapsto> v)\<rparr> else w1))"

section \<open>Request groups\<close>

record RequestGroup =
  request_value :: string
  request_map :: "(string \<times> int) list"

definition new_RequestGroup :: "string \<Rightarrow> RequestGroup" where
  "new_RequestGroup v = \<lparr>request_value = v, request_map = []\<rparr>"

definition group_AddRequest :: "string \<Rightarrow> int \<Rightarrow> RequestGroup \<Rightarrow> bool \<times> RequestGroup" where
  "group_AddRequest hint_type end_time g =
     (case map_of (request_map g) hint_type of
        None \<Rightarrow> (True, g\<lparr>request_map := map_put hint_type end_time (request_map g)\<rparr>)
      | Some t \<Rightarrow>
          (False, if t < end_time then g\<lparr>request_map := map_put hint_type end_time (request_map g)\<rparr> else g))"

definition group_RemoveRequest :: "string \<Rightarrow> RequestGroup \<Rightarrow> bool \<times> RequestGroup" where
  "group_RemoveRequest hint_type g =
     (map_of (request_map g) hint_type \<noteq> None, g\<lparr>request_map := map_erase hint_type (request_map g)\<rparr>)"

definition GetRequestValue :: "RequestGroup \<Rightarrow> string" where
  "GetRequestValue g = request_value g"

fun expire_loop :: "int \<Rightarrow> (string \<times> int) list \<Rightarrow> int \<Rightarrow> bool \<Rightarrow> bool \<times> int \<times> (string \<times> int) list" where
  "expire_loop now [] expire_time active = (active, expire_time, [])"
| "expire_loop now (e # m) expire_time active =
     (let duration = ms_of_ns (snd e - now) in
      if duration \<le> 0 then expire_loop now m expire_time active
      else let (active', expire', m') = expire_loop now m (min duration expire_time) True in
           (active', expire', e # m'))"

definition GetExpireTime :: "RequestGroup \<Rightarrow> env \<Rightarrow> bool \<times> int \<times> RequestGroup \<times> env" where
  "GetExpireTime g w =
     (let (now, w1) = read_clock w; (active, expire_time, m) = expire_loop now (request_map g) ms_max False in
      (active, expire_time, g\<lparr>request_map := m\<rparr>, w1))"

section \<open>Nodes\<close>

datatype node_kind = File bool | Property

record node =
  node_name :: string
  node_path :: string
  req_sorted :: "RequestGroup list"
  default_val_index :: nat
  reset_on_init :: bool
  current_val_index :: nat
  node_type :: node_kind
  fd_open :: bool

definition new_Node :: "string \<Rightarrow> string \<Rightarrow> RequestGroup list \<Rightarrow> nat \<Rightarrow> bool \<Rightarrow> node_kind \<Rightarrow> node" where
  "new_Node name path req default_index reset ty =
     \<lparr>node_name = name, node_path = path, req_sorted = req, default_val_index = default_index,
      reset_on_init = reset, current_val_index = default_index, node_type = ty, fd_open = False\<rparr>"

definition new_FileNode :: "string \<Rightarrow> string \<Rightarrow> RequestGroup list \<Rightarrow> nat \<Rightarrow> bool \<Rightarrow> bool \<Rightarrow> node" where
  "new_FileNode name path req default_index reset hold_fd = new_Node name path req default_index reset (File hold_fd)"

definition new_PropertyNode :: "string \<Rightarrow> string \<Rightarrow> RequestGroup list \<Rightarrow> nat \<Rightarrow> bool \<Rightarrow> node" where
  "new_PropertyNode name path req default_index reset = new_Node name path req default_index reset Property"

definition node_AddRequest :: "nat \<Rightarrow> string \<Rightarrow> int \<Rightarrow> node \<Rightarrow> bool \<times> node" where
  "node_AddRequest value_index hint_type end_time n =
     (if length (req_sorted n) \<le> value_index then (False, n)
      else (True, n\<lparr>req_sorted := (req_sorted n)
              [value_index := snd (group_AddRequest hint_type end_time (req_sorted n ! value_index))]\<rparr>))"

fun remove_loop :: "string \<Rightarrow> RequestGroup list \<Rightarrow> bool \<Rightarrow> bool \<times> RequestGroup list" where
  "remove_loop hint_type [] ret = (ret, [])"
| "remove_loop hint_type (g # gs) ret =
     (let (removed, g') = group_RemoveRequest hint_type g; (ret', gs') = remove_loop hint_type gs (removed \<or> ret) in
      (ret', g' # gs'))"

definition node_RemoveRequest :: "string \<Rightarrow> node \<Rightarrow> bool \<times> node" where
  "node_RemoveRequest hint_type n =
     (let (ret, gs) = remove_loop hint_type (req_sorted n) False in (ret, n\<lparr>req_sorted := gs\<rparr>))"

fun value_index_from :: "nat \<Rightarrow> RequestGroup list \<Rightarrow> string \<Rightarrow> nat option" where
  "value_index_from i [] v = None"
| "value_index_from i (g # gs) v = (if GetRequestValue g = v then Some i else value_index_from (Suc i) gs v)"

definition GetValueIndex :: "node \<Rightarrow> string \<Rightarrow> nat option" where
  "GetValueIndex n v = value_index_from 0 (req_sorted n) v"

definition GetValues :: "node \<Rightarrow> string list" where
  "GetValues n = map GetRequestValue (req_sorted n)"

section \<open>Updating a node\<close>

fun highest_request :: "nat \<Rightarrow> nat \<Rightarrow> RequestGroup list \<Rightarrow> int \<Rightarrow> env \<Rightarrow> nat \<times> int \<times> RequestGroup list \<times> env" where
  "highest_request i default_index [] expire_time w = (default_index, expire_time, [], w)"
| "highest_request i default_index (g # gs) expire_time w =
     (let (active, expire', g', w1) = GetExpireTime g w in
      if active then (i, expire', g' # gs, w1)
      else let (value_index, expire'', gs', w2) = highest_request (Suc i) default_index gs expire' w1 in
           (value_index, expire'', g' # gs', w2))"

definition FileNode_Update :: "bool \<Rightarrow> node \<Rightarrow> env \<Rightarrow> (int \<times> node \<times> env) option" where
  "FileNode_Update hold_fd n w =
     (let (value_index, expire_time, gs, w1) = highest_request 0 (default_val_index n) (req_sorted n) ms_max w;
          n1 = n\<lparr>req_sorted := gs\<rparr> in
      if value_index \<noteq> current_val_index n1 \<or> reset_on_init n1 then
        if length gs \<le> value_index then None
        else
          (let (a, w2) = write_file (node_path n1) (GetRequestValue (gs ! value_index)) w1 in
           if a \<noteq> Written
           then Some (min expire_time 500, n1\<lparr>fd_open := (a = Write_failed)\<rparr>, w2)
           else Some (expire_time,
                  n1\<lparr>reset_on_init := False, current_val_index := value_index,
                     fd_open := (hold_fd \<and> value_index \<noteq> default_val_index n1)\<rparr>, w2))
      else Some (expire_time, n1, w1))"

definition PropertyNode_Update :: "node \<Rightarrow> env \<Rightarrow> (int \<times> node \<times> env) option" where
  "PropertyNode_Update n w =
     (let (value_index, expire_time, gs, w1) = highest_request 0 (default_val_index n) (req_sorted n) ms_max w;
          n1 = n\<lparr>req_sorted := gs\<rparr> in
      if value_index \<noteq> current_val_index n1 \<or> reset_on_init n1 then
        if length gs \<le> value_index then None
        else
          (let (ok, w2) = SetProperty (node_path n1) (GetRequestValue (gs ! value_index)) w1 in
           if \<not> ok then Some (expire_time, n1, w2)
           else Some (expire_time, n1\<lparr>reset_on_init := False, current_val_index := value_index\<rparr>, w2))
      else Some (expire_time, n1, w1))"

definition Update :: "node \<Rightarrow> env \<Rightarrow> (int \<times> node \<times> env) option" where
  "Update n w = (case node_type n of File hold_fd \<Rightarrow> FileNode_Update hold_fd n w | Property \<Rightarrow> PropertyNode_Update n w)"

end
