(* ===== verification/Perf_Hints.thy ===== *)
theory Perf_Hints
  imports Perf_Node
begin

text \<open>
  The looper thread and the hint manager of \<^verbatim>\<open>power/libperfmgr\<close>, with the reading of the
  configuration. The looper's lock makes each of its operations one step. The JSON library is
  a parameter, a record of the accessors the code calls; an accessor that throws gives \<open>None\<close>.
\<close>

section \<open>Looper thread\<close>

record NodeAction =
  node_index :: nat
  value_index :: nat
  timeout_ms :: int

record NodeLooperThread =
  nodes :: "node list"
  exitPending :: bool
  isRunning :: bool
  wake_signals :: nat

definition new_NodeLooperThread :: "node list \<Rightarrow> NodeLooperThread" where
  "new_NodeLooperThread ns = \<lparr>nodes = ns, exitPending = False, isRunning = False, wake_signals = 0\<rparr>"

definition request_end :: "int \<Rightarrow> env \<Rightarrow> (int \<times> env) option" where
  "request_end timeout w =
     (if timeout \<noteq> 0 then
        let (now, w1) = read_clock w in
        if timeout < ms_of_ns (time_point_max - now)
        then do { d \<leftarrow> int64 (timeout * 1000000); end_time \<leftarrow> int64 (now + d); Some (end_time, w1) }
        else Some (time_point_max, w1)
      else Some (time_point_max, w))"

fun request_loop :: "NodeAction list \<Rightarrow> string \<Rightarrow> node list \<Rightarrow> bool \<Rightarrow> env \<Rightarrow> (bool \<times> node list \<times> env) option" where
  "request_loop [] hint_type ns ret w = Some (ret, ns, w)"
| "request_loop (a # as) hint_type ns ret w =
     (if length ns \<le> node_index a then request_loop as hint_type ns False w
      else do {
        (end_time, w1) \<leftarrow> request_end (timeout_ms a) w;
        let (ok, n) = node_AddRequest (value_index a) hint_type end_time (ns ! node_index a);
        request_loop as hint_type (ns[node_index a := n]) (ok \<and> ret) w1 })"

definition Request :: "NodeAction list \<Rightarrow> string \<Rightarrow> NodeLooperThread \<Rightarrow> env \<Rightarrow> (bool \<times> NodeLooperThread \<times> env) option" where
  "Request actions hint_type l w =
     (if exitPending l then Some (False, l, w)
      else do {
        (ret, ns, w1) \<leftarrow> request_loop actions hint_type (nodes l) True w;
        Some (ret, l\<lparr>nodes := ns, wake_signals := Suc (wake_signals l)\<rparr>, w1) })"

fun cancel_loop :: "NodeAction list \<Rightarrow> string \<Rightarrow> node list \<Rightarrow> bool \<Rightarrow> bool \<times> node list" where
  "cancel_loop [] hint_type ns ret = (ret, ns)"
| "cancel_loop (a # as) hint_type ns ret =
     (if length ns \<le> node_index a then cancel_loop as hint_type ns False
      else cancel_loop as hint_type
             (ns[node_index a := snd (node_RemoveRequest hint_type (ns ! node_index a))]) ret)"

definition Cancel :: "NodeAction list \<Rightarrow> string \<Rightarrow> NodeLooperThread \<Rightarrow> bool \<times> NodeLooperThread" where
  "Cancel actions hint_type l =
     (if exitPending l then (False, l)
      else let (ret, ns) = cancel_loop actions hint_type (nodes l) True in
           (ret, l\<lparr>nodes := ns, wake_signals := Suc (wake_signals l)\<rparr>))"

text \<open>One pass over the nodes; it gives the nearest expire time beside the updated nodes.\<close>

fun update_pass :: "node list \<Rightarrow> int \<Rightarrow> env \<Rightarrow> (int \<times> node list \<times> env) option" where
  "update_pass [] timeout w = Some (timeout, [], w)"
| "update_pass (n # ns) timeout w = do {
     (e, n1, w1) \<leftarrow> Update n w;
     (timeout', ns1, w2) \<leftarrow> update_pass ns (min e timeout) w1;
     Some (timeout', n1 # ns1, w2) }"

definition nsecs_max :: int where
  "nsecs_max = 9223372036854775807"

definition sleep_ns :: "int \<Rightarrow> int" where
  "sleep_ns timeout = (if timeout < nsecs_max sdiv 1000 sdiv 1000 then timeout * 1000 * 1000 else nsecs_max)"

definition threadLoop :: "NodeLooperThread \<Rightarrow> env \<Rightarrow> (bool \<times> int \<times> NodeLooperThread \<times> env) option" where
  "threadLoop l w = do {
     (_, ns1, w1) \<leftarrow> update_pass (nodes l) ms_max w;
     (timeout, ns2, w2) \<leftarrow> update_pass ns1 ms_max w1;
     Some (True, sleep_ns timeout, l\<lparr>nodes := ns2\<rparr>, w2) }"

definition looper_Start :: "bool \<Rightarrow> NodeLooperThread \<Rightarrow> bool \<times> NodeLooperThread" where
  "looper_Start run_ok l = (run_ok, l\<lparr>isRunning := run_ok \<or> isRunning l\<rparr>)"

definition looper_Stop :: "NodeLooperThread \<Rightarrow> NodeLooperThread" where
  "looper_Stop l =
     (if isRunning l then l\<lparr>exitPending := True, isRunning := False, wake_signals := Suc (wake_signals l)\<rparr> else l)"

section \<open>Hint manager\<close>

record HintManager =
  nm :: "NodeLooperThread option"
  hint_actions :: "(string \<times> NodeAction list) list"

definition IsHintSupported :: "string \<Rightarrow> HintManager \<Rightarrow> bool" where
  "IsHintSupported hint_type hm \<longleftrightarrow> map_of (hint_actions hm) hint_type \<noteq> None"

definition ValidateHint :: "string \<Rightarrow> HintManager \<Rightarrow> bool" where
  "ValidateHint hint_type hm \<longleftrightarrow> (if nm hm = None then False else IsHintSupported hint_type hm)"

definition request_on :: "NodeAction list \<Rightarrow> string \<Rightarrow> HintManager \<Rightarrow> env \<Rightarrow> (bool \<times> HintManager \<times> env) option" where
  "request_on actions hint_type hm w = do {
     l \<leftarrow> nm hm;
     (ret, l', w1) \<leftarrow> Request actions hint_type l w;
     Some (ret, hm\<lparr>nm := Some l'\<rparr>, w1) }"

definition DoHint :: "string \<Rightarrow> HintManager \<Rightarrow> env \<Rightarrow> (bool \<times> HintManager \<times> env) option" where
  "DoHint hint_type hm w =
     (if ValidateHint hint_type hm then do {
        actions \<leftarrow> map_of (hint_actions hm) hint_type;
        request_on actions hint_type hm w }
      else Some (False, hm, w))"

definition DoHint_timeout :: "string \<Rightarrow> int \<Rightarrow> HintManager \<Rightarrow> env \<Rightarrow> (bool \<times> HintManager \<times> env) option" where
  "DoHint_timeout hint_type timeout hm w =
     (if \<not> ValidateHint hint_type hm then Some (False, hm, w)
      else do {
        actions \<leftarrow> map_of (hint_actions hm) hint_type;
        request_on (map (\<lambda>a. a\<lparr>timeout_ms := timeout\<rparr>) actions) hint_type hm w })"

definition EndHint :: "string \<Rightarrow> HintManager \<Rightarrow> (bool \<times> HintManager) option" where
  "EndHint hint_type hm =
     (if ValidateHint hint_type hm then do {
        actions \<leftarrow> map_of (hint_actions hm) hint_type;
        l \<leftarrow> nm hm;
        let (ret, l') = Cancel actions hint_type l;
        Some (ret, hm\<lparr>nm := Some l'\<rparr>) }
      else Some (False, hm))"

definition IsRunning :: "HintManager \<Rightarrow> bool" where
  "IsRunning hm = (case nm hm of None \<Rightarrow> False | Some l \<Rightarrow> isRunning l)"

definition GetHints :: "HintManager \<Rightarrow> string list" where
  "GetHints hm = map fst (hint_actions hm)"

definition Start :: "bool \<Rightarrow> HintManager \<Rightarrow> (bool \<times> HintManager) option" where
  "Start run_ok hm = do {
     l \<leftarrow> nm hm;
     let (ret, l') = looper_Start run_ok l;
     Some (ret, hm\<lparr>nm := Some l'\<rparr>) }"

definition delete_HintManager :: "HintManager \<Rightarrow> HintManager" where
  "delete_HintManager hm = (case nm hm of None \<Rightarrow> hm | Some l \<Rightarrow> hm\<lparr>nm := Some (looper_Stop l)\<rparr>)"

end
