(* ===== verification/Perf_Config.thy ===== *)
theory Perf_Config
  imports Perf_Hints
begin

text \<open>
  Reading the configuration of \<^verbatim>\<open>power/libperfmgr\<close>: the nodes and the actions of each hint. A
  result \<open>Some None\<close> is the early return of an empty container after an error in the
  configuration, \<open>None\<close> an exception of the JSON library.
\<close>

section \<open>The JSON library\<close>

record 'j json_lib =
  parse :: "string \<Rightarrow> 'j option"
  member :: "'j \<Rightarrow> string \<Rightarrow> 'j option"
  element :: "'j \<Rightarrow> nat \<Rightarrow> 'j option"
  json_size :: "'j \<Rightarrow> nat"
  asString :: "'j \<Rightarrow> string option"
  json_empty :: "'j \<Rightarrow> bool"
  isUInt64 :: "'j \<Rightarrow> bool"
  asUInt64 :: "'j \<Rightarrow> u64"
  isBool :: "'j \<Rightarrow> bool"
  asBool :: "'j \<Rightarrow> bool"

definition string_at :: "'j json_lib \<Rightarrow> 'j \<Rightarrow> string \<Rightarrow> string option" where
  "string_at J v key = do { j \<leftarrow> member J v key; asString J j }"

definition bool_at :: "'j json_lib \<Rightarrow> 'j \<Rightarrow> string \<Rightarrow> bool option" where
  "bool_at J v key = do {
     j \<leftarrow> member J v key;
     Some (if json_empty J j \<or> \<not> isBool J j then False else asBool J j) }"

section \<open>Nodes\<close>

fun parse_values :: "'j json_lib \<Rightarrow> 'j \<Rightarrow> bool \<Rightarrow> nat list \<Rightarrow> string list \<Rightarrow> string list option option" where
  "parse_values J values is_file [] parsed = Some (Some parsed)"
| "parse_values J values is_file (j # js) parsed = do {
     v \<leftarrow> element J values j;
     value \<leftarrow> asString J v;
     if value \<in> set parsed then Some None
     else if is_file \<and> value = [] then Some None
     else parse_values J values is_file js (parsed @ [value]) }"

definition parse_default_index :: "'j json_lib \<Rightarrow> 'j \<Rightarrow> nat \<Rightarrow> nat option" where
  "parse_default_index J nd last_index = do {
     j \<leftarrow> member J nd ''DefaultIndex'';
     Some (if json_empty J j \<or> \<not> isUInt64 J j then last_index else unat (asUInt64 J j)) }"

definition parse_node_rest :: "'j json_lib \<Rightarrow> 'j \<Rightarrow> string \<Rightarrow> string \<Rightarrow> bool \<Rightarrow> string list \<Rightarrow> node option option" where
  "parse_node_rest J nd name path is_file values = do {
     default_index \<leftarrow> parse_default_index J nd (length values - 1);
     if length values - 1 < default_index then Some None
     else do {
       reset \<leftarrow> bool_at J nd ''ResetOnInit'';
       if is_file then do {
         hold_fd \<leftarrow> bool_at J nd ''HoldFd'';
         Some (Some (new_FileNode name path (map new_RequestGroup values) default_index reset hold_fd)) }
       else Some (Some (new_PropertyNode name path (map new_RequestGroup values) default_index reset)) } }"

definition parse_node :: "'j json_lib \<Rightarrow> 'j \<Rightarrow> node list \<Rightarrow> node option option" where
  "parse_node J nd parsed = do {
     name \<leftarrow> string_at J nd ''Name'';
     if name = [] \<or> name \<in> node_name ` set parsed then Some None
     else do {
       path \<leftarrow> string_at J nd ''Path'';
       if path = [] \<or> path \<in> node_path ` set parsed then Some None
       else do {
         ty \<leftarrow> string_at J nd ''Type'';
         if ty \<noteq> [] \<and> ty \<noteq> ''File'' \<and> ty \<noteq> ''Property'' then Some None
         else do {
           vs \<leftarrow> member J nd ''Values'';
           values \<leftarrow> parse_values J vs (ty \<noteq> ''Property'') [0..<json_size J vs] [];
           (case values of
              None \<Rightarrow> Some None
            | Some values \<Rightarrow>
                if length values < 1 then Some None
                else parse_node_rest J nd name path (ty \<noteq> ''Property'') values) } } } }"

fun parse_nodes_loop :: "'j json_lib \<Rightarrow> 'j \<Rightarrow> nat list \<Rightarrow> node list \<Rightarrow> node list option option" where
  "parse_nodes_loop J nds [] parsed = Some (Some parsed)"
| "parse_nodes_loop J nds (i # is) parsed = do {
     nd \<leftarrow> element J nds i;
     r \<leftarrow> parse_node J nd parsed;
     (case r of
        None \<Rightarrow> Some None
      | Some n \<Rightarrow> parse_nodes_loop J nds is (parsed @ [n])) }"

definition ParseNodes :: "'j json_lib \<Rightarrow> string \<Rightarrow> node list option" where
  "ParseNodes J json_doc =
     (case parse J json_doc of
        None \<Rightarrow> Some []
      | Some root \<Rightarrow> do {
          nds \<leftarrow> member J root ''Nodes'';
          r \<leftarrow> parse_nodes_loop J nds [0..<json_size J nds] [];
          Some (case r of None \<Rightarrow> [] | Some ns \<Rightarrow> ns) })"

section \<open>Actions\<close>

definition nodes_index :: "node list \<Rightarrow> (string \<times> nat) list" where
  "nodes_index ns = fold (\<lambda>i m. map_put (node_name (ns ! i)) i m) [0..<length ns] []"

definition add_action ::
    "string \<Rightarrow> NodeAction \<Rightarrow> (string \<times> NodeAction list) list \<Rightarrow> (string \<times> NodeAction list) list option" where
  "add_action hint_type a parsed =
     (case map_of parsed hint_type of
        None \<Rightarrow> Some (map_put hint_type [a] parsed)
      | Some as \<Rightarrow>
          if node_index a \<in> node_index ` set as then None
          else Some (map_put hint_type (as @ [a]) parsed))"

text \<open>The duration is converted from an unsigned to a signed 64-bit count of milliseconds.\<close>

definition parse_action :: "'j json_lib \<Rightarrow> 'j \<Rightarrow> node list \<Rightarrow> (string \<times> NodeAction list) list \<Rightarrow>
    (string \<times> NodeAction list) list option option" where
  "parse_action J ac ns parsed = do {
     hint_type \<leftarrow> string_at J ac ''PowerHint'';
     if hint_type = [] then Some None
     else do {
       name \<leftarrow> string_at J ac ''Node'';
       (case map_of (nodes_index ns) name of
          None \<Rightarrow> Some None
        | Some i \<Rightarrow> do {
            value_name \<leftarrow> string_at J ac ''Value'';
            (case GetValueIndex (ns ! i) value_name of
               None \<Rightarrow> Some None
             | Some v \<Rightarrow> do {
                 d \<leftarrow> member J ac ''Duration'';
                 if json_empty J d \<or> \<not> isUInt64 J d then Some None
                 else Some (add_action hint_type
                        \<lparr>node_index = i, value_index = v, timeout_ms = sint (asUInt64 J d)\<rparr> parsed) }) }) } }"

fun parse_actions_loop :: "'j json_lib \<Rightarrow> 'j \<Rightarrow> node list \<Rightarrow> nat list \<Rightarrow> (string \<times> NodeAction list) list \<Rightarrow>
    (string \<times> NodeAction list) list option option" where
  "parse_actions_loop J acs ns [] parsed = Some (Some parsed)"
| "parse_actions_loop J acs ns (i # is) parsed = do {
     ac \<leftarrow> element J acs i;
     r \<leftarrow> parse_action J ac ns parsed;
     (case r of
        None \<Rightarrow> Some None
      | Some parsed' \<Rightarrow> parse_actions_loop J acs ns is parsed') }"

definition ParseActions :: "'j json_lib \<Rightarrow> string \<Rightarrow> node list \<Rightarrow> (string \<times> NodeAction list) list option" where
  "ParseActions J json_doc ns =
     (case parse J json_doc of
        None \<Rightarrow> Some []
      | Some root \<Rightarrow> do {
          acs \<leftarrow> member J root ''Actions'';
          r \<leftarrow> parse_actions_loop J acs ns [0..<json_size J acs] [];
          Some (case r of None \<Rightarrow> [] | Some as \<Rightarrow> as) })"

definition GetFromJSON :: "'j json_lib \<Rightarrow> string option \<Rightarrow> bool \<Rightarrow> bool \<Rightarrow> HintManager option option" where
  "GetFromJSON J content start run_ok =
     (case content of
        None \<Rightarrow> Some None
      | Some json_doc \<Rightarrow> do {
          ns \<leftarrow> ParseNodes J json_doc;
          if ns = [] then Some None
          else do {
            as \<leftarrow> ParseActions J json_doc ns;
            if as = [] then Some None
            else
              let hm = \<lparr>nm = Some (new_NodeLooperThread ns), hint_actions = as\<rparr> in
              if start then do { (_, hm') \<leftarrow> Start run_ok hm; Some (Some hm') } else Some (Some hm) } })"

end
