(* ===== verification/Perf_Lemmas.thy ===== *)
theory Perf_Lemmas
  imports Perf_Config
begin

text \<open>
  Facts about the nodes and the configuration of \<^verbatim>\<open>power/libperfmgr\<close>: what a node wants at a
  time, that updating computes it, and the well-formedness of what the parser accepts.
\<close>

section \<open>What a node wants\<close>

definition alive :: "int \<Rightarrow> int \<Rightarrow> bool" where
  "alive t end_time \<longleftrightarrow> 0 < ms_of_ns (end_time - t)"

definition active_at :: "int \<Rightarrow> RequestGroup \<Rightarrow> bool" where
  "active_at t g \<longleftrightarrow> (\<exists>e\<in>set (request_map g). alive t (snd e))"

fun first_active :: "int \<Rightarrow> nat \<Rightarrow> RequestGroup list \<Rightarrow> nat option" where
  "first_active t i [] = None"
| "first_active t i (g # gs) = (if active_at t g then Some i else first_active t (Suc i) gs)"

definition wanted :: "int \<Rightarrow> node \<Rightarrow> nat" where
  "wanted t n = (case first_active t 0 (req_sorted n) of Some i \<Rightarrow> i | None \<Rightarrow> default_val_index n)"

definition node_ok :: "node \<Rightarrow> bool" where
  "node_ok n \<longleftrightarrow> default_val_index n < length (req_sorted n) \<and> current_val_index n < length (req_sorted n) \<and>
     (\<forall>g\<in>set (req_sorted n). ordered (request_map g))"

lemma alive_iff: "alive t e \<longleftrightarrow> t + 1000000 \<le> e"
  by (auto simp: alive_def ms_of_ns_pos)

lemma alive_antimono: "s \<le> t \<Longrightarrow> alive t e \<Longrightarrow> alive s e"
  by (simp add: alive_iff)

lemma first_active_spec:
  "first_active t i gs =
     (if \<exists>j<length gs. active_at t (gs ! j) then Some (i + (LEAST j. j < length gs \<and> active_at t (gs ! j))) else None)"
proof (induction gs arbitrary: i)
  case (Cons g gs)
  show ?case
  proof (cases "active_at t g")
    case True
    then have "(LEAST j. j < length (g # gs) \<and> active_at t ((g # gs) ! j)) = 0" by (intro Least_equality) auto
    then show ?thesis using True by auto
  next
    case False
    show ?thesis
    proof (cases "\<exists>j<length gs. active_at t (gs ! j)")
      case True
      then obtain j where j: "j < length gs" "active_at t (gs ! j)" by blast
      have "(LEAST j. j < length (g # gs) \<and> active_at t ((g # gs) ! j)) =
          Suc (LEAST j. j < length gs \<and> active_at t (gs ! j))"
        using Least_Suc [of "\<lambda>j. j < length (g # gs) \<and> active_at t ((g # gs) ! j)" "Suc j"] j False by simp
      moreover have "\<exists>j<length (g # gs). active_at t ((g # gs) ! j)" using j by (intro exI [of _ "Suc j"]) simp
      ultimately show ?thesis using True False Cons.IH [of "Suc i"] by simp
    next
      case False2: False
      then have "\<not> (\<exists>j<length (g # gs). active_at t ((g # gs) ! j))" using False by (simp add: Ex_less_Suc2)
      then show ?thesis using False False2 Cons.IH [of "Suc i"] by (simp del: length_Cons)
    qed
  qed
qed simp

lemma first_active_bound: "first_active t i gs = Some k \<Longrightarrow> i \<le> k \<and> k < i + length gs \<and> active_at t (gs ! (k - i))"
proof (induction gs arbitrary: i)
  case (Cons g gs)
  show ?case
  proof (cases "active_at t g")
    case False
    with Cons.prems have "first_active t (Suc i) gs = Some k" by simp
    from Cons.IH [OF this] show ?thesis by (auto simp: nth_Cons' Suc_diff_le)
  qed (use Cons.prems in auto)
qed simp

lemma wanted_bound: "default_val_index n < length (req_sorted n) \<Longrightarrow> wanted t n < length (req_sorted n)"
  using first_active_bound [of t 0 "req_sorted n"] by (auto simp: wanted_def split: option.splits)

section \<open>Expiry\<close>

lemma expire_loop_spec:
  "expire_loop now m e a = (a', e', m') \<Longrightarrow>
     m' = filter (\<lambda>x. alive now (snd x)) m \<and> a' = (a \<or> m' \<noteq> []) \<and> e' \<le> e \<and>
     (\<forall>x\<in>set m'. e' \<le> ms_of_ns (snd x - now)) \<and> (e' = e \<or> (\<exists>x\<in>set m'. e' = ms_of_ns (snd x - now)))"
proof (induction m arbitrary: e a a' e' m')
  case (Cons x m)
  show ?case
  proof (cases "ms_of_ns (snd x - now) \<le> 0")
    case True
    with Cons.prems have "expire_loop now m e a = (a', e', m')" by simp
    moreover have "\<not> alive now (snd x)" using True by (simp add: alive_def)
    ultimately show ?thesis using Cons.IH by simp
  next
    case False
    let ?d = "ms_of_ns (snd x - now)"
    obtain m1 where m1: "expire_loop now m (min ?d e) True = (a', e', m1)" "m' = x # m1"
      using Cons.prems False by (auto split: prod.splits)
    note ih = Cons.IH [OF m1(1)]
    have "alive now (snd x)" using False by (simp add: alive_def)
    moreover have "e' = e \<or> (\<exists>y\<in>set m'. e' = ms_of_ns (snd y - now))"
      using ih m1(2) by (metis list.set_intros min_def)
    ultimately show ?thesis using ih m1(2) by simp
  qed
qed auto

text \<open>Dropping requests that have expired by a time does not change what is active later.\<close>

definition purged :: "int \<Rightarrow> RequestGroup \<Rightarrow> RequestGroup \<Rightarrow> bool" where
  "purged t g g' \<longleftrightarrow> request_value g' = request_value g \<and> (ordered (request_map g) \<longrightarrow> ordered (request_map g')) \<and>
     set (request_map g') \<subseteq> set (request_map g) \<and>
     (\<forall>x\<in>set (request_map g). alive t (snd x) \<longrightarrow> x \<in> set (request_map g'))"

lemma purged_refl: "purged t g g"
  by (simp add: purged_def)

lemma purged_later: "purged s g g' \<Longrightarrow> s \<le> t \<Longrightarrow> purged t g g'"
  by (meson alive_antimono purged_def)

lemma purged_active: "purged s g g' \<Longrightarrow> s \<le> t \<Longrightarrow> active_at t g' = active_at t g"
  using alive_antimono unfolding purged_def active_at_def by blast

lemma first_active_purged:
  "list_all2 (purged s) gs gs' \<Longrightarrow> s \<le> t \<Longrightarrow> first_active t i gs' = first_active t i gs"
  by (induction arbitrary: i rule: list_all2_induct) (auto simp: purged_active)

lemma GetExpireTime_spec:
  assumes "GetExpireTime g w = (a, e, g', w')"
  shows "w' = w\<lparr>readings := Suc (readings w)\<rparr>" and "purged (clock w (readings w)) g g'"
    and "a = active_at (clock w (readings w)) g" and "e \<le> ms_max"
    and "\<forall>x\<in>set (request_map g'). alive (clock w (readings w)) (snd x) \<and> e \<le> ms_of_ns (snd x - clock w (readings w))"
    and "e = ms_max \<or> (\<exists>x\<in>set (request_map g'). e = ms_of_ns (snd x - clock w (readings w)))"
proof -
  obtain m where m: "expire_loop (clock w (readings w)) (request_map g) ms_max False = (a, e, m)"
    "g' = g\<lparr>request_map := m\<rparr>" "w' = w\<lparr>readings := Suc (readings w)\<rparr>"
    using assms by (auto simp: GetExpireTime_def read_clock_def split: prod.splits)
  note spec = expire_loop_spec [OF m(1)]
  have rm: "request_map g' = m" using m(2) by simp
  show "w' = w\<lparr>readings := Suc (readings w)\<rparr>" by (rule m(3))
  show "purged (clock w (readings w)) g g'" using spec m(2) by (auto simp: purged_def ordered_filter)
  show "a = active_at (clock w (readings w)) g" using spec by (auto simp: active_at_def filter_empty_conv)
  show "e \<le> ms_max" using spec by simp
  show "\<forall>x\<in>set (request_map g'). alive (clock w (readings w)) (snd x) \<and> e \<le> ms_of_ns (snd x - clock w (readings w))"
    using spec m(2) by auto
  show "e = ms_max \<or> (\<exists>x\<in>set (request_map g'). e = ms_of_ns (snd x - clock w (readings w)))"
    unfolding rm using spec by blast
qed

section \<open>The highest request\<close>

text \<open>
  The requests are looked at with successive readings of the clock; the choice is the one of
  the last reading, since a request that has expired stays expired.
\<close>

lemma highest_request_spec:
  assumes "mono (clock w)" and "highest_request i d gs e0 w = (v, e, gs', w')" and "gs \<noteq> []"
  shows "\<exists>k \<ge> readings w. w' = w\<lparr>readings := Suc k\<rparr> \<and> list_all2 (purged (clock w k)) gs gs' \<and>
    v = (case first_active (clock w k) i gs of Some j \<Rightarrow> j | None \<Rightarrow> d) \<and> e \<le> ms_max \<and>
    (case first_active (clock w k) i gs of
       None \<Rightarrow> e = ms_max
     | Some j \<Rightarrow> (\<forall>x\<in>set (request_map (gs' ! (j - i))). alive (clock w k) (snd x) \<and> e \<le> ms_of_ns (snd x - clock w k)) \<and>
         (e = ms_max \<or> (\<exists>x\<in>set (request_map (gs' ! (j - i))). e = ms_of_ns (snd x - clock w k))))"
  using assms
proof (induction gs arbitrary: i e0 w v e gs' w')
  case (Cons g gs)
  obtain a e1 g1 w1 where ge: "GetExpireTime g w = (a, e1, g1, w1)" by (cases "GetExpireTime g w")
  note spec = GetExpireTime_spec [OF ge]
  show ?case
  proof (cases a)
    case True
    with Cons.prems(2) ge have r: "v = i" "e = e1" "gs' = g1 # gs" "w' = w1" by auto
    have "list_all2 (purged (clock w (readings w))) gs gs" by (simp add: list_all2_refl purged_refl)
    then show ?thesis using spec True r by (intro exI [of _ "readings w"]) auto
  next
    case False
    then have inactive: "\<not> active_at t g" if "clock w (readings w) \<le> t" for t
      using spec(3) that alive_antimono unfolding active_at_def by blast
    obtain gs1 where rest: "highest_request (Suc i) d gs e1 w1 = (v, e, gs1, w')" "gs' = g1 # gs1"
      using Cons.prems(2) ge False by (auto split: prod.splits)
    show ?thesis
    proof (cases "gs = []")
      case True
      then have "v = d" "e = e1" "gs' = [g1]" "w' = w1" using rest by auto
      moreover have "request_map g1 = []"
        using spec(2,5) inactive [OF order.refl] unfolding purged_def active_at_def
        by (metis list.set_intros(1) list.exhaust subsetD)
      ultimately show ?thesis
        using spec True inactive [OF order.refl] by (intro exI [of _ "readings w"]) auto
    next
      case False
      have "mono (clock w1)" using Cons.prems(1) spec(1) by simp
      note IH = Cons.IH [OF this rest(1) False]
      have clk: "clock w1 = clock w" using spec(1) by simp
      from IH obtain k where
        k: "readings w1 \<le> k" "w' = w1\<lparr>readings := Suc k\<rparr>" "list_all2 (purged (clock w k)) gs gs1"
          "v = (case first_active (clock w k) (Suc i) gs of Some j \<Rightarrow> j | None \<Rightarrow> d)" "e \<le> ms_max"
          "case first_active (clock w k) (Suc i) gs of
             None \<Rightarrow> e = ms_max
           | Some j \<Rightarrow> (\<forall>x\<in>set (request_map (gs1 ! (j - Suc i))). alive (clock w k) (snd x) \<and> e \<le> ms_of_ns (snd x - clock w k)) \<and>
               (e = ms_max \<or> (\<exists>x\<in>set (request_map (gs1 ! (j - Suc i))). e = ms_of_ns (snd x - clock w k)))"
        unfolding clk by blast
      have le: "clock w (readings w) \<le> clock w k" using Cons.prems(1) k(1) spec(1) by (auto intro: monoD)
      have shift: "gs' ! (j - i) = gs1 ! (j - Suc i)" if "first_active (clock w k) (Suc i) gs = Some j" for j
        using first_active_bound [OF that] rest(2) by (simp add: nth_Cons')
      show ?thesis
        using k spec(1) rest(2) inactive [OF le] purged_later [OF spec(2) le] shift
        by (intro exI [of _ k]) (auto split: option.splits)
    qed
  qed
qed simp

section \<open>Updating a node\<close>

text \<open>One update at the time \<open>t\<close> of its last clock reading.\<close>

definition updated :: "int \<Rightarrow> node \<Rightarrow> env \<Rightarrow> int \<Rightarrow> node \<Rightarrow> env \<Rightarrow> bool" where
  "updated t n w e n' w' \<longleftrightarrow>
     list_all2 (purged t) (req_sorted n) (req_sorted n') \<and>
     node_name n' = node_name n \<and> node_path n' = node_path n \<and> node_type n' = node_type n \<and>
     default_val_index n' = default_val_index n \<and> clock w' = clock w \<and> answers w' = answers w \<and> readings w < readings w' \<and>
     (if wanted t n = current_val_index n \<and> \<not> reset_on_init n then
        current_val_index n' = current_val_index n \<and> \<not> reset_on_init n' \<and> stored w' = stored w \<and> attempts w' = attempts w
      else if answers w (attempts w) = Written then
        current_val_index n' = wanted t n \<and> \<not> reset_on_init n' \<and>
        stored w' = (stored w)(node_path n \<mapsto> GetValues n ! wanted t n) \<and> attempts w' = Suc (attempts w)
      else
        current_val_index n' = current_val_index n \<and> reset_on_init n' = reset_on_init n \<and>
        (\<forall>p. p \<noteq> node_path n \<longrightarrow> stored w' p = stored w p) \<and> attempts w' = Suc (attempts w))"

text \<open>The time after which the looper must look at the node again.\<close>

definition next_look :: "int \<Rightarrow> node \<Rightarrow> node \<Rightarrow> int \<Rightarrow> bool" where
  "next_look t n n' e \<longleftrightarrow> e \<le> ms_max \<and>
     (case first_active t 0 (req_sorted n) of
        None \<Rightarrow> e = ms_max
      | Some i \<Rightarrow>
          (\<forall>x\<in>set (request_map (req_sorted n' ! i)). alive t (snd x) \<and> e \<le> ms_of_ns (snd x - t)) \<and>
          (e = ms_max \<or> (\<exists>x\<in>set (request_map (req_sorted n' ! i)). e = ms_of_ns (snd x - t))))"

lemma purged_values: "list_all2 (purged t) gs gs' \<Longrightarrow> map GetRequestValue gs' = map GetRequestValue gs"
  by (induction rule: list_all2_induct) (auto simp: purged_def GetRequestValue_def)

lemma updated_GetValues: "updated t n w e n' w' \<Longrightarrow> GetValues n' = GetValues n"
  by (auto simp: updated_def GetValues_def dest: purged_values)

lemma purged_ordered:
  "list_all2 (purged t) gs gs' \<Longrightarrow> \<forall>g\<in>set gs. ordered (request_map g) \<Longrightarrow> \<forall>g\<in>set gs'. ordered (request_map g)"
  by (induction rule: list_all2_induct) (auto simp: purged_def)

lemma updated_node_ok:
  assumes "updated t n w e n' w'" and "node_ok n"
  shows "node_ok n'"
proof -
  have "list_all2 (purged t) (req_sorted n) (req_sorted n')" using assms(1) by (simp add: updated_def)
  moreover from this have "length (req_sorted n') = length (req_sorted n)" by (simp add: list_all2_lengthD)
  moreover have "wanted t n < length (req_sorted n)" using assms(2) by (simp add: node_ok_def wanted_bound)
  ultimately show ?thesis
    using assms purged_ordered by (auto simp: node_ok_def updated_def split: if_splits)
qed

lemma Update_spec:
  assumes ok: "node_ok n" and mono: "mono (clock w)"
  obtains k e e0 n' w' where "Update n w = Some (e, n', w')" "readings w \<le> k" "readings w' = Suc k"
    "updated (clock w k) n w e n' w'" "next_look (clock w k) n n' e0"
    "e = (if attempts w' \<noteq> attempts w \<and> answers w (attempts w) \<noteq> Written \<and> node_type n \<noteq> Property
          then min e0 500 else e0)"
proof -
  have ne: "req_sorted n \<noteq> []" using ok by (auto simp: node_ok_def)
  obtain v e0 gs w1 where h: "highest_request 0 (default_val_index n) (req_sorted n) ms_max w = (v, e0, gs, w1)"
    by (cases "highest_request 0 (default_val_index n) (req_sorted n) ms_max w")
  from highest_request_spec [OF mono h ne] obtain k where
    k: "readings w \<le> k" "w1 = w\<lparr>readings := Suc k\<rparr>" "list_all2 (purged (clock w k)) (req_sorted n) gs"
      "v = wanted (clock w k) n" and look: "next_look (clock w k) n (n\<lparr>req_sorted := gs\<rparr>) e0"
    unfolding wanted_def next_look_def by (simp cong: option.case_cong) blast
  have v: "v < length gs" using wanted_bound ok k(3,4) by (simp add: node_ok_def list_all2_lengthD [symmetric])
  have val: "GetRequestValue (gs ! v) = GetValues n ! v"
    using purged_values [OF k(3)] v by (metis GetValues_def nth_map)
  let ?n1 = "n\<lparr>req_sorted := gs\<rparr>" and ?w2 = "w1\<lparr>attempts := Suc (attempts w)\<rparr>" and ?a = "answers w (attempts w)"
  let ?w3 = "?w2\<lparr>stored := (stored w)(node_path n \<mapsto> GetValues n ! v)\<rparr>"
  consider (keep) "v = current_val_index n" "\<not> reset_on_init n"
    | (wrote) "\<not> (v = current_val_index n \<and> \<not> reset_on_init n)" "?a = Written"
    | (fail) "\<not> (v = current_val_index n \<and> \<not> reset_on_init n)" "?a \<noteq> Written"
    by blast
  then show ?thesis
  proof cases
    case keep
    then have "Update n w = Some (e0, ?n1, w1)"
      by (simp add: Update_def FileNode_Update_def PropertyNode_Update_def h k split: node_kind.split)
    moreover have "updated (clock w k) n w e0 ?n1 w1" using keep k by (simp add: updated_def)
    ultimately show ?thesis using k look by (intro that [of e0 ?n1 w1 k e0]) simp_all
  next
    case wrote
    obtain fd where "Update n w = Some (e0, ?n1\<lparr>reset_on_init := False, current_val_index := v, fd_open := fd\<rparr>, ?w3)"
      (is "_ = Some (_, ?n2, _)")
    proof (cases "node_type n")
      case (File hold)
      with wrote v val show ?thesis
        by (intro that [of "hold \<and> v \<noteq> default_val_index n"])
          (auto simp: Update_def FileNode_Update_def h k(2) write_file_def Let_def)
    next
      case Property
      with wrote v val show ?thesis
        by (intro that [of "fd_open n"])
          (auto simp: Update_def PropertyNode_Update_def h k(2) SetProperty_def Let_def)
    qed
    moreover have "updated (clock w k) n w e0 ?n2 ?w3" using wrote k by (simp add: updated_def)
    moreover have "next_look (clock w k) n ?n2 e0" using look by (simp add: next_look_def cong: option.case_cong)
    ultimately show ?thesis using k wrote by (intro that [of e0 ?n2 ?w3 k e0]) simp_all
  next
    case fail
    obtain w' fd where upd: "Update n w = Some (if node_type n \<noteq> Property then min e0 500 else e0, ?n1\<lparr>fd_open := fd\<rparr>, w')"
      (is "_ = Some (?e, ?n2, _)")
      and w': "clock w' = clock w" "answers w' = answers w" "readings w' = Suc k" "attempts w' = Suc (attempts w)"
        "\<forall>p. p \<noteq> node_path n \<longrightarrow> stored w' p = stored w p"
    proof (cases "node_type n")
      case (File hold)
      with fail v show ?thesis
        by (intro that [of "?a = Write_failed" "snd (write_file (node_path n) (GetRequestValue (gs ! v)) w1)"])
          (auto simp: Update_def FileNode_Update_def h k(2) write_file_def Let_def split: write_answer.splits)
    next
      case Property
      with fail v show ?thesis
        by (intro that [of "fd_open n" ?w2])
          (auto simp: Update_def PropertyNode_Update_def h k(2) SetProperty_def Let_def)
    qed
    moreover have "updated (clock w k) n w ?e ?n2 w'" using fail k w' by (simp add: updated_def)
    moreover have "next_look (clock w k) n ?n2 e0" using look by (simp add: next_look_def cong: option.case_cong)
    ultimately show ?thesis using k fail by (intro that [of ?e ?n2 w' k e0]) simp_all
  qed
qed

section \<open>How long the choice stays\<close>

lemma wanted_updated:
  assumes "updated t n w e n' w'" and "t \<le> s"
  shows "wanted s n' = wanted s n"
proof -
  have gs: "list_all2 (purged t) (req_sorted n) (req_sorted n')" and d: "default_val_index n' = default_val_index n"
    using assms(1) by (simp_all add: updated_def)
  show ?thesis by (simp add: wanted_def first_active_purged [OF gs assms(2)] d cong: option.case_cong)
qed

lemma active_at_antimono: "s \<le> t \<Longrightarrow> active_at t g \<Longrightarrow> active_at s g"
  using alive_antimono unfolding active_at_def by blast

lemma first_active_stays:
  assumes "first_active t i gs = Some j" and "t \<le> s" and "active_at s (gs ! (j - i))"
  shows "first_active s i gs = Some j"
  using assms
proof (induction gs arbitrary: i)
  case (Cons g gs)
  show ?case
  proof (cases "active_at t g")
    case False
    then have j: "first_active t (Suc i) gs = Some j" using Cons.prems(1) by simp
    have "\<not> active_at s g" using False active_at_antimono [OF Cons.prems(2)] by blast
    moreover have "active_at s (gs ! (j - Suc i))"
      using Cons.prems(3) first_active_bound [OF j] by (simp add: nth_Cons')
    ultimately show ?thesis using Cons.IH [OF j Cons.prems(2)] by simp
  qed (use Cons.prems in auto)
qed simp

lemma first_active_none: "first_active t i gs = None \<Longrightarrow> t \<le> s \<Longrightarrow> first_active s i gs = None"
  by (induction gs arbitrary: i) (auto split: if_splits dest: active_at_antimono)

lemma next_look_steady:
  assumes upd: "updated t n w e n' w'" and look: "next_look t n n' e0"
    and s: "t \<le> s" "s \<le> t + (e0 - 1) * 1000000"
  shows "wanted s n' = wanted t n"
proof (cases "first_active t 0 (req_sorted n)")
  case None
  then show ?thesis
    using wanted_updated [OF upd s(1)] first_active_none [OF None s(1)] by (simp add: wanted_def)
next
  case (Some i)
  have gs: "list_all2 (purged t) (req_sorted n) (req_sorted n')" using upd by (simp add: updated_def)
  have i: "i < length (req_sorted n)" "active_at t (req_sorted n ! i)" using first_active_bound [OF Some] by auto
  then obtain x where x: "x \<in> set (request_map (req_sorted n ! i))" "alive t (snd x)" by (auto simp: active_at_def)
  have "purged t (req_sorted n ! i) (req_sorted n' ! i)" using list_all2_nthD [OF gs i(1)] .
  with x have "x \<in> set (request_map (req_sorted n' ! i))" by (simp add: purged_def)
  then have "e0 \<le> ms_of_ns (snd x - t)" using look Some by (simp add: next_look_def)
  then have "e0 * 1000000 \<le> snd x - t" using x(2) by (simp add: ms_of_ns_nonneg alive_iff)
  then have "alive s (snd x)" using s by (simp add: alive_iff)
  then have "active_at s (req_sorted n ! i)" using x(1) by (auto simp: active_at_def)
  then have "first_active s 0 (req_sorted n) = Some i" using first_active_stays [OF Some s(1)] by simp
  then show ?thesis using wanted_updated [OF upd s(1)] Some by (simp add: wanted_def)
qed

lemma next_look_progress:
  assumes look: "next_look t n n' e0" and e0: "e0 < ms_max" and s: "t + e0 * 1000000 \<le> s"
  shows "\<exists>x\<in>set (request_map (req_sorted n' ! wanted t n)). alive t (snd x) \<and> \<not> alive s (snd x)"
proof -
  from look e0 obtain i where i: "first_active t 0 (req_sorted n) = Some i"
    and all: "\<forall>x\<in>set (request_map (req_sorted n' ! i)). alive t (snd x)"
    and ex: "\<exists>x\<in>set (request_map (req_sorted n' ! i)). e0 = ms_of_ns (snd x - t)"
    by (cases "first_active t 0 (req_sorted n)") (auto simp: next_look_def)
  from ex obtain x where x: "x \<in> set (request_map (req_sorted n' ! i))" "e0 = ms_of_ns (snd x - t)" by blast
  then have "alive t (snd x)" using all by blast
  moreover from this have "snd x - t < (e0 + 1) * 1000000"
    using x(2) by (simp add: ms_of_ns_nonneg alive_iff)
  ultimately show ?thesis using x(1) i s by (intro bexI [of _ x]) (auto simp: wanted_def alive_iff)
qed

section \<open>A pass over the nodes\<close>

definition settled :: "int \<Rightarrow> int \<Rightarrow> int \<Rightarrow> node \<Rightarrow> node \<Rightarrow> bool" where
  "settled t0 t1 e n n' \<longleftrightarrow> (\<exists>t. t0 \<le> t \<and> t \<le> t1 \<and>
     (\<forall>s \<ge> t. wanted s n' = wanted s n) \<and> node_ok n' \<and> node_type n' = node_type n \<and>
     (current_val_index n' = wanted t n \<and> \<not> reset_on_init n' \<and>
        (\<forall>s. t \<le> s \<and> s \<le> t + (e - 1) * 1000000 \<longrightarrow> wanted s n' = wanted t n)
      \<or> e \<le> 500 \<or> node_type n = Property))"

lemma settled_mono:
  assumes "settled t0 t1 e n n'" and "u0 \<le> t0" "t1 \<le> u1" "e' \<le> e"
  shows "settled u0 u1 e' n n'"
proof -
  from assms(1) obtain t where t: "t0 \<le> t" "t \<le> t1" "\<forall>s \<ge> t. wanted s n' = wanted s n" "node_ok n'" "node_type n' = node_type n"
    and c: "current_val_index n' = wanted t n \<and> \<not> reset_on_init n' \<and>
        (\<forall>s. t \<le> s \<and> s \<le> t + (e - 1) * 1000000 \<longrightarrow> wanted s n' = wanted t n)
      \<or> e \<le> 500 \<or> node_type n = Property"
    unfolding settled_def by blast
  have "s \<le> t + (e - 1) * 1000000" if "s \<le> t + (e' - 1) * 1000000" for s using that assms(4) by simp
  with c assms(4) have "current_val_index n' = wanted t n \<and> \<not> reset_on_init n' \<and>
        (\<forall>s. t \<le> s \<and> s \<le> t + (e' - 1) * 1000000 \<longrightarrow> wanted s n' = wanted t n)
      \<or> e' \<le> 500 \<or> node_type n = Property" by auto
  moreover have "u0 \<le> t" "t \<le> u1" using t(1,2) assms(2,3) by simp_all
  ultimately show ?thesis unfolding settled_def using t(3-5) by (intro exI [of _ t]) simp
qed

lemma Update_settled:
  assumes "node_ok n" and "mono (clock w)"
  obtains e n' w' where "Update n w = Some (e, n', w')" "settled (clock w (readings w)) (clock w (readings w')) e n n'"
    "clock w' = clock w" "readings w \<le> readings w'"
proof -
  obtain k e e0 n' w' where
    u: "Update n w = Some (e, n', w')" "readings w \<le> k" "readings w' = Suc k"
      "updated (clock w k) n w e n' w'" "next_look (clock w k) n n' e0"
      "e = (if attempts w' \<noteq> attempts w \<and> answers w (attempts w) \<noteq> Written \<and> node_type n \<noteq> Property
            then min e0 500 else e0)"
    by (rule Update_spec [OF assms])
  have t: "clock w (readings w) \<le> clock w k" using assms(2) u(2) by (rule monoD)
  have base: "(\<forall>s \<ge> clock w k. wanted s n' = wanted s n) \<and> node_ok n' \<and> node_type n' = node_type n"
    using wanted_updated [OF u(4)] updated_node_ok [OF u(4) assms(1)] u(4) by (simp add: updated_def)
  have t': "clock w k \<le> clock w (readings w')" using assms(2) u(3) by (simp add: monoD)
  have "settled (clock w (readings w)) (clock w (readings w')) e n n'"
  proof (cases "attempts w' \<noteq> attempts w \<and> answers w (attempts w) \<noteq> Written")
    case True
    then have "e \<le> 500 \<or> node_type n = Property" using u(6) by (auto simp: min_def split: if_splits)
    then show ?thesis unfolding settled_def using t t' base by blast
  next
    case False
    then have e: "e = e0" using u(6) by auto
    have "current_val_index n' = wanted (clock w k) n \<and> \<not> reset_on_init n'"
      using False u(4) by (auto simp: updated_def split: if_splits)
    moreover have "\<forall>s. clock w k \<le> s \<and> s \<le> clock w k + (e - 1) * 1000000 \<longrightarrow> wanted s n' = wanted (clock w k) n"
      using next_look_steady [OF u(4,5)] e by blast
    ultimately show ?thesis unfolding settled_def using t t' base by blast
  qed
  then show ?thesis using u(1-4) by (intro that [of e n' w']) (auto simp: updated_def)
qed

end
