(* ===== verification/Perf_Hints_Lemmas.thy ===== *)
theory Perf_Hints_Lemmas
  imports Perf_Lemmas
begin

text \<open>
  Facts about the looper thread, the hint manager and the parser: a round of the looper, the
  effect of giving and ending a hint, and what an accepted configuration looks like.
\<close>

section \<open>A round of the looper\<close>

lemma update_pass_settled:
  assumes "\<forall>n\<in>set ns. node_ok n" and "mono (clock w)"
  shows "\<exists>e' ns' w'. update_pass ns e w = Some (e', ns', w') \<and> e' \<le> e \<and> clock w' = clock w \<and> readings w \<le> readings w' \<and>
    list_all2 (settled (clock w (readings w)) (clock w (readings w')) e') ns ns'"
  using assms
proof (induction ns arbitrary: e w)
  case (Cons n ns)
  obtain e1 n1 w1 where u: "Update n w = Some (e1, n1, w1)" "settled (clock w (readings w)) (clock w (readings w1)) e1 n n1"
      "clock w1 = clock w" "readings w \<le> readings w1"
    by (rule Update_settled [of n w]) (use Cons.prems in auto)
  have prems: "\<forall>n\<in>set ns. node_ok n" "mono (clock w1)" using Cons.prems u(3) by simp_all
  obtain e' ns' w' where p: "update_pass ns (min e1 e) w1 = Some (e', ns', w')" "e' \<le> min e1 e" "clock w' = clock w1"
      "readings w1 \<le> readings w'" "list_all2 (settled (clock w1 (readings w1)) (clock w1 (readings w')) e') ns ns'"
    using Cons.IH [OF prems, of "min e1 e"] by blast
  note m = Cons.prems(2) [THEN monoD]
  have "list_all2 (settled (clock w (readings w)) (clock w (readings w')) e') ns ns'"
    using p(5)
  proof (rule list_all2_mono)
    fix a b assume "settled (clock w1 (readings w1)) (clock w1 (readings w')) e' a b"
    then show "settled (clock w (readings w)) (clock w (readings w')) e' a b"
      by (rule settled_mono) (use u m in auto)
  qed
  moreover have "settled (clock w (readings w)) (clock w (readings w')) e' n n1"
    using u(2) by (rule settled_mono) (use p m in auto)
  ultimately show ?case using u p by simp
qed simp

lemma settled_trans:
  assumes "settled t0 t1 e0 n n1" and "settled t1 t2 e n1 n2" and "t0 \<le> t1"
  shows "settled t0 t2 e n n2"
proof -
  from assms(1) have n1: "\<forall>s \<ge> t1. wanted s n1 = wanted s n" "node_type n1 = node_type n"
    by (auto simp: settled_def)
  from assms(2) obtain t where t: "t1 \<le> t" "t \<le> t2" "\<forall>s \<ge> t. wanted s n2 = wanted s n1" "node_ok n2" "node_type n2 = node_type n1"
    "current_val_index n2 = wanted t n1 \<and> \<not> reset_on_init n2 \<and>
        (\<forall>s. t \<le> s \<and> s \<le> t + (e - 1) * 1000000 \<longrightarrow> wanted s n2 = wanted t n1)
      \<or> e \<le> 500 \<or> node_type n1 = Property"
    unfolding settled_def by blast
  have w: "wanted t n1 = wanted t n" using n1(1) t(1) by blast
  have s: "\<forall>s \<ge> t. wanted s n2 = wanted s n" using n1(1) t(1,3) order_trans [of t1 t] by metis
  have "t0 \<le> t" using assms(3) t(1) by simp
  with s t(2,4-6) show ?thesis unfolding settled_def w n1(2) by blast
qed

lemma settled_list_trans:
  "list_all2 (settled t0 t1 e0) ns ns1 \<Longrightarrow> list_all2 (settled t1 t2 e) ns1 ns2 \<Longrightarrow> t0 \<le> t1 \<Longrightarrow>
   list_all2 (settled t0 t2 e) ns ns2"
  by (rule list_all2_trans [of "settled t0 t1 e0" "settled t1 t2 e"]) (auto intro: settled_trans)

lemma settled_node_ok: "list_all2 (settled t0 t1 e) ns ns' \<Longrightarrow> \<forall>n\<in>set ns'. node_ok n"
  by (induction rule: list_all2_induct) (auto simp: settled_def)

lemma threadLoop_settled:
  assumes "\<forall>n\<in>set (nodes l). node_ok n" and "mono (clock w)"
  obtains e l' w' where "threadLoop l w = Some (True, sleep_ns e, l', w')" "l' = l\<lparr>nodes := nodes l'\<rparr>" "e \<le> ms_max"
    "clock w' = clock w" "readings w \<le> readings w'"
    "list_all2 (settled (clock w (readings w)) (clock w (readings w')) e) (nodes l) (nodes l')"
proof -
  obtain e1 ns1 w1 where p1: "update_pass (nodes l) ms_max w = Some (e1, ns1, w1)" "clock w1 = clock w" "readings w \<le> readings w1"
      "list_all2 (settled (clock w (readings w)) (clock w (readings w1)) e1) (nodes l) ns1"
    using update_pass_settled [OF assms, of ms_max] by blast
  have "mono (clock w1)" using assms(2) p1(2) by simp
  then obtain e ns2 w2 where p2: "update_pass ns1 ms_max w1 = Some (e, ns2, w2)" "e \<le> ms_max" "clock w2 = clock w1"
      "readings w1 \<le> readings w2" "list_all2 (settled (clock w1 (readings w1)) (clock w1 (readings w2)) e) ns1 ns2"
    using update_pass_settled [OF settled_node_ok [OF p1(4)], of w1 ms_max] by blast
  have "list_all2 (settled (clock w (readings w)) (clock w (readings w2)) e) (nodes l) ns2"
    using settled_list_trans [OF p1(4)] p2(5) p1(2,3) monoD [OF assms(2) p1(3)] by simp
  then show ?thesis
    using p1 p2 by (intro that [of e "l\<lparr>nodes := ns2\<rparr>" w2]) (simp_all add: threadLoop_def)
qed

section \<open>Giving and ending hints\<close>

definition without :: "string \<Rightarrow> RequestGroup \<Rightarrow> RequestGroup" where
  "without h g = g\<lparr>request_map := map_erase h (request_map g)\<rparr>"

definition node_without :: "string \<Rightarrow> node \<Rightarrow> node" where
  "node_without h n = n\<lparr>req_sorted := map (without h) (req_sorted n)\<rparr>"

lemma remove_loop_without: "snd (remove_loop h gs ret) = map (without h) gs"
  by (induction gs arbitrary: ret) (simp_all add: group_RemoveRequest_def without_def case_prod_unfold)

lemma remove_loop_found:
  "fst (remove_loop h gs ret) \<longleftrightarrow> ret \<or> (\<exists>g\<in>set gs. map_of (request_map g) h \<noteq> None)"
  by (induction gs arbitrary: ret) (auto simp: group_RemoveRequest_def case_prod_unfold)

lemma node_RemoveRequest_without: "snd (node_RemoveRequest h n) = node_without h n"
  using remove_loop_without [of h "req_sorted n" False]
  by (simp add: node_RemoveRequest_def node_without_def case_prod_unfold)

lemma map_erase_put: "map_erase k (map_put k v m) = map_erase k m"
  by (induction m) (auto simp: map_erase_def)

lemma without_add: "without h (snd (group_AddRequest h e g)) = without h g"
  by (auto simp: without_def group_AddRequest_def map_erase_put split: option.splits)

lemma node_without_add: "node_without h (snd (node_AddRequest v h e n)) = node_without h n"
  by (auto simp: node_without_def node_AddRequest_def map_update without_add list_update_id
      intro!: node.equality list_update_same_conv [THEN iffD2])

text \<open>The nodes after a cancellation: each node that an action names loses the hint.\<close>

definition cancelled :: "NodeAction list \<Rightarrow> string \<Rightarrow> node list \<Rightarrow> node list" where
  "cancelled as h ns = map (\<lambda>i. if i \<in> node_index ` set as then node_without h (ns ! i) else ns ! i) [0..<length ns]"

lemma length_cancelled [simp]: "length (cancelled as h ns) = length ns"
  by (simp add: cancelled_def)

lemma nth_cancelled:
  "i < length ns \<Longrightarrow> cancelled as h ns ! i = (if i \<in> node_index ` set as then node_without h (ns ! i) else ns ! i)"
  by (simp add: cancelled_def)

lemma node_without_idem: "node_without h (node_without h n) = node_without h n"
  by (simp add: node_without_def without_def map_erase_def)

lemma cancel_loop_cancelled:
  "cancel_loop as h ns ret = (ret \<and> (\<forall>a\<in>set as. node_index a < length ns), cancelled as h ns)"
proof (induction as arbitrary: ns ret)
  case Nil
  show ?case by (auto simp: cancelled_def intro!: nth_equalityI)
next
  case (Cons a as)
  show ?case
  proof (cases "node_index a < length ns")
    case True
    let ?ns = "ns[node_index a := node_without h (ns ! node_index a)]"
    have same: "node_without h (?ns ! j) = node_without h (ns ! j)" for j
      using True by (cases "j = node_index a") (auto simp: node_without_idem)
    have "cancelled as h ?ns = cancelled (a # as) h ns"
      using same by (intro nth_equalityI) (auto simp: nth_cancelled nth_list_update node_without_idem)
    then show ?thesis using True Cons.IH [of ?ns ret] by (simp add: node_RemoveRequest_without)
  next
    case False
    have "cancelled as h ns = cancelled (a # as) h ns" using False by (auto simp: cancelled_def)
    then show ?thesis using False Cons.IH [of ns False] by simp
  qed
qed

lemma request_loop_ConsE:
  assumes "request_loop (a # as) h ns ret w = Some (r, ns', w')" and "node_index a < length ns"
  obtains e w1 where "request_end (timeout_ms a) w = Some (e, w1)"
    "request_loop as h (ns[node_index a := snd (node_AddRequest (value_index a) h e (ns ! node_index a))])
       (fst (node_AddRequest (value_index a) h e (ns ! node_index a)) \<and> ret) w1 = Some (r, ns', w')"
  using assms by (auto simp: bind_eq_Some_conv case_prod_unfold Let_def)

lemma cancelled_request_loop:
  "request_loop as h ns ret w = Some (r, ns', w') \<Longrightarrow> set as \<subseteq> set bs \<Longrightarrow> cancelled bs h ns' = cancelled bs h ns"
proof (induction as arbitrary: ns ret w)
  case (Cons a as)
  show ?case
  proof (cases "node_index a < length ns")
    case True
    obtain e w1 where rq: "request_loop as h (ns[node_index a := snd (node_AddRequest (value_index a) h e (ns ! node_index a))])
       (fst (node_AddRequest (value_index a) h e (ns ! node_index a)) \<and> ret) w1 = Some (r, ns', w')"
      by (rule request_loop_ConsE [OF Cons.prems(1) True])
    let ?n = "snd (node_AddRequest (value_index a) h e (ns ! node_index a))"
    have "cancelled bs h (ns[node_index a := ?n]) = cancelled bs h ns"
      using True Cons.prems(2) node_without_add [of h "value_index a" e "ns ! node_index a"]
      by (intro nth_equalityI) (auto simp: nth_cancelled nth_list_update)
    with Cons.IH [OF rq] Cons.prems(2) show ?thesis by simp
  qed (use Cons in auto)
qed simp

lemma request_loop_length: "request_loop as h ns ret w = Some (r, ns', w') \<Longrightarrow> length ns' = length ns"
proof (induction as arbitrary: ns ret w)
  case (Cons a as)
  show ?case
  proof (cases "node_index a < length ns")
    case True
    show ?thesis by (rule request_loop_ConsE [OF Cons.prems True]) (drule Cons.IH, simp)
  qed (use Cons in auto)
qed simp

section \<open>What a hint does to a node\<close>

definition hint_end :: "int \<Rightarrow> int \<Rightarrow> int" where
  "hint_end now timeout =
     (if timeout = 0 \<or> ms_of_ns (time_point_max - now) \<le> timeout then time_point_max else now + timeout * 1000000)"

definition clock_ok :: "env \<Rightarrow> bool" where
  "clock_ok w \<longleftrightarrow> mono (clock w) \<and> (\<forall>k. 0 \<le> clock w k \<and> clock w k \<le> time_point_max)"

text \<open>The check before the addition keeps it from overflowing.\<close>

lemma request_end_ok:
  assumes "clock_ok w" and "-9223372036854 \<le> timeout"
  shows "\<exists>w'. request_end timeout w = Some (hint_end (clock w (readings w)) timeout, w') \<and> clock w' = clock w"
proof -
  let ?now = "clock w (readings w)"
  have now: "0 \<le> ?now" "?now \<le> time_point_max" using assms(1) by (auto simp: clock_ok_def)
  have "?now + timeout * 1000000 \<le> time_point_max" "timeout * 1000000 \<le> time_point_max"
    if "timeout < ms_of_ns (time_point_max - ?now)"
  proof -
    have "timeout * 1000000 \<le> time_point_max - ?now" using that now by (simp add: ms_of_ns_nonneg)
    then show "?now + timeout * 1000000 \<le> time_point_max" "timeout * 1000000 \<le> time_point_max" using now by simp_all
  qed
  then show ?thesis
    using now assms(2) by (auto simp: request_end_def read_clock_def hint_end_def int64_def time_point_max_def not_less)
qed

lemma request_end_clock: "request_end timeout w = Some (e, w') \<Longrightarrow> clock w' = clock w \<and> readings w \<le> readings w'"
  by (auto simp: request_end_def read_clock_def bind_eq_Some_conv split: if_splits)

lemma active_at_add:
  assumes "ordered (request_map g)"
  shows "active_at s (snd (group_AddRequest h e g)) \<longleftrightarrow> alive s e \<or> active_at s g"
proof -
  have entries: "active_at s g' \<longleftrightarrow> (\<exists>a b. (a, b) \<in> set (request_map g') \<and> alive s b)" for g'
    unfolding active_at_def by (metis prod.collapse snd_conv)
  have put: "active_at s (g\<lparr>request_map := map_put h e (request_map g)\<rparr>) \<longleftrightarrow>
      alive s e \<or> (\<exists>a b. a \<noteq> h \<and> (a, b) \<in> set (request_map g) \<and> alive s b)"
    unfolding entries by (simp add: in_map_put [OF assms]) metis
  show ?thesis
  proof (cases "map_of (request_map g) h")
    case None
    then have "(h, b) \<notin> set (request_map g)" for b by (force simp: map_of_eq_None_iff)
    then have "active_at s g \<longleftrightarrow> (\<exists>a b. a \<noteq> h \<and> (a, b) \<in> set (request_map g) \<and> alive s b)"
      unfolding entries by metis
    then show ?thesis using None put by (simp add: group_AddRequest_def)
  next
    case (Some t)
    then have t: "(h, t) \<in> set (request_map g)" by (rule map_of_SomeD)
    have uniq: "b = t" if "(h, b) \<in> set (request_map g)" for b
      using that Some ordered_distinct [OF assms] by (simp add: map_of_is_SomeI)
    have split: "active_at s g \<longleftrightarrow> alive s t \<or> (\<exists>a b. a \<noteq> h \<and> (a, b) \<in> set (request_map g) \<and> alive s b)"
      unfolding entries using t uniq by metis
    have "t < e \<Longrightarrow> alive s t \<Longrightarrow> alive s e" "\<not> t < e \<Longrightarrow> alive s e \<Longrightarrow> alive s t" by (simp_all add: alive_iff)
    then show ?thesis using Some put split by (cases "t < e") (auto simp: group_AddRequest_def)
  qed
qed

lemma first_active_add:
  assumes "v < length gs" and "\<And>s'. s' = s \<Longrightarrow> active_at s g \<longleftrightarrow> on \<or> active_at s (gs ! v)"
  shows "first_active s i (gs[v := g]) =
    (if on then Some (case first_active s i gs of Some j \<Rightarrow> min j (i + v) | None \<Rightarrow> i + v) else first_active s i gs)"
  using assms
proof (induction gs arbitrary: i v)
  case (Cons g0 gs)
  show ?case
  proof (cases v)
    case 0
    then show ?thesis using Cons.prems(2) first_active_bound [of s "Suc i" gs] by (force split: option.splits)
  next
    case (Suc v')
    then have "v' < length gs" "\<And>s'. s' = s \<Longrightarrow> active_at s g \<longleftrightarrow> on \<or> active_at s (gs ! v')" using Cons.prems by auto
    from Cons.IH [OF this] Suc show ?thesis by (auto split: option.splits)
  qed
qed simp

text \<open>The value a node wants while a hint for \<open>v\<close> is given: the better of \<open>v\<close> and what it wanted.\<close>

definition boosted :: "int \<Rightarrow> nat \<Rightarrow> node \<Rightarrow> nat" where
  "boosted s v n = (case first_active s 0 (req_sorted n) of Some j \<Rightarrow> min j v | None \<Rightarrow> v)"

lemma wanted_add:
  assumes "node_ok n" and "v < length (req_sorted n)"
  shows "wanted s (snd (node_AddRequest v h e n)) = (if alive s e then boosted s v n else wanted s n)"
proof -
  have "ordered (request_map (req_sorted n ! v))" using assms by (simp add: node_ok_def)
  from first_active_add [OF assms(2), of s "snd (group_AddRequest h e (req_sorted n ! v))" "alive s e" 0] active_at_add [OF this]
  show ?thesis using assms(2) by (auto simp: wanted_def boosted_def node_AddRequest_def split: option.splits)
qed

lemma node_ok_add:
  assumes "node_ok n"
  shows "node_ok (snd (node_AddRequest v h e n))"
proof -
  have "ordered (request_map (snd (group_AddRequest h e g)))" if "ordered (request_map g)" for g
    using that by (auto simp: group_AddRequest_def ordered_map_put split: option.splits)
  then show ?thesis using assms by (auto simp: node_ok_def node_AddRequest_def dest!: set_update_subset_insert [THEN subsetD])
qed

lemma node_ok_without: "node_ok n \<Longrightarrow> node_ok (node_without h n)"
  by (auto simp: node_ok_def node_without_def without_def ordered_map_erase)

lemma request_loop_total:
  assumes "clock_ok w" and "\<forall>a\<in>set as. -9223372036854 \<le> timeout_ms a"
  shows "\<exists>ns' w'. request_loop as h ns ret w =
    Some (ret \<and> (\<forall>a\<in>set as. node_index a < length ns \<and> value_index a < length (req_sorted (ns ! node_index a))), ns', w')"
  using assms
proof (induction as arbitrary: ns ret w)
  case (Cons a as)
  show ?case
  proof (cases "node_index a < length ns")
    case True
    let ?n = "ns ! node_index a"
    obtain w1 where w1: "request_end (timeout_ms a) w = Some (hint_end (clock w (readings w)) (timeout_ms a), w1)" "clock w1 = clock w"
      using request_end_ok [OF Cons.prems(1)] Cons.prems(2) by auto
    let ?r = "node_AddRequest (value_index a) h (hint_end (clock w (readings w)) (timeout_ms a)) ?n"
    have ok: "fst ?r \<longleftrightarrow> value_index a < length (req_sorted ?n)" by (auto simp: node_AddRequest_def)
    have len: "length (req_sorted (ns[node_index a := snd ?r] ! j)) = length (req_sorted (ns ! j))" for j
      using True by (cases "j = node_index a") (auto simp: node_AddRequest_def)
    have "clock_ok w1" using Cons.prems(1) w1(2) by (simp add: clock_ok_def)
    then obtain ns' w' where "request_loop as h (ns[node_index a := snd ?r]) (fst ?r \<and> ret) w1 =
        Some ((fst ?r \<and> ret) \<and> (\<forall>a\<in>set as. node_index a < length ns \<and> value_index a < length (req_sorted (ns ! node_index a))), ns', w')"
      using Cons.IH [of w1 "ns[node_index a := snd ?r]" "fst ?r \<and> ret"] Cons.prems(2) len by auto
    then show ?thesis using True w1(1) ok by (auto simp: case_prod_unfold Let_def)
  next
    case False
    then show ?thesis using Cons.IH [OF Cons.prems(1), of ns False] Cons.prems(2) by auto
  qed
qed simp

lemma request_loop_clock: "request_loop as h ns ret w = Some (r, ns', w') \<Longrightarrow> clock w' = clock w \<and> readings w \<le> readings w'"
proof (induction as arbitrary: ns ret w)
  case (Cons a as)
  show ?case
  proof (cases "node_index a < length ns")
    case True
    show ?thesis
      by (rule request_loop_ConsE [OF Cons.prems True]) (drule Cons.IH, drule request_end_clock, simp)
  qed (use Cons in auto)
qed simp

lemma request_loop_other: "request_loop as h ns ret w = Some (r, ns', w') \<Longrightarrow> j \<notin> node_index ` set as \<Longrightarrow> ns' ! j = ns ! j"
proof (induction as arbitrary: ns ret w)
  case (Cons a as)
  show ?case
  proof (cases "node_index a < length ns")
    case True
    show ?thesis
      by (rule request_loop_ConsE [OF Cons.prems(1) True]) (drule Cons.IH, use Cons.prems(2) in auto)
  qed (use Cons in auto)
qed simp

text \<open>The end time of a request that an action makes, at the clock reading \<open>k\<close> taken for it.\<close>

lemma request_loop_node:
  assumes "request_loop as h ns ret w = Some (r, ns', w')" and "distinct (map node_index as)"
    and "a \<in> set as" and "node_index a < length ns"
  shows "\<exists>wa e wb. request_end (timeout_ms a) wa = Some (e, wb) \<and> clock wa = clock w \<and> readings wa \<le> readings w' \<and>
    ns' ! node_index a = snd (node_AddRequest (value_index a) h e (ns ! node_index a))"
  using assms
proof (induction as arbitrary: ns ret w)
  case (Cons b as)
  show ?case
  proof (cases "node_index b < length ns")
    case True
    obtain e w1 where rq: "request_end (timeout_ms b) w = Some (e, w1)"
      "request_loop as h (ns[node_index b := snd (node_AddRequest (value_index b) h e (ns ! node_index b))])
         (fst (node_AddRequest (value_index b) h e (ns ! node_index b)) \<and> ret) w1 = Some (r, ns', w')"
      by (rule request_loop_ConsE [OF Cons.prems(1) True])
    show ?thesis
    proof (cases "a = b")
      case eq: True
      then have "ns' ! node_index a = snd (node_AddRequest (value_index b) h e (ns ! node_index b))"
        using request_loop_other [OF rq(2)] Cons.prems(2) True by simp
      moreover have "readings w \<le> readings w'" using request_loop_clock [OF Cons.prems(1)] by simp
      ultimately show ?thesis using rq(1) eq by blast
    next
      case False
      then have a: "a \<in> set as" using Cons.prems(3) by simp
      moreover have "node_index a \<noteq> node_index b" using Cons.prems(2) imageI [OF a, of node_index] by auto
      ultimately show ?thesis using Cons.IH [OF rq(2)] Cons.prems(2,4) request_end_clock [OF rq(1)] by simp
    qed
  qed (use Cons in auto)
qed simp

definition actions_ok :: "node list \<Rightarrow> NodeAction list \<Rightarrow> bool" where
  "actions_ok ns as \<longleftrightarrow> distinct (map node_index as) \<and>
     (\<forall>a\<in>set as. node_index a < length ns \<and> value_index a < length (req_sorted (ns ! node_index a)))"

definition manager_ok :: "HintManager \<Rightarrow> bool" where
  "manager_ok hm \<longleftrightarrow> (\<exists>l. nm hm = Some l \<and> (\<forall>n\<in>set (nodes l). node_ok n) \<and>
     (\<forall>(h, as)\<in>set (hint_actions hm). actions_ok (nodes l) as))"

lemma DoHint_cases:
  assumes "manager_ok hm" and "clock_ok w" and "map_of (hint_actions hm) h = Some as" and "\<forall>a\<in>set as. -9223372036854 \<le> timeout_ms a"
    and "nm hm = Some l" and "\<not> exitPending l"
  obtains l' w' where "DoHint h hm w = Some (True, hm\<lparr>nm := Some l'\<rparr>, w')"
    "l' = l\<lparr>nodes := nodes l', wake_signals := Suc (wake_signals l)\<rparr>"
    "request_loop as h (nodes l) True w = Some (True, nodes l', w')" "actions_ok (nodes l) as"
proof -
  have ok: "actions_ok (nodes l) as"
    using assms(1,5) map_of_SomeD [OF assms(3)] by (auto simp: manager_ok_def)
  then obtain ns' w' where "request_loop as h (nodes l) True w = Some (True, ns', w')"
    using request_loop_total [OF assms(2,4), of h "nodes l" True] by (auto simp: actions_ok_def)
  then show ?thesis
    using assms(3,5,6) ok
    by (intro that [of "l\<lparr>nodes := ns', wake_signals := Suc (wake_signals l)\<rparr>" w'])
      (auto simp: DoHint_def ValidateHint_def IsHintSupported_def request_on_def Request_def)
qed

lemma length_req_sorted_add: "length (req_sorted (snd (node_AddRequest v h e n))) = length (req_sorted n)"
  by (simp add: node_AddRequest_def)

lemma request_loop_nodes_ok:
  "request_loop as h ns ret w = Some (r, ns', w') \<Longrightarrow> \<forall>n\<in>set ns. node_ok n \<Longrightarrow>
   (\<forall>n\<in>set ns'. node_ok n) \<and> map (\<lambda>n. length (req_sorted n)) ns' = map (\<lambda>n. length (req_sorted n)) ns"
proof (induction as arbitrary: ns ret w)
  case (Cons a as)
  show ?case
  proof (cases "node_index a < length ns")
    case True
    obtain e w1 where rq: "request_loop as h (ns[node_index a := snd (node_AddRequest (value_index a) h e (ns ! node_index a))])
        (fst (node_AddRequest (value_index a) h e (ns ! node_index a)) \<and> ret) w1 = Some (r, ns', w')"
      by (rule request_loop_ConsE [OF Cons.prems(1) True])
    let ?n = "snd (node_AddRequest (value_index a) h e (ns ! node_index a))"
    have "\<forall>n\<in>set (ns[node_index a := ?n]). node_ok n"
      using Cons.prems(2) True node_ok_add by (auto dest!: set_update_subset_insert [THEN subsetD])
    moreover have "map (\<lambda>n. length (req_sorted n)) (ns[node_index a := ?n]) = map (\<lambda>n. length (req_sorted n)) ns"
      using True by (intro nth_equalityI) (auto simp: nth_list_update length_req_sorted_add)
    ultimately show ?thesis using Cons.IH [OF rq] by simp
  qed (use Cons in auto)
qed simp

section \<open>Accepted configurations\<close>

definition node_wf :: "node \<Rightarrow> bool" where
  "node_wf n \<longleftrightarrow> node_ok n \<and> node_name n \<noteq> [] \<and> node_path n \<noteq> [] \<and> distinct (GetValues n) \<and>
     (node_type n \<noteq> Property \<longrightarrow> [] \<notin> set (GetValues n)) \<and> current_val_index n = default_val_index n \<and>
     (\<forall>g\<in>set (req_sorted n). request_map g = [])"

definition nodes_wf :: "node list \<Rightarrow> bool" where
  "nodes_wf ns \<longleftrightarrow> distinct (map node_name ns) \<and> distinct (map node_path ns) \<and> (\<forall>n\<in>set ns. node_wf n)"

definition actions_wf :: "node list \<Rightarrow> (string \<times> NodeAction list) list \<Rightarrow> bool" where
  "actions_wf ns as \<longleftrightarrow> ordered as \<and>
     (\<forall>(h, acts)\<in>set as. h \<noteq> [] \<and> acts \<noteq> [] \<and> actions_ok ns acts \<and>
        (\<forall>a\<in>set acts. -9223372036854775808 \<le> timeout_ms a \<and> timeout_ms a < 9223372036854775808))"

lemma parse_values_wf:
  "parse_values J vs is_file js acc = Some (Some values) \<Longrightarrow> distinct acc \<Longrightarrow> (is_file \<longrightarrow> [] \<notin> set acc) \<Longrightarrow>
   distinct values \<and> (is_file \<longrightarrow> [] \<notin> set values)"
  by (induction js arbitrary: acc) (fastforce simp: bind_eq_Some_conv split: if_splits)+

lemma values_of_groups: "map GetRequestValue (map new_RequestGroup values) = values"
  by (simp add: GetRequestValue_def new_RequestGroup_def comp_def)

lemma parse_node_rest_wf:
  assumes "parse_node_rest J nd name path is_file values = Some (Some n)" and "1 \<le> length values"
    and "distinct values" "is_file \<longrightarrow> [] \<notin> set values" and "name \<noteq> []" "path \<noteq> []"
  shows "node_wf n \<and> node_name n = name \<and> node_path n = path"
proof -
  obtain d reset where nd: "\<not> length values - 1 < d"
    "if is_file then \<exists>hold. n = new_FileNode name path (map new_RequestGroup values) d reset hold
     else n = new_PropertyNode name path (map new_RequestGroup values) d reset"
    using assms(1) unfolding parse_node_rest_def
    by (cases is_file) (auto simp: bind_eq_Some_conv split: if_split_asm)
  from nd(1) assms(2) have "d < length values" by linarith
  with nd(2) show ?thesis
    using assms(3-6) values_of_groups [of "values"]
    by (cases is_file)
      (auto simp: node_wf_def node_ok_def GetValues_def new_PropertyNode_def new_FileNode_def new_Node_def new_RequestGroup_def
        GetRequestValue_def)
qed

lemma parse_node_wf:
  assumes "parse_node J nd parsed = Some (Some n)"
  shows "node_wf n \<and> node_name n \<notin> node_name ` set parsed \<and> node_path n \<notin> node_path ` set parsed"
proof -
  obtain name path is_file vs js "values" where
    "name \<noteq> []" "name \<notin> node_name ` set parsed" "path \<noteq> []" "path \<notin> node_path ` set parsed"
    "parse_values J vs is_file js [] = Some (Some values)" "\<not> length values < 1"
    "parse_node_rest J nd name path is_file values = Some (Some n)"
    using assms unfolding parse_node_def by (auto simp: bind_eq_Some_conv split: if_splits option.splits)
  with parse_values_wf [of J vs is_file js "[]" "values"] parse_node_rest_wf [of J nd name path is_file "values" n]
  show ?thesis by auto
qed

lemma parse_nodes_loop_wf:
  "parse_nodes_loop J nds is parsed = Some (Some ns) \<Longrightarrow> nodes_wf parsed \<Longrightarrow> nodes_wf ns"
proof (induction "is" arbitrary: parsed)
  case (Cons i "is")
  then obtain nd n where n: "parse_node J nd parsed = Some (Some n)" "parse_nodes_loop J nds is (parsed @ [n]) = Some (Some ns)"
    by (auto simp: bind_eq_Some_conv split: option.splits)
  have "nodes_wf (parsed @ [n])" using parse_node_wf [OF n(1)] Cons.prems(2) by (auto simp: nodes_wf_def)
  with Cons.IH [OF n(2)] show ?case .
qed simp

lemma ParseNodes_wf: "ParseNodes J doc = Some ns \<Longrightarrow> nodes_wf ns"
  using parse_nodes_loop_wf
  by (fastforce simp: ParseNodes_def nodes_wf_def bind_eq_Some_conv split: option.splits)

lemma nodes_index_upto:
  fixes ns :: "node list"
  defines "f k \<equiv> fold (\<lambda>i m. map_put (node_name (ns ! i)) i m) [0..<k] []"
  shows "ordered (f k) \<and> (\<forall>x i. map_of (f k) x = Some i \<longrightarrow> i < k \<and> node_name (ns ! i) = x)"
proof (induction k)
  case (Suc k)
  have "f (Suc k) = map_put (node_name (ns ! k)) k (f k)" by (simp add: f_def)
  moreover have "map_of (map_put (node_name (ns ! k)) k (f k)) = (map_of (f k))(node_name (ns ! k) \<mapsto> k)"
    using Suc by (simp add: map_of_map_put)
  ultimately show ?case using Suc by (auto simp: ordered_map_put less_Suc_eq split: if_split_asm)
qed (simp add: f_def)

lemma nodes_index_bound: "map_of (nodes_index ns) x = Some i \<Longrightarrow> i < length ns \<and> node_name (ns ! i) = x"
  unfolding nodes_index_def using nodes_index_upto [of ns "length ns"] by blast

lemma value_index_from_bound: "value_index_from i gs v = Some k \<Longrightarrow> i \<le> k \<and> k < i + length gs \<and> GetRequestValue (gs ! (k - i)) = v"
proof (induction gs arbitrary: i)
  case (Cons g gs)
  show ?case
  proof (cases "GetRequestValue g = v")
    case False
    with Cons.prems have "value_index_from (Suc i) gs v = Some k" by simp
    from Cons.IH [OF this] show ?thesis by (auto simp: nth_Cons')
  qed (use Cons.prems in auto)
qed simp

lemma GetValueIndex_bound: "GetValueIndex n v = Some k \<Longrightarrow> k < length (req_sorted n) \<and> GetValues n ! k = v"
  using value_index_from_bound [of 0 "req_sorted n" v k] by (auto simp: GetValueIndex_def GetValues_def)

lemma sint_u64_bounds: "-9223372036854775808 \<le> sint (x :: u64)" "sint (x :: u64) < 9223372036854775808"
  using sint_ge [of x] sint_lt [of x] by simp_all

lemma add_action_wf:
  assumes "add_action h a as = Some as'" and "actions_wf ns as" and "h \<noteq> []"
    and "node_index a < length ns" "value_index a < length (req_sorted (ns ! node_index a))"
    and "-9223372036854775808 \<le> timeout_ms a" "timeout_ms a < 9223372036854775808"
  shows "actions_wf ns as'"
proof -
  have ord: "ordered as" using assms(2) by (simp add: actions_wf_def)
  obtain acts where acts: "as' = map_put h (acts @ [a]) as" "actions_ok ns (acts @ [a])"
    "\<forall>b\<in>set acts. -9223372036854775808 \<le> timeout_ms b \<and> timeout_ms b < 9223372036854775808"
  proof (cases "map_of as h")
    case None
    then show ?thesis using assms(1,4,5) by (intro that [of "[]"]) (auto simp: add_action_def actions_ok_def)
  next
    case (Some acts)
    then have "(h, acts) \<in> set as" by (rule map_of_SomeD)
    then have "actions_ok ns acts" "\<forall>b\<in>set acts. -9223372036854775808 \<le> timeout_ms b \<and> timeout_ms b < 9223372036854775808"
      using assms(2) by (auto simp: actions_wf_def)
    then show ?thesis
      using assms(1,4,5) Some by (intro that [of acts]) (auto simp: add_action_def actions_ok_def split: if_splits)
  qed
  show ?thesis
    unfolding actions_wf_def
  proof (intro conjI ballI)
    show "ordered as'" using ord acts(1) by (simp add: ordered_map_put)
    fix x assume "x \<in> set as'"
    then have "x = (h, acts @ [a]) \<or> x \<in> set as"
      using set_map_put [of x h "acts @ [a]" as] acts(1) by blast
    then show "case x of (h, acts) \<Rightarrow> h \<noteq> [] \<and> acts \<noteq> [] \<and> actions_ok ns acts \<and>
        (\<forall>a\<in>set acts. -9223372036854775808 \<le> timeout_ms a \<and> timeout_ms a < 9223372036854775808)"
      using assms acts(2,3) by (auto simp: actions_wf_def)
  qed
qed

lemma parse_action_wf:
  assumes "parse_action J ac ns as = Some (Some as')" and "actions_wf ns as"
  shows "actions_wf ns as'"
proof -
  obtain h name i vn v d where p:
    "h \<noteq> []" "map_of (nodes_index ns) name = Some i" "GetValueIndex (ns ! i) vn = Some v"
    "add_action h \<lparr>node_index = i, value_index = v, timeout_ms = sint (asUInt64 J d)\<rparr> as = Some as'"
    using assms(1) unfolding parse_action_def by (auto simp: bind_eq_Some_conv split: if_splits option.splits)
  show ?thesis
    by (rule add_action_wf [OF p(4) assms(2) p(1)])
      (use nodes_index_bound [OF p(2)] GetValueIndex_bound [OF p(3)] sint_u64_bounds [of "asUInt64 J d"] in simp_all)
qed

lemma parse_actions_loop_wf:
  "parse_actions_loop J acs ns is parsed = Some (Some as) \<Longrightarrow> actions_wf ns parsed \<Longrightarrow> actions_wf ns as"
proof (induction "is" arbitrary: parsed)
  case (Cons i "is")
  then obtain ac p where p: "parse_action J ac ns parsed = Some (Some p)" "parse_actions_loop J acs ns is p = Some (Some as)"
    by (auto simp: bind_eq_Some_conv split: option.splits)
  from Cons.IH [OF p(2) parse_action_wf [OF p(1) Cons.prems(2)]] show ?case .
qed simp

lemma ParseActions_wf:
  assumes "ParseActions J doc ns = Some as"
  shows "actions_wf ns as"
proof -
  have "actions_wf ns []" by (simp add: actions_wf_def)
  with assms parse_actions_loop_wf show ?thesis
    unfolding ParseActions_def by (fastforce simp: bind_eq_Some_conv split: option.splits)
qed

lemma GetFromJSON_wf:
  assumes "GetFromJSON J content start run_ok = Some (Some hm)"
  obtains ns as where "nm hm = Some (NodeLooperThread.make ns False (start \<and> run_ok) 0)" "hint_actions hm = as"
    "ns \<noteq> []" "as \<noteq> []" "nodes_wf ns" "actions_wf ns as"
proof -
  obtain doc ns as where p: "ParseNodes J doc = Some ns" "ns \<noteq> []" "ParseActions J doc ns = Some as" "as \<noteq> []"
    and hm: "(if start then do { (_, hm') \<leftarrow> Start run_ok \<lparr>nm = Some (new_NodeLooperThread ns), hint_actions = as\<rparr>; Some (Some hm') }
       else Some (Some \<lparr>nm = Some (new_NodeLooperThread ns), hint_actions = as\<rparr>)) = Some (Some hm)"
    using assms unfolding GetFromJSON_def
    by (auto simp: bind_eq_Some_conv Let_def split: option.splits if_split_asm)
  from hm have "nm hm = Some (NodeLooperThread.make ns False (start \<and> run_ok) 0)" "hint_actions hm = as"
    by (auto simp: Start_def looper_Start_def new_NodeLooperThread_def NodeLooperThread.defs split: if_split_asm)
  with p ParseNodes_wf [OF p(1)] ParseActions_wf [OF p(3)] show ?thesis by (intro that) simp_all
qed

lemma wf_manager_ok:
  assumes "nodes_wf ns" and "actions_wf ns as" and "nm hm = Some l" "nodes l = ns" "hint_actions hm = as"
  shows "manager_ok hm"
  using assms by (auto simp: manager_ok_def nodes_wf_def node_wf_def actions_wf_def)

section \<open>The effect of a request\<close>

lemma actions_ok_timeout: "actions_ok ns (map (\<lambda>a. a\<lparr>timeout_ms := t\<rparr>) as) = actions_ok ns as"
  by (simp add: actions_ok_def comp_def)

lemma request_on_boosts:
  assumes ok: "manager_ok hm" "clock_ok w" "actions_ok (nodes l) as" and t: "\<forall>a\<in>set as. -9223372036854 \<le> timeout_ms a"
    and l: "nm hm = Some l" "\<not> exitPending l"
  obtains l' w' where "request_on as h hm w = Some (True, hm\<lparr>nm := Some l'\<rparr>, w')" "manager_ok (hm\<lparr>nm := Some l'\<rparr>)"
    "\<forall>i. i \<notin> node_index ` set as \<longrightarrow> nodes l' ! i = nodes l ! i"
    "\<forall>a\<in>set as. \<exists>k \<le> readings w'. \<forall>s. wanted s (nodes l' ! node_index a) =
       (if s + 1000000 \<le> hint_end (clock w k) (timeout_ms a) then boosted s (value_index a) (nodes l ! node_index a)
        else wanted s (nodes l ! node_index a))"
proof -
  obtain ns w' where d: "request_loop as h (nodes l) True w = Some (True, ns, w')"
    using request_loop_total [OF ok(2) t, of h "nodes l" True] ok(3) by (auto simp: actions_ok_def)
  let ?l' = "l\<lparr>nodes := ns, wake_signals := Suc (wake_signals l)\<rparr>"
  have nodes_ok: "\<forall>n\<in>set (nodes l). node_ok n" using ok(1) l(1) by (simp add: manager_ok_def)
  have "\<exists>k \<le> readings w'. \<forall>s. wanted s (nodes ?l' ! node_index a) =
       (if s + 1000000 \<le> hint_end (clock w k) (timeout_ms a) then boosted s (value_index a) (nodes l ! node_index a)
        else wanted s (nodes l ! node_index a))" if a: "a \<in> set as" for a
  proof -
    have i: "node_index a < length (nodes l)" "value_index a < length (req_sorted (nodes l ! node_index a))"
      using ok(3) a by (simp_all add: actions_ok_def)
    obtain wa e wb where e: "request_end (timeout_ms a) wa = Some (e, wb)" "clock wa = clock w" "readings wa \<le> readings w'"
      "ns ! node_index a = snd (node_AddRequest (value_index a) h e (nodes l ! node_index a))"
      using request_loop_node [OF d _ a i(1)] ok(3) by (auto simp: actions_ok_def)
    have "clock_ok wa" using ok(2) e(2) by (simp add: clock_ok_def)
    then have "e = hint_end (clock w (readings wa)) (timeout_ms a)"
      using request_end_ok [of wa "timeout_ms a"] t a e(1,2) by auto
    moreover have "node_ok (nodes l ! node_index a)" using nodes_ok i(1) by simp
    ultimately show ?thesis using wanted_add [OF _ i(2)] e(3,4) by (auto simp: alive_iff add.commute)
  qed
  moreover have "manager_ok (hm\<lparr>nm := Some ?l'\<rparr>)"
  proof -
    note n = request_loop_nodes_ok [OF d nodes_ok]
    then have len: "length ns = length (nodes l)" by (metis length_map)
    have "length (req_sorted (ns ! i)) = length (req_sorted (nodes l ! i))" if "i < length (nodes l)" for i
      using n that len by (metis nth_map)
    then show ?thesis using n ok(1) l(1) len by (fastforce simp: manager_ok_def actions_ok_def)
  qed
  moreover have "request_on as h hm w = Some (True, hm\<lparr>nm := Some ?l'\<rparr>, w')"
    using d l by (simp add: request_on_def Request_def)
  ultimately show ?thesis using request_loop_other [OF d] by (intro that [of ?l' w']) simp_all
qed

lemma manager_actions_ok: "manager_ok hm \<Longrightarrow> nm hm = Some l \<Longrightarrow> map_of (hint_actions hm) h = Some as \<Longrightarrow> actions_ok (nodes l) as"
  using map_of_SomeD [of "hint_actions hm" h as] by (auto simp: manager_ok_def)

lemma DoHint_request: "map_of (hint_actions hm) h = Some as \<Longrightarrow> nm hm = Some l \<Longrightarrow> DoHint h hm w = request_on as h hm w"
  by (simp add: DoHint_def ValidateHint_def IsHintSupported_def)

lemma DoHint_timeout_request:
  "map_of (hint_actions hm) h = Some as \<Longrightarrow> nm hm = Some l \<Longrightarrow>
   DoHint_timeout h t hm w = request_on (map (\<lambda>a. a\<lparr>timeout_ms := t\<rparr>) as) h hm w"
  by (simp add: DoHint_timeout_def ValidateHint_def IsHintSupported_def)

end
