(* ===== verification/Interaction.thy ===== *)
theory Interaction
  imports Perf_Hints_Lemmas
begin

text \<open>
  The interaction handler of \<^verbatim>\<open>power/disp-power\<close>: its operations, each under the handler's
  mutex, and the steps of the system made of callers and the handler's thread. The counter of
  the event descriptor is part of the handler; what polling and reading give is answered by the
  environment. Overflow and the use of uninitialised memory have the value \<open>None\<close>.
\<close>

section \<open>State\<close>

datatype interaction_state =
    INTERACTION_STATE_UNINITIALIZED
  | INTERACTION_STATE_IDLE
  | INTERACTION_STATE_INTERACTION
  | INTERACTION_STATE_WAITING

record InteractionHandler =
  mState :: interaction_state
  mIdleFd :: int
  mEventFd :: int
  event_count :: nat
  mWaitMs :: int
  mMinDurationMs :: int
  mMaxDurationMs :: int
  mDurationMs :: int
  mLastTimespec :: "int \<times> int"

definition new_InteractionHandler :: InteractionHandler where
  "new_InteractionHandler =
     \<lparr>mState = INTERACTION_STATE_UNINITIALIZED, mIdleFd = 0, mEventFd = 0, event_count = 0, mWaitMs = 100,
      mMinDurationMs = 1400, mMaxDurationMs = 5650, mDurationMs = 0, mLastTimespec = (0, 0)\<rparr>"

definition int32 :: "int \<Rightarrow> int option" where
  "int32 i = (if -2147483648 \<le> i \<and> i \<le> 2147483647 then Some i else None)"

section \<open>Operations\<close>

definition fb_idle_patch :: "string list" where
  "fb_idle_patch = [''/sys/class/drm/card0/device/idle_state'', ''/sys/class/graphics/fb0/idle_state'']"

fun first_opened :: "(string \<Rightarrow> int) \<Rightarrow> string list \<Rightarrow> int" where
  "first_opened open_file [] = -1"
| "first_opened open_file (path # paths) =
     (let fd = open_file path in if 0 \<le> fd then fd else first_opened open_file paths)"

definition fb_idle_open :: "(string \<Rightarrow> int) \<Rightarrow> int" where
  "fb_idle_open open_file = first_opened open_file fb_idle_patch"

definition Init_handler :: "(string \<Rightarrow> int) \<Rightarrow> int \<Rightarrow> InteractionHandler \<Rightarrow> bool \<times> bool \<times> InteractionHandler" where
  "Init_handler open_file eventfd ih =
     (if mState ih \<noteq> INTERACTION_STATE_UNINITIALIZED then (True, False, ih)
      else let fd = fb_idle_open open_file in
        if fd < 0 then (False, False, ih)
        else if eventfd < 0 then (False, False, ih\<lparr>mIdleFd := fd, mEventFd := eventfd\<rparr>)
        else (True, True, ih\<lparr>mIdleFd := fd, mEventFd := eventfd, event_count := 0, mState := INTERACTION_STATE_IDLE\<rparr>))"

definition AbortWaitLocked :: "InteractionHandler \<Rightarrow> InteractionHandler" where
  "AbortWaitLocked ih = ih\<lparr>event_count := (if event_count ih < 18446744073709551614 then Suc (event_count ih) else event_count ih)\<rparr>"

definition Exit_locked :: "InteractionHandler \<Rightarrow> InteractionHandler" where
  "Exit_locked ih =
     (if mState ih = INTERACTION_STATE_UNINITIALIZED then ih
      else (AbortWaitLocked ih)\<lparr>mState := INTERACTION_STATE_UNINITIALIZED\<rparr>)"

definition PerfLock :: "HintManager \<Rightarrow> env \<Rightarrow> (HintManager \<times> env) option" where
  "PerfLock hm w = do { (_, hm', w') \<leftarrow> DoHint ''INTERACTION'' hm w; Some (hm', w') }"

definition PerfRel :: "HintManager \<Rightarrow> HintManager option" where
  "PerfRel hm = do { (_, hm') \<leftarrow> EndHint ''INTERACTION'' hm; Some hm' }"

definition CalcTimespecDiffMs :: "int \<times> int \<Rightarrow> int \<times> int \<Rightarrow> u64" where
  "CalcTimespecDiffMs start finish =
     word_of_int ((fst finish - fst start) * 1000) + word_of_int ((snd finish - snd start) sdiv 1000000)"

definition final_duration :: "InteractionHandler \<Rightarrow> int \<Rightarrow> int option" where
  "final_duration ih duration = do {
     inputDuration \<leftarrow> int32 (duration + 650);
     Some (if mMaxDurationMs ih < inputDuration then mMaxDurationMs ih
           else if mMinDurationMs ih < inputDuration then inputDuration
           else mMinDurationMs ih) }"

definition covered :: "InteractionHandler \<Rightarrow> int \<Rightarrow> int \<times> int \<Rightarrow> bool" where
  "covered ih final cur_timespec \<longleftrightarrow>
     mState ih \<noteq> INTERACTION_STATE_IDLE \<and> final \<le> mDurationMs ih \<and>
     CalcTimespecDiffMs (mLastTimespec ih) cur_timespec \<le> word_of_int (mDurationMs ih - final)"

definition Acquire :: "int \<Rightarrow> int \<times> int \<Rightarrow> InteractionHandler \<Rightarrow> HintManager \<Rightarrow> env \<Rightarrow>
    (InteractionHandler \<times> HintManager \<times> env) option" where
  "Acquire duration cur_timespec ih hm w =
     (if mState ih = INTERACTION_STATE_UNINITIALIZED then Some (ih, hm, w)
      else do {
        final \<leftarrow> final_duration ih duration;
        if covered ih final cur_timespec then Some (ih, hm, w)
        else do {
          let ih1 = ih\<lparr>mLastTimespec := cur_timespec, mDurationMs := final\<rparr>;
          (hm1, w1) \<leftarrow> (if mState ih1 = INTERACTION_STATE_IDLE then PerfLock hm w else Some (hm, w));
          let ih2 = (if mState ih1 = INTERACTION_STATE_WAITING then AbortWaitLocked ih1 else ih1);
          Some (ih2\<lparr>mState := INTERACTION_STATE_INTERACTION\<rparr>, hm1, w1) } })"

definition Release :: "InteractionHandler \<Rightarrow> HintManager \<Rightarrow> (InteractionHandler \<times> HintManager) option" where
  "Release ih hm =
     (if mState ih = INTERACTION_STATE_WAITING then do {
        hm' \<leftarrow> PerfRel hm;
        Some (ih\<lparr>mState := INTERACTION_STATE_IDLE\<rparr>, hm') }
      else Some (ih\<lparr>event_count := 0\<rparr>, hm))"

text \<open>
  Waiting for the display to become idle. The arguments are the results of the first poll, of
  reading the idle state (its return value and the bytes it stored) and of the second poll with
  the returned events. The function only tells why the wait ended.
\<close>

datatype wait_end =
    Wait_aborted | Poll_error | Unexpected_EOF | Already_idle
  | Idle_error | Timed_out | Idle_aborted | Idle_detected | Woken

definition starts_idle :: "string \<Rightarrow> bool option" where
  "starts_idle data =
     (if 4 \<le> length data then Some (take 4 data = ''idle'')
      else if \<forall>i<length data. data ! i = ''idle'' ! i then None else Some False)"

definition WaitForIdle :: "int \<Rightarrow> int \<times> string \<Rightarrow> int \<times> bool \<times> bool \<Rightarrow> wait_end option" where
  "WaitForIdle poll1 pread poll2 =
     (if 0 < poll1 then Some Wait_aborted
      else if poll1 < 0 then Some Poll_error
      else if fst pread = 0 then Some Unexpected_EOF
      else if fst pread < 0 then None
      else do {
        idle \<leftarrow> starts_idle (snd pread);
        Some (if idle then Already_idle
              else case poll2 of (ret, ev0, ev1) \<Rightarrow>
                if ret < 0 then Idle_error else if ret = 0 then Timed_out
                else if ev0 then Idle_aborted else if ev1 then Idle_detected else Woken) })"

section \<open>The system\<close>

datatype routine_pc = At_cond | In_wait | At_release | Finished

text \<open>
  \<open>locks\<close> and \<open>releases\<close> count the calls of the two functions that take and release the
  performance hint.
\<close>

record ih_system =
  handler :: InteractionHandler
  manager :: HintManager
  power_env :: env
  routine :: routine_pc
  locks :: nat
  releases :: nat

inductive ih_step :: "ih_system \<Rightarrow> ih_system \<Rightarrow> bool" where
  acquire: "Acquire d now (handler s) (manager s) (power_env s) = Some (ih, hm, w) \<Longrightarrow>
    ih_step s (s\<lparr>handler := ih, manager := hm, power_env := w,
      locks := locks s + (if mState (handler s) = INTERACTION_STATE_IDLE then 1 else 0)\<rparr>)"
| routine_wakes: "routine s = At_cond \<Longrightarrow>
    mState (handler s) \<notin> {INTERACTION_STATE_IDLE, INTERACTION_STATE_UNINITIALIZED} \<Longrightarrow>
    ih_step s (s\<lparr>handler := (handler s)\<lparr>mState := INTERACTION_STATE_WAITING\<rparr>, routine := In_wait\<rparr>)"
| routine_returns: "routine s = At_cond \<Longrightarrow> mState (handler s) = INTERACTION_STATE_UNINITIALIZED \<Longrightarrow>
    ih_step s (s\<lparr>routine := Finished\<rparr>)"
| wait_ends: "routine s = In_wait \<Longrightarrow> WaitForIdle p1 pr p2 = Some r \<Longrightarrow> (r = Wait_aborted \<Longrightarrow> 0 < event_count (handler s)) \<Longrightarrow>
    ih_step s (s\<lparr>routine := At_release\<rparr>)"
| routine_releases: "routine s = At_release \<Longrightarrow> Release (handler s) (manager s) = Some (ih, hm) \<Longrightarrow>
    ih_step s (s\<lparr>handler := ih, manager := hm, routine := At_cond,
      releases := releases s + (if mState (handler s) = INTERACTION_STATE_WAITING then 1 else 0)\<rparr>)"
| exit_locked: "ih_step s (s\<lparr>handler := Exit_locked (handler s)\<rparr>)"

inductive ih_reach :: "ih_system \<Rightarrow> ih_system \<Rightarrow> bool" for s0 where
  start: "ih_reach s0 s0"
| more: "ih_reach s0 s \<Longrightarrow> ih_step s s' \<Longrightarrow> ih_reach s0 s'"

inductive_cases ih_stepE: "ih_step s s'"

end
