(* ===== verification/Power_Hal.thy ===== *)
theory Power_Hal
  imports Interaction
begin

text \<open>
  The power service of \<^verbatim>\<open>power/default\<close> and \<^verbatim>\<open>power/disp-power\<close> on top of the hint manager, and the
  configuration verifier of \<^verbatim>\<open>power/libperfmgr/tools\<close>. Boot variables are set through the system
  control client, which is recorded as the list of variables set.
\<close>

section \<open>Display low power\<close>

record DisplayLowPower =
  mPpsSocket :: int
  mFossStatus :: bool

definition new_DisplayLowPower :: DisplayLowPower where
  "new_DisplayLowPower = \<lparr>mPpsSocket = -1, mFossStatus = False\<rparr>"

definition ConnectPpsDaemon :: "int \<Rightarrow> DisplayLowPower \<Rightarrow> DisplayLowPower" where
  "ConnectPpsDaemon socket d = d\<lparr>mPpsSocket := socket\<rparr>"

definition SendPpsCommand :: "(string \<Rightarrow> int) \<Rightarrow> string \<Rightarrow> int" where
  "SendPpsCommand write_socket cmd = (if write_socket cmd < 0 then -1 else 0)"

definition SetFoss :: "(string \<Rightarrow> int) \<Rightarrow> bool \<Rightarrow> DisplayLowPower \<Rightarrow> string list \<times> DisplayLowPower" where
  "SetFoss write_socket enable d =
     (if mPpsSocket d < 0 \<or> mFossStatus d = enable then ([], d)
      else let foss_cmd = (if enable then ''foss:on'' else ''foss:off'') in
           ([foss_cmd], if SendPpsCommand write_socket foss_cmd = 0 then d\<lparr>mFossStatus := enable\<rparr> else d))"

definition SetDisplayLowPower :: "(string \<Rightarrow> int) \<Rightarrow> bool \<Rightarrow> DisplayLowPower \<Rightarrow> string list \<times> DisplayLowPower" where
  "SetDisplayLowPower write_socket enable d = SetFoss write_socket enable d"

section \<open>Power service\<close>

datatype Mode = Mode_INTERACTIVE | Mode_LOW_POWER | Mode_other string
datatype Boost = Boost_INTERACTION | Boost_other string

fun mode_string :: "Mode \<Rightarrow> string" where
  "mode_string Mode_INTERACTIVE = ''INTERACTIVE''"
| "mode_string Mode_LOW_POWER = ''LOW_POWER''"
| "mode_string (Mode_other s) = s"

fun boost_string :: "Boost \<Rightarrow> string" where
  "boost_string Boost_INTERACTION = ''INTERACTION''"
| "boost_string (Boost_other s) = s"

datatype status = Ok | EX_ILLEGAL_ARGUMENT

record Power =
  mHintManager :: HintManager
  mDisplayLowPower :: DisplayLowPower
  mInteractionHandler :: InteractionHandler
  mVRModeOn :: bool
  mSustainedPerfModeOn :: bool
  mPowerHintSessions :: nat
  num_calls :: int
  boot_env_set :: "(string \<times> string) list"

definition new_Power :: "(string \<Rightarrow> int) \<Rightarrow> int \<Rightarrow> HintManager \<Rightarrow> DisplayLowPower \<Rightarrow> Power" where
  "new_Power open_file eventfd hm dlpw =
    \<lparr>mHintManager = hm, mDisplayLowPower = dlpw,
     mInteractionHandler = snd (snd (Init_handler open_file eventfd new_InteractionHandler)), mVRModeOn = False, mSustainedPerfModeOn = False, mPowerHintSessions = 0,
     num_calls = 0, boot_env_set = []\<rparr>"

definition setMode :: "Mode \<Rightarrow> bool \<Rightarrow> Power \<Rightarrow> env \<Rightarrow> (status \<times> Power \<times> env) option" where
  "setMode type enabled p w =
     (case type of
        Mode_INTERACTIVE \<Rightarrow>
          if enabled then do {
            let p1 = (if num_calls p \<noteq> 0
                      then p\<lparr>boot_env_set := boot_env_set p @ [(''ubootenv.var.quiescent_env_bk'', ''0'')]\<rparr> else p);
            (_, hm) \<leftarrow> EndHint ''INTERACTIVE'' (mHintManager p1);
            n \<leftarrow> int32 (num_calls p1 + 1);
            Some (Ok, p1\<lparr>mHintManager := hm, num_calls := n\<rparr>, w) }
          else do {
            (_, hm, w1) \<leftarrow> DoHint ''INTERACTIVE'' (mHintManager p) w;
            n \<leftarrow> int32 (num_calls p + 1);
            Some (Ok, p\<lparr>mHintManager := hm, num_calls := n\<rparr>, w1) }
      | _ \<Rightarrow> Some (Ok, p, w))"

definition isModeSupported :: "Mode \<Rightarrow> Power \<Rightarrow> bool" where
  "isModeSupported type p = (if type = Mode_LOW_POWER then True else IsHintSupported (mode_string type) (mHintManager p))"

definition setBoost :: "Boost \<Rightarrow> int \<Rightarrow> Power \<Rightarrow> env \<Rightarrow> (status \<times> Power \<times> env) option" where
  "setBoost type durationMs p w =
     (case type of
        Boost_INTERACTION \<Rightarrow> do {
          (_, hm, w1) \<leftarrow> DoHint_timeout ''INTERACTION'' (if durationMs = 0 then durationMs + 300 else durationMs) (mHintManager p) w;
          Some (Ok, p\<lparr>mHintManager := hm\<rparr>, w1) }
      | _ \<Rightarrow> Some (Ok, p, w))"

definition isBoostSupported :: "Boost \<Rightarrow> Power \<Rightarrow> bool" where
  "isBoostSupported type p = IsHintSupported (boost_string type) (mHintManager p)"

definition createHintSession :: "int list \<Rightarrow> Power \<Rightarrow> status \<times> nat option \<times> Power" where
  "createHintSession threadIds p =
     (if length threadIds = 0 then (EX_ILLEGAL_ARGUMENT, None, p)
      else (Ok, Some (mPowerHintSessions p), p\<lparr>mPowerHintSessions := Suc (mPowerHintSessions p)\<rparr>))"

definition getHintSessionPreferredRate :: int where
  "getHintSessionPreferredRate = 1 * 1000000"

definition setThreads :: "int list \<Rightarrow> status" where
  "setThreads threadIds = (if length threadIds = 0 then EX_ILLEGAL_ARGUMENT else Ok)"

definition boolToString :: "bool \<Rightarrow> string" where
  "boolToString b = (if b then ''true'' else ''false'')"

definition service_main :: "'j json_lib \<Rightarrow> string option \<Rightarrow> bool \<Rightarrow> (string \<Rightarrow> int) \<Rightarrow> int \<Rightarrow> int \<Rightarrow> Power option option" where
  "service_main J content run_ok open_file eventfd pps_socket = do {
     hm \<leftarrow> GetFromJSON J content False run_ok;
     (case hm of
        None \<Rightarrow> Some None
      | Some hm \<Rightarrow> do {
          let pw = new_Power open_file eventfd hm new_DisplayLowPower;
          (_, hm') \<leftarrow> Start run_ok (mHintManager pw);
          Some (Some (pw\<lparr>mHintManager := hm', mDisplayLowPower := ConnectPpsDaemon pps_socket (mDisplayLowPower pw)\<rparr>)) }) }"

section \<open>Configuration verifier\<close>

definition VerifyNodes :: "'j json_lib \<Rightarrow> string option \<Rightarrow> bool option" where
  "VerifyNodes J content =
     (case content of
        None \<Rightarrow> Some False
      | Some json_doc \<Rightarrow> do { ns \<leftarrow> ParseNodes J json_doc; Some (ns \<noteq> []) })"

fun exec_hints :: "string list \<Rightarrow> string \<Rightarrow> u64 \<Rightarrow> HintManager \<Rightarrow> env \<Rightarrow> (HintManager \<times> env) option" where
  "exec_hints [] hint_name hint_duration hm w = Some (hm, w)"
| "exec_hints (hint # hints) hint_name hint_duration hm w =
     (if hint_name \<noteq> [] \<and> hint_name \<noteq> hint then exec_hints hints hint_name hint_duration hm w
      else do {
        (_, hm1, w1) \<leftarrow> DoHint_timeout hint (sint hint_duration) hm w;
        (_, hm2) \<leftarrow> EndHint hint hm1;
        exec_hints hints hint_name hint_duration hm2 w1 })"

definition execConfig :: "'j json_lib \<Rightarrow> string option \<Rightarrow> bool \<Rightarrow> string \<Rightarrow> u64 \<Rightarrow> env \<Rightarrow> (HintManager \<times> env) option" where
  "execConfig J content run_ok hint_name hint_duration w = do {
     r \<leftarrow> GetFromJSON J content True run_ok;
     hm \<leftarrow> r;
     exec_hints (GetHints hm) hint_name hint_duration hm w }"

end
