(* ===== verification/Perf_Properties.thy ===== *)
theory Perf_Properties
  imports Perf_Hints_Lemmas
begin

text \<open>
  What \<^verbatim>\<open>power/libperfmgr\<close> promises: a node takes the value of its best live request, the
  looper keeps up with the clock, hints boost their nodes until they end and ending a hint
  removes every trace of it, and an accepted configuration can be used without errors.
\<close>

section \<open>Nodes and looper\<close>

text \<open>
  Updating a node never fails on a well-formed node. It chooses the first value with a
  request that has not expired at the last clock reading, or the default value; it writes
  exactly when the choice differs from the current value or the node has not been initialised,
  and remembers the choice only when the write succeeded.
\<close>

theorem update_applies_wanted:
  assumes "node_ok n" and "mono (clock w)"
  shows "\<exists>e n' w' k. Update n w = Some (e, n', w') \<and> readings w \<le> k \<and> readings w' = Suc k \<and>
    (let i = wanted (clock w k) n in
     if i = current_val_index n \<and> \<not> reset_on_init n then
       current_val_index n' = i \<and> stored w' = stored w \<and> attempts w' = attempts w
     else if answers w (attempts w) = Written then
       current_val_index n' = i \<and> \<not> reset_on_init n' \<and> stored w' = (stored w)(node_path n \<mapsto> GetValues n ! i)
     else
       current_val_index n' = current_val_index n \<and> reset_on_init n' = reset_on_init n \<and> (node_type n \<noteq> Property \<longrightarrow> e \<le> 500))"
proof -
  obtain k e e0 n' w' where u: "Update n w = Some (e, n', w')" "readings w \<le> k" "readings w' = Suc k"
    "updated (clock w k) n w e n' w'" "next_look (clock w k) n n' e0"
    "e = (if attempts w' \<noteq> attempts w \<and> answers w (attempts w) \<noteq> Written \<and> node_type n \<noteq> Property
          then min e0 500 else e0)"
    by (rule Update_spec [OF assms])
  have "answers w (attempts w) \<noteq> Written \<Longrightarrow> attempts w' \<noteq> attempts w \<Longrightarrow> node_type n \<noteq> Property \<Longrightarrow> e \<le> 500"
    using u(6) by simp
  with u(1-4) show ?thesis
    by (intro exI [of _ e] exI [of _ n'] exI [of _ w'] exI [of _ k])
      (auto simp: updated_def Let_def split: if_split_asm)
qed

definition ex_node :: node where
  "ex_node = new_FileNode ''cpu'' ''/sys/cpu'' [new_RequestGroup ''high'', new_RequestGroup ''low''] 1 True False"

definition ex_env :: env where
  "ex_env = \<lparr>clock = (\<lambda>_. 5000000), readings = 0, answers = (\<lambda>_. Written), attempts = 0, stored = (\<lambda>_. None)\<rparr>"

lemma ex_node_ok: "node_ok ex_node"
  by (simp add: node_ok_def ex_node_def new_FileNode_def new_Node_def new_RequestGroup_def)

lemma ex_env_clock: "clock_ok ex_env" "mono (clock ex_env)"
  by (simp_all add: clock_ok_def ex_env_def mono_def time_point_max_def)

theorem update_applies_wanted_witness:
  "\<exists>e n' w'. Update ex_node ex_env = Some (e, n', w') \<and> stored w' ''/sys/cpu'' = Some ''low''"
proof -
  have w: "wanted t ex_node = 1" for t
    by (simp add: wanted_def ex_node_def new_FileNode_def new_Node_def new_RequestGroup_def active_at_def)
  have v: "reset_on_init ex_node" "answers ex_env k = Written" "node_path ex_node = ''/sys/cpu''" "GetValues ex_node ! 1 = ''low''" for k
    by (simp_all add: ex_node_def ex_env_def new_FileNode_def new_Node_def GetValues_def GetRequestValue_def new_RequestGroup_def)
  from update_applies_wanted [OF ex_node_ok ex_env_clock(2)] show ?thesis
    unfolding w Let_def using v by auto
qed



text \<open>
  A property whose write fails is not tried again: with no request pending, the looper
  goes to sleep for ever although the property was never set.
\<close>

theorem failed_property_not_retried:
  assumes "node_ok n" "node_type n = Property" "reset_on_init n" "\<forall>g\<in>set (req_sorted n). request_map g = []"
    and "nodes l = [n]" and "mono (clock w)" and "\<forall>k. answers w k \<noteq> Written"
  shows "\<exists>l' w'. threadLoop l w = Some (True, nsecs_max, l', w') \<and> reset_on_init (nodes l' ! 0) \<and> stored w' = stored w"
proof -
  have stuck: "\<exists>n' w'. Update m v = Some (ms_max, n', w') \<and> node_ok n' \<and> node_type n' = Property \<and> reset_on_init n' \<and>
      (\<forall>g\<in>set (req_sorted n'). request_map g = []) \<and> mono (clock w') \<and> (\<forall>k. answers w' k \<noteq> Written) \<and> stored w' = stored v"
    if m: "node_ok m" "node_type m = Property" "reset_on_init m" "\<forall>g\<in>set (req_sorted m). request_map g = []"
      and v: "mono (clock v)" "\<forall>k. answers v k \<noteq> Written" for m v
  proof -
    have empty: "highest_request i d gs e u = (d, if gs = [] then e else ms_max, gs, u\<lparr>readings := readings u + length gs\<rparr>)"
      if "\<forall>g\<in>set gs. request_map g = []" for i d gs e u
      using that
      by (induction gs arbitrary: i e u) (auto simp: GetExpireTime_def read_clock_def case_prod_unfold)
    have "req_sorted m \<noteq> []" "default_val_index m < length (req_sorted m)" using m(1) by (auto simp: node_ok_def)
    then show ?thesis
      using m v empty [OF m(4), of 0 "default_val_index m" ms_max v]
      by (auto simp: Update_def PropertyNode_Update_def SetProperty_def)
  qed
  obtain n1 w1 where p1: "Update n w = Some (ms_max, n1, w1)" "node_ok n1" "node_type n1 = Property" "reset_on_init n1"
      "\<forall>g\<in>set (req_sorted n1). request_map g = []" "mono (clock w1)" "\<forall>k. answers w1 k \<noteq> Written" "stored w1 = stored w"
    using stuck [OF assms(1-4,6,7)] by blast
  obtain n2 w2 where p2: "Update n1 w1 = Some (ms_max, n2, w2)" "reset_on_init n2" "stored w2 = stored w1"
    using stuck [OF p1(2-7)] by blast
  from p1 p2 assms(5) show ?thesis
    by (auto simp: threadLoop_def sleep_ns_def nsecs_max_def ms_max_def signed_divide_int_def)
qed

definition ex_property :: node where
  "ex_property = new_PropertyNode ''p'' ''vendor.p'' [new_RequestGroup ''on''] 0 True"

theorem failed_property_not_retried_witness:
  "\<exists>l' w'. threadLoop (new_NodeLooperThread [ex_property]) (ex_env\<lparr>answers := (\<lambda>_. Write_failed)\<rparr>) = Some (True, nsecs_max, l', w') \<and>
     reset_on_init (nodes l' ! 0)"
  using failed_property_not_retried [of ex_property "new_NodeLooperThread [ex_property]" "ex_env\<lparr>answers := (\<lambda>_. Write_failed)\<rparr>"]
    ex_env_clock(2)
  by (auto simp: ex_property_def new_PropertyNode_def new_Node_def new_RequestGroup_def node_ok_def new_NodeLooperThread_def)

section \<open>Hints\<close>


definition ex_manager :: "int \<Rightarrow> HintManager" where
  "ex_manager d = \<lparr>nm = Some (new_NodeLooperThread [ex_node]),
     hint_actions = [(''TOUCH'', [\<lparr>node_index = 0, value_index = 0, timeout_ms = d\<rparr>])]\<rparr>"

lemma ex_manager_ok: "manager_ok (ex_manager d)"
  using ex_node_ok
  by (simp add: manager_ok_def ex_manager_def new_NodeLooperThread_def actions_ok_def ex_node_def new_FileNode_def new_Node_def)

lemma ex_manager_parts:
  "map_of (hint_actions (ex_manager d)) ''TOUCH'' = Some [\<lparr>node_index = 0, value_index = 0, timeout_ms = d\<rparr>]"
  "nm (ex_manager d) = Some (new_NodeLooperThread [ex_node])" "\<not> exitPending (new_NodeLooperThread [ex_node])"
  by (simp_all add: ex_manager_def new_NodeLooperThread_def)


text \<open>
  C13. Ending a hint removes every trace of it: whatever giving it had added, the nodes after
  the end of the hint are the same as if it had never been given, and the nodes that it names
  hold no request of it.
\<close>

theorem end_hint_undoes_hint:
  assumes "ValidateHint h hm" and "DoHint h hm w = Some (r, hm', w')"
  shows "\<exists>ok hm1 hm2. EndHint h hm = Some (ok, hm1) \<and> EndHint h hm' = Some (ok, hm2) \<and>
    map_option nodes (nm hm2) = map_option nodes (nm hm1) \<and> hint_actions hm2 = hint_actions hm1 \<and>
    (\<forall>l as a. nm hm = Some l \<longrightarrow> \<not> exitPending l \<longrightarrow> map_of (hint_actions hm) h = Some as \<longrightarrow> a \<in> set as \<longrightarrow>
       node_index a < length (nodes l) \<longrightarrow>
       (\<forall>g\<in>set (req_sorted (nodes (the (nm hm2)) ! node_index a)). map_of (request_map g) h = None))"
proof -
  obtain l as where l: "nm hm = Some l" "map_of (hint_actions hm) h = Some as"
    using assms(1) by (auto simp: ValidateHint_def IsHintSupported_def split: if_splits)
  then obtain l' where l': "hm' = hm\<lparr>nm := Some l'\<rparr>" "Request as h l w = Some (r, l', w')"
    using assms by (auto simp: DoHint_def request_on_def bind_eq_Some_conv)
  then have v: "ValidateHint h hm'" "nm hm' = Some l'" "hint_actions hm' = hint_actions hm"
    using assms(1) l by (auto simp: ValidateHint_def IsHintSupported_def)
  have e: "EndHint h hm = Some (fst (Cancel as h l), hm\<lparr>nm := Some (snd (Cancel as h l))\<rparr>)"
    "EndHint h hm' = Some (fst (Cancel as h l'), hm'\<lparr>nm := Some (snd (Cancel as h l'))\<rparr>)"
    using assms(1) v l by (simp_all add: EndHint_def case_prod_unfold Let_def)
  have "fst (Cancel as h l') = fst (Cancel as h l) \<and> nodes (snd (Cancel as h l')) = nodes (snd (Cancel as h l)) \<and>
    (\<not> exitPending l \<longrightarrow> nodes (snd (Cancel as h l)) = cancelled as h (nodes l))"
  proof (cases "exitPending l")
    case True
    then show ?thesis using l'(2) by (simp add: Request_def)
  next
    case False
    then obtain ns where ns: "request_loop as h (nodes l) True w = Some (r, ns, w')"
      "l' = l\<lparr>nodes := ns, wake_signals := Suc (wake_signals l)\<rparr>"
      using l'(2) by (auto simp: Request_def bind_eq_Some_conv)
    show ?thesis
      using False ns cancelled_request_loop [OF ns(1) order.refl] request_loop_length [OF ns(1)]
      by (simp add: Cancel_def cancel_loop_cancelled)
  qed
  moreover have "\<forall>g\<in>set (req_sorted (cancelled as h (nodes l) ! node_index a)). map_of (request_map g) h = None"
    if "a \<in> set as" "node_index a < length (nodes l)" for a
    using that by (auto simp: nth_cancelled node_without_def without_def map_of_map_erase)
  ultimately show ?thesis using e l l'(1) by simp
qed

theorem end_hint_undoes_hint_witness:
  "\<exists>hm' w' ok hm1 hm2. DoHint ''TOUCH'' (ex_manager 20) ex_env = Some (True, hm', w') \<and>
     EndHint ''TOUCH'' (ex_manager 20) = Some (ok, hm1) \<and> EndHint ''TOUCH'' hm' = Some (ok, hm2) \<and>
     map_option nodes (nm hm2) = map_option nodes (nm hm1)"
proof -
  obtain l' w' where d: "DoHint ''TOUCH'' (ex_manager 20) ex_env = Some (True, (ex_manager 20)\<lparr>nm := Some l'\<rparr>, w')"
    by (rule DoHint_cases [OF ex_manager_ok [of 20] ex_env_clock(1) ex_manager_parts(1) [of 20] _ ex_manager_parts(2) [of 20]
          ex_manager_parts(3)]) auto
  have "ValidateHint ''TOUCH'' (ex_manager 20)"
    by (simp add: ValidateHint_def IsHintSupported_def ex_manager_def)
  from end_hint_undoes_hint [OF this d] d show ?thesis by blast
qed

text \<open>
  A duration that is negative as a signed number, such as a configured duration of two to
  the power of 63 milliseconds or more, is not caught by the overflow protection: the hint is
  accepted, but has expired when it is given and never influences a node.
\<close>

theorem negative_duration_ignored:
  assumes "manager_ok hm" and "clock_ok w" and "map_of (hint_actions hm) h = Some as"
    and "\<forall>a\<in>set as. -9223372036854 \<le> timeout_ms a \<and> timeout_ms a < 0" and "nm hm = Some l" and "\<not> exitPending l"
  shows "\<exists>l' w'. DoHint h hm w = Some (True, hm\<lparr>nm := Some l'\<rparr>, w') \<and>
    (\<forall>s i. clock w (readings w') \<le> s \<longrightarrow> i < length (nodes l) \<longrightarrow> wanted s (nodes l' ! i) = wanted s (nodes l ! i))"
proof -
  have nonneg: "\<forall>a\<in>set as. -9223372036854 \<le> timeout_ms a" using assms(4) by blast
  obtain l' w' where d: "DoHint h hm w = Some (True, hm\<lparr>nm := Some l'\<rparr>, w')"
    "request_loop as h (nodes l) True w = Some (True, nodes l', w')" "actions_ok (nodes l) as"
    by (rule DoHint_cases [OF assms(1-3) nonneg assms(5,6)])
  have "wanted s (nodes l' ! node_index a) = wanted s (nodes l ! node_index a)"
    if a: "a \<in> set as" and s: "clock w (readings w') \<le> s" for a s
  proof -
    have i: "node_index a < length (nodes l)" "value_index a < length (req_sorted (nodes l ! node_index a))"
      using d(3) a by (simp_all add: actions_ok_def)
    obtain wa e wb where e: "request_end (timeout_ms a) wa = Some (e, wb)" "clock wa = clock w" "readings wa \<le> readings w'"
      "nodes l' ! node_index a = snd (node_AddRequest (value_index a) h e (nodes l ! node_index a))"
      using request_loop_node [OF d(2) _ a i(1)] d(3) by (auto simp: actions_ok_def)
    have ok: "clock_ok wa" "node_ok (nodes l ! node_index a)" "mono (clock w)"
      using assms(1,2,5) e(2) i(1) by (simp_all add: clock_ok_def manager_ok_def)
    have neg: "-9223372036854 \<le> timeout_ms a" "timeout_ms a < 0" using assms(4) a by simp_all
    have now: "clock w (readings wa) \<le> s" using monoD [OF ok(3) e(3)] s by simp
    have "0 \<le> ms_of_ns (time_point_max - clock w (readings wa))"
      using assms(2) by (simp add: clock_ok_def ms_of_ns_nonneg pos_imp_zdiv_nonneg_iff)
    then have "e = clock w (readings wa) + timeout_ms a * 1000000"
      using request_end_ok [OF ok(1), of "timeout_ms a"] neg e(1,2) by (auto simp: hint_end_def)
    then have "\<not> alive s e" using now neg by (auto simp: alive_iff)
    then show ?thesis using wanted_add [OF ok(2) i(2)] e(4) by simp
  qed
  moreover have "nodes l' ! i = nodes l ! i" if "i \<notin> node_index ` set as" for i
    using request_loop_other [OF d(2) that] .
  ultimately have "wanted s (nodes l' ! i) = wanted s (nodes l ! i)" if "clock w (readings w') \<le> s" for s i
    using that by (cases "i \<in> node_index ` set as") auto
  with d(1) show ?thesis by blast
qed

theorem negative_duration_ignored_witness:
  "\<exists>l' w'. sint (18446744073709551615 :: u64) = -1 \<and>
     DoHint ''TOUCH'' (ex_manager (sint (18446744073709551615 :: u64))) ex_env =
       Some (True, (ex_manager (-1))\<lparr>nm := Some l'\<rparr>, w') \<and> wanted 5000000 (nodes l' ! 0) = 1"
proof -
  have w: "wanted s ex_node = 1" "nodes (new_NodeLooperThread [ex_node]) = [ex_node]" "clock ex_env k = 5000000" for s k
    by (simp_all add: wanted_def ex_node_def new_FileNode_def new_Node_def new_RequestGroup_def active_at_def
        new_NodeLooperThread_def ex_env_def)
  have "sint (18446744073709551615 :: u64) = -1" by simp
  with negative_duration_ignored [OF ex_manager_ok [of "-1"] ex_env_clock(1) ex_manager_parts(1) [of "-1"] _
      ex_manager_parts(2) [of "-1"] ex_manager_parts(3)]
  show ?thesis by (auto simp: w)
qed

section \<open>Configurations\<close>


datatype js = JNull | JBool bool | JNum u64 | JStr string | JArr "js list" | JObj "(string \<times> js) list"

definition ex_json :: "js json_lib" where
  "ex_json = \<lparr>parse = (\<lambda>_. Some (JObj
       [(''Nodes'', JArr [JObj [(''Name'', JStr ''cpu''), (''Path'', JStr ''/sys/cpu''), (''Values'', JArr [JStr ''high'', JStr ''low''])]]),
        (''Actions'', JArr [JObj [(''PowerHint'', JStr ''TOUCH''), (''Node'', JStr ''cpu''), (''Value'', JStr ''high''), (''Duration'', JNum 20)]])])),
     member = (\<lambda>j k. case j of JObj m \<Rightarrow> Some (case map_of m k of Some v \<Rightarrow> v | None \<Rightarrow> JNull) | JNull \<Rightarrow> Some JNull | _ \<Rightarrow> None),
     element = (\<lambda>j i. case j of JArr xs \<Rightarrow> if i < length xs then Some (xs ! i) else Some JNull | JNull \<Rightarrow> Some JNull | _ \<Rightarrow> None),
     json_size = (\<lambda>j. case j of JArr xs \<Rightarrow> length xs | JObj m \<Rightarrow> length m | _ \<Rightarrow> 0),
     asString = (\<lambda>j. case j of JStr s \<Rightarrow> Some s | JNull \<Rightarrow> Some [] | _ \<Rightarrow> None),
     json_empty = (\<lambda>j. case j of JNull \<Rightarrow> True | JArr xs \<Rightarrow> xs = [] | JObj m \<Rightarrow> m = [] | _ \<Rightarrow> False),
     isUInt64 = (\<lambda>j. case j of JNum _ \<Rightarrow> True | _ \<Rightarrow> False),
     asUInt64 = (\<lambda>j. case j of JNum n \<Rightarrow> n | _ \<Rightarrow> 0),
     isBool = (\<lambda>j. case j of JBool _ \<Rightarrow> True | _ \<Rightarrow> False),
     asBool = (\<lambda>j. case j of JBool b \<Rightarrow> b | _ \<Rightarrow> False)\<rparr>"


end
