(* ===== verification/Power_Properties.thy ===== *)
theory Power_Properties
  imports Power_Hal Perf_Properties
begin

text \<open>
  What the power service promises on top of the hint manager: boosts last as long as asked,
  the interaction handler takes and releases the performance hint in turn under every
  interleaving of its callers and its thread, and its timer never cuts a request short.
\<close>

section \<open>The interaction handler\<close>

definition ih_inv :: "ih_system \<Rightarrow> bool" where
  "ih_inv s \<longleftrightarrow>
     (case mState (handler s) of
        INTERACTION_STATE_UNINITIALIZED \<Rightarrow> locks s = releases s \<or> locks s = Suc (releases s)
      | INTERACTION_STATE_IDLE \<Rightarrow> locks s = releases s \<and> routine s = At_cond \<and> event_count (handler s) = 0
      | INTERACTION_STATE_INTERACTION \<Rightarrow> locks s = Suc (releases s) \<and> routine s \<noteq> Finished \<and>
          event_count (handler s) = (if routine s = At_cond then 0 else 1)
      | INTERACTION_STATE_WAITING \<Rightarrow> locks s = Suc (releases s) \<and> routine s \<in> {In_wait, At_release} \<and>
          event_count (handler s) = 0)"

lemma Acquire_cases:
  assumes "Acquire d now ih hm w = Some (ih', hm', w')"
  shows "ih' = ih \<and> (mState ih = INTERACTION_STATE_IDLE \<longrightarrow> False) \<or>
    mState ih \<noteq> INTERACTION_STATE_UNINITIALIZED \<and> mState ih' = INTERACTION_STATE_INTERACTION \<and>
    event_count ih' = event_count (if mState ih = INTERACTION_STATE_WAITING then AbortWaitLocked ih else ih)"
  using assms
  by (auto simp: Acquire_def bind_eq_Some_conv Let_def AbortWaitLocked_def covered_def split: if_splits)

lemma ih_step_inv: "ih_step s s' \<Longrightarrow> ih_inv s \<Longrightarrow> ih_inv s'"
proof (induction rule: ih_step.induct)
  case (acquire d now s ih hm w)
  from Acquire_cases [OF acquire(1)] acquire(2) show ?case
    by (auto simp: ih_inv_def AbortWaitLocked_def split: interaction_state.splits if_splits)
next
  case (routine_releases s ih hm)
  then show ?case
    by (auto simp: ih_inv_def Release_def bind_eq_Some_conv split: interaction_state.splits if_splits)
qed (auto simp: ih_inv_def Exit_locked_def AbortWaitLocked_def split: interaction_state.splits if_splits)

lemma ih_reach_inv: "ih_reach s0 s \<Longrightarrow> ih_inv s0 \<Longrightarrow> ih_inv s"
  by (induction rule: ih_reach.induct) (auto intro: ih_step_inv)


definition ex_system :: ih_system where
  "ex_system = \<lparr>handler = new_InteractionHandler\<lparr>mState := INTERACTION_STATE_IDLE\<rparr>, manager = ex_manager 20,
     power_env = ex_env, routine = At_cond, locks = 0, releases = 0\<rparr>"

lemma ex_acquire:
  "Acquire 0 (7, 0) (handler ex_system) (manager ex_system) (power_env ex_system) =
     Some ((handler ex_system)\<lparr>mLastTimespec := (7, 0), mDurationMs := 1400, mState := INTERACTION_STATE_INTERACTION\<rparr>,
       ex_manager 20, ex_env)"
  by (simp add: Acquire_def ex_system_def new_InteractionHandler_def final_duration_def int32_def covered_def PerfLock_def
      DoHint_def ValidateHint_def IsHintSupported_def ex_manager_def)

definition ex_locked :: ih_system where
  "ex_locked = ex_system\<lparr>handler := (handler ex_system)\<lparr>mLastTimespec := (7, 0), mDurationMs := 1400,
     mState := INTERACTION_STATE_INTERACTION\<rparr>, manager := ex_manager 20, power_env := ex_env, locks := 1\<rparr>"

lemma ex_locked_reach: "ih_reach ex_system ex_locked"
  using ih_reach.more [OF ih_reach.start ih_step.acquire [OF ex_acquire]]
  by (simp add: ex_locked_def ex_system_def new_InteractionHandler_def)


text \<open>
  Shutting the handler down during an interaction ends its thread without releasing the
  performance hint.
\<close>

theorem exit_keeps_hint:
  assumes "mState (handler s) = INTERACTION_STATE_INTERACTION" and "routine s = At_cond"
  shows "\<exists>s'. ih_reach s s' \<and> routine s' = Finished \<and> releases s' = releases s \<and> locks s' = locks s \<and> manager s' = manager s"
proof -
  let ?s1 = "s\<lparr>handler := Exit_locked (handler s)\<rparr>"
  have reach: "ih_reach s ?s1" by (rule ih_reach.more [OF ih_reach.start ih_step.exit_locked])
  have "ih_step ?s1 (?s1\<lparr>routine := Finished\<rparr>)"
    by (rule ih_step.routine_returns) (use assms in \<open>simp_all add: Exit_locked_def\<close>)
  from ih_reach.more [OF reach this] have "ih_reach s (?s1\<lparr>routine := Finished\<rparr>)" .
  then show ?thesis by (intro exI [of _ "?s1\<lparr>routine := Finished\<rparr>"]) simp
qed

theorem exit_keeps_hint_witness:
  "\<exists>s'. ih_reach ex_locked s' \<and> routine s' = Finished \<and> locks s' = Suc (releases s')"
  using exit_keeps_hint [of ex_locked] by (auto simp: ex_locked_def ex_system_def)

section \<open>Durations\<close>

definition timespec_ok :: "int \<times> int \<Rightarrow> bool" where
  "timespec_ok t \<longleftrightarrow> 0 \<le> fst t \<and> fst t < 4611686018427387 \<and> 0 \<le> snd t \<and> snd t < 1000000000"

definition ns_of :: "int \<times> int \<Rightarrow> int" where
  "ns_of t = fst t * 1000000000 + snd t"

lemma sdiv_bounds:
  fixes d :: int
  shows "d < (d sdiv 1000000 + 1) * 1000000" "-1000000000 < d \<Longrightarrow> -1000 < d sdiv 1000000" "d < 1000000000 \<Longrightarrow> d sdiv 1000000 < 1000"
proof -
  have q: "d sdiv 1000000 = (if 0 \<le> d then d div 1000000 else - (- d div 1000000))"
    by (simp add: signed_divide_int_def sgn_if abs_if)
  have d: "d div 1000000 * 1000000 + d mod 1000000 = d" "0 \<le> d mod 1000000" "d mod 1000000 < 1000000"
    "- d div 1000000 * 1000000 + - d mod 1000000 = - d" "0 \<le> - d mod 1000000" "- d mod 1000000 < 1000000"
    by (simp_all only: div_mult_mod_eq pos_mod_sign pos_mod_bound zero_less_numeral)
  show "d < (d sdiv 1000000 + 1) * 1000000" using q d by (simp split: if_splits)
  show "-1000000000 < d \<Longrightarrow> -1000 < d sdiv 1000000" using q d by (simp split: if_splits)
  show "d < 1000000000 \<Longrightarrow> d sdiv 1000000 < 1000" using q d by (simp split: if_splits)
qed

lemma u64_of_int: "0 \<le> x \<Longrightarrow> x < 18446744073709551616 \<Longrightarrow> uint (word_of_int x :: u64) = x"
  by (simp add: uint_word_of_int take_bit_int_eq_self)

text \<open>The difference in milliseconds is at most one millisecond too small.\<close>

lemma CalcTimespecDiffMs_bound:
  assumes "timespec_ok a" "timespec_ok b" "ns_of a \<le> ns_of b"
  shows "ns_of b - ns_of a < (uint (CalcTimespecDiffMs a b) + 1) * 1000000"
proof -
  let ?ds = "fst b - fst a" and ?dn = "snd b - snd a"
  let ?e = "?ds * 1000 + ?dn sdiv 1000000"
  have dn: "-1000000000 < ?dn" "?dn < 1000000000" using assms(1,2) by (auto simp: timespec_ok_def)
  have ns: "ns_of b - ns_of a = ?ds * 1000000000 + ?dn" by (simp add: ns_of_def algebra_simps)
  have pos: "0 \<le> ?e"
  proof (cases "?ds = 0")
    case True
    then have "0 \<le> ?dn" using assms(3) by (simp add: ns_of_def)
    then show ?thesis using True by (simp add: signed_divide_int_def pos_imp_zdiv_nonneg_iff sgn_if)
  next
    case False
    have "0 \<le> ?ds" using assms(3) dn by (simp add: ns_of_def)
    with False have "1 \<le> ?ds" by simp
    then show ?thesis using sdiv_bounds(2) [OF dn(1)] by simp
  qed
  have "?e < 18446744073709551616" using sdiv_bounds(3) [OF dn(2)] assms(1,2) by (auto simp: timespec_ok_def)
  with pos have "uint (word_of_int ?e :: u64) = ?e" by (rule u64_of_int)
  then have "uint (CalcTimespecDiffMs a b) = ?e" by (simp only: CalcTimespecDiffMs_def of_int_add)
  then show ?thesis using ns sdiv_bounds(1) [of ?dn] by (simp add: algebra_simps)
qed

lemma final_duration_range:
  assumes "final_duration ih d = Some f" and "mMinDurationMs ih = 1400" "mMaxDurationMs ih = 5650"
  shows "1400 \<le> f \<and> f \<le> 5650 \<and> f = min 5650 (max 1400 (d + 650))"
  using assms by (auto simp: final_duration_def bind_eq_Some_conv int32_def min_def max_def split: if_splits)

text \<open>
  Whenever the handler accepts a request, whether it starts a new period or finds the
  current one long enough, the period in force ends no earlier than one millisecond before the
  requested time, which is the duration plus 650 ms limited to the range from 1.4 to 5.65 s.
\<close>

theorem acquire_covers_request:
  assumes "Acquire d now ih hm w = Some (ih', hm', w')" and "mState ih \<noteq> INTERACTION_STATE_UNINITIALIZED"
    and "mMinDurationMs ih = 1400" "mMaxDurationMs ih = 5650" and "mDurationMs ih \<le> 5650"
    and "timespec_ok (mLastTimespec ih)" "timespec_ok now" "ns_of (mLastTimespec ih) \<le> ns_of now"
  shows "ns_of now + min 5650 (max 1400 (d + 650)) * 1000000 < ns_of (mLastTimespec ih') + (mDurationMs ih' + 1) * 1000000 \<and>
    mDurationMs ih' \<le> 5650"
proof -
  obtain f where f: "final_duration ih d = Some f" using assms(1,2) by (auto simp: Acquire_def bind_eq_Some_conv)
  note r = final_duration_range [OF f assms(3,4)]
  show ?thesis
  proof (cases "covered ih f now")
    case True
    then have ih': "ih' = ih" using assms(1,2) f by (simp add: Acquire_def)
    let ?rest = "mDurationMs ih - f"
    have rest: "0 \<le> ?rest" "?rest \<le> 5650" using True assms(5) r by (auto simp: covered_def)
    have "CalcTimespecDiffMs (mLastTimespec ih) now \<le> word_of_int ?rest" using True by (simp add: covered_def)
    moreover have "uint (word_of_int ?rest :: u64) = ?rest" using rest by (intro u64_of_int) simp_all
    ultimately have "uint (CalcTimespecDiffMs (mLastTimespec ih) now) \<le> ?rest" by (simp add: word_le_def)
    moreover have "ns_of now - ns_of (mLastTimespec ih) < (uint (CalcTimespecDiffMs (mLastTimespec ih) now) + 1) * 1000000"
      by (rule CalcTimespecDiffMs_bound [OF assms(6-8)])
    moreover have "min 5650 (max 1400 (d + 650)) = f" using r by simp
    ultimately show ?thesis unfolding ih' using assms(5) by simp
  next
    case False
    then have "mDurationMs ih' = f" "mLastTimespec ih' = now"
      using assms(1,2) f by (auto simp: Acquire_def bind_eq_Some_conv Let_def AbortWaitLocked_def split: if_splits)
    then show ?thesis using r by simp
  qed
qed

theorem acquire_covers_request_witness:
  "\<exists>ih' hm' w'. Acquire 0 (7, 0) (handler ex_system) (manager ex_system) (power_env ex_system) = Some (ih', hm', w') \<and>
     ns_of (7, 0) + 1400 * 1000000 < ns_of (mLastTimespec ih') + (mDurationMs ih' + 1) * 1000000"
  using acquire_covers_request [OF ex_acquire] ex_acquire
  by (simp add: ex_system_def new_InteractionHandler_def timespec_ok_def ns_of_def)

section \<open>Boosts\<close>

text \<open>
  An interaction boost with a duration that is not negative succeeds, and until the duration
  (300 ms for a duration of zero) is over every node of the hint wants a value at least as good
  as the one the hint asks for. Nodes that the hint does not name are not touched.
\<close>

theorem boost_lasts:
  assumes "manager_ok (mHintManager p)" and "clock_ok w" and "map_of (hint_actions (mHintManager p)) ''INTERACTION'' = Some as"
    and "nm (mHintManager p) = Some l" "\<not> exitPending l" and "0 \<le> d" "d \<le> 2147483647"
    and "\<forall>k. clock w k \<le> 9000000000000000000"
  shows "\<exists>l' w'. setBoost Boost_INTERACTION d p w = Some (Ok, p\<lparr>mHintManager := (mHintManager p)\<lparr>nm := Some l'\<rparr>\<rparr>, w') \<and>
    (\<forall>i. i \<notin> node_index ` set as \<longrightarrow> nodes l' ! i = nodes l ! i) \<and>
    (\<forall>a\<in>set as. \<exists>k. \<forall>s. s + 1000000 \<le> clock w k + (if d = 0 then 300 else d) * 1000000 \<longrightarrow>
       wanted s (nodes l' ! node_index a) \<le> value_index a)"
proof -
  let ?t = "if d = 0 then d + 300 else d"
  let ?as = "map (\<lambda>a. a\<lparr>timeout_ms := ?t\<rparr>) as"
  have act: "actions_ok (nodes l) ?as"
    using manager_actions_ok [OF assms(1,4,3)] by (simp only: actions_ok_timeout)
  have t: "\<forall>a\<in>set ?as. -9223372036854 \<le> timeout_ms a" using assms(6) by auto
  obtain l' w' where r: "request_on ?as ''INTERACTION'' (mHintManager p) w = Some (True, (mHintManager p)\<lparr>nm := Some l'\<rparr>, w')"
    "\<forall>i. i \<notin> node_index ` set ?as \<longrightarrow> nodes l' ! i = nodes l ! i"
    "\<forall>a\<in>set ?as. \<exists>k \<le> readings w'. \<forall>s. wanted s (nodes l' ! node_index a) =
       (if s + 1000000 \<le> hint_end (clock w k) (timeout_ms a) then boosted s (value_index a) (nodes l ! node_index a)
        else wanted s (nodes l ! node_index a))"
    by (rule request_on_boosts [OF assms(1,2) act t assms(4,5)])
  have le: "boosted s v n \<le> v" for s v n by (simp add: boosted_def split: option.splits)
  have "?t < ms_of_ns (time_point_max - clock w k)" for k
  proof -
    have c: "223372036854775807 \<le> time_point_max - clock w k" using assms(8) by (simp add: time_point_max_def)
    then have "223372036854775807 div 1000000 \<le> (time_point_max - clock w k) div 1000000" by (rule zdiv_mono1) simp
    then show ?thesis using c assms(6,7) by (simp add: ms_of_ns_nonneg)
  qed
  then have e: "hint_end (clock w k) ?t = clock w k + (if d = 0 then 300 else d) * 1000000" for k
    using assms(6) by (auto simp: hint_end_def not_le [symmetric])
  have "\<exists>k. \<forall>s. s + 1000000 \<le> clock w k + (if d = 0 then 300 else d) * 1000000 \<longrightarrow>
       wanted s (nodes l' ! node_index a) \<le> value_index a" if "a \<in> set as" for a
    using bspec [OF r(3), of "a\<lparr>timeout_ms := ?t\<rparr>"] that le e by fastforce
  moreover have "setBoost Boost_INTERACTION d p w = Some (Ok, p\<lparr>mHintManager := (mHintManager p)\<lparr>nm := Some l'\<rparr>\<rparr>, w')"
    using r(1) DoHint_timeout_request [OF assms(3,4), of ?t w] by (simp add: setBoost_def)
  ultimately show ?thesis using r(2) by (auto simp: image_image)
qed

definition ex_power :: Power where
  "ex_power = new_Power (\<lambda>_. 3) 4 \<lparr>nm = Some (new_NodeLooperThread [ex_node]),
     hint_actions = [(''INTERACTION'', [\<lparr>node_index = 0, value_index = 0, timeout_ms = 20\<rparr>])]\<rparr> new_DisplayLowPower"

theorem boost_lasts_witness:
  "\<exists>p' w' l'. setBoost Boost_INTERACTION 0 ex_power ex_env = Some (Ok, p', w') \<and> nm (mHintManager p') = Some l' \<and>
     wanted 304000000 (nodes l' ! 0) = 0"
proof -
  have ok: "manager_ok (mHintManager ex_power)"
    using ex_node_ok
    by (simp add: manager_ok_def ex_power_def new_Power_def new_NodeLooperThread_def actions_ok_def ex_node_def new_FileNode_def new_Node_def)
  have parts: "map_of (hint_actions (mHintManager ex_power)) ''INTERACTION'' = Some [\<lparr>node_index = 0, value_index = 0, timeout_ms = 20\<rparr>]"
    "nm (mHintManager ex_power) = Some (new_NodeLooperThread [ex_node])" "\<not> exitPending (new_NodeLooperThread [ex_node])"
    "\<forall>k. clock ex_env k \<le> 9000000000000000000" "clock ex_env k = 5000000" for k
    by (simp_all add: ex_power_def new_Power_def new_NodeLooperThread_def ex_env_def)
  from boost_lasts [OF ok ex_env_clock(1) parts(1-3) _ _ parts(4), of 0] obtain l' w' where
    b: "setBoost Boost_INTERACTION 0 ex_power ex_env = Some (Ok, ex_power\<lparr>mHintManager := (mHintManager ex_power)\<lparr>nm := Some l'\<rparr>\<rparr>, w')"
      "\<forall>a\<in>set [\<lparr>node_index = 0, value_index = 0, timeout_ms = 20\<rparr>]. \<exists>k. \<forall>s. s + 1000000 \<le> clock ex_env k + (if (0 :: int) = 0 then 300 else 0) * 1000000 \<longrightarrow>
         wanted s (nodes l' ! node_index a) \<le> value_index a"
    by auto
  from bspec [OF b(2), of "\<lparr>node_index = 0, value_index = 0, timeout_ms = 20\<rparr>"] have "wanted 304000000 (nodes l' ! 0) = 0"
    by (auto simp: parts(5))
  with b(1) show ?thesis by auto
qed

end
