(* ===== verification/Cec_Queue.thy ===== *)
theory Cec_Queue
  imports Prelude
begin

text \<open>
  The delayed message queue of \<^verbatim>\<open>libhdmi_cec/CMsgQueue.cpp\<close>: its operations on the vector of
  pending messages, and the steps of the system made of senders, removers and the thread that
  hands due messages to the handler. A step of the thread is a stretch of its code between two
  points at which another thread may change the vector.
\<close>

section \<open>Messages and operations\<close>

text \<open>The parameter bytes that have been assigned are a prefix of the array of the code.\<close>

record CMessage =
  mDelayMs :: int
  mWhenMs :: int
  mType :: int
  mpPara :: "byte list"

definition new_CMessage :: CMessage where
  "new_CMessage = \<lparr>mDelayMs = 0, mWhenMs = 0, mType = 0, mpPara = []\<rparr>"

definition getNowMs :: "int \<Rightarrow> int" where
  "getNowMs systemTime = systemTime div 1000000"

fun insert_index :: "CMessage \<Rightarrow> CMessage list \<Rightarrow> nat" where
  "insert_index msg [] = 0"
| "insert_index msg (m # ms) = (if mWhenMs m \<le> mWhenMs msg then Suc (insert_index msg ms) else 0)"

definition sendMsg :: "int \<Rightarrow> CMessage \<Rightarrow> CMessage list \<Rightarrow> CMessage list" where
  "sendMsg now msg ms =
     (let msg = msg\<lparr>mWhenMs := now + mDelayMs msg\<rparr>; i = insert_index msg ms
      in take i ms @ msg # drop i ms)"

function remove_from :: "int \<Rightarrow> nat \<Rightarrow> CMessage list \<Rightarrow> CMessage list" where
  "remove_from ty i ms =
     (if i < length ms
      then remove_from ty (Suc i) (if mType (ms ! i) = ty then take i ms @ drop (Suc i) ms else ms)
      else ms)"
  by auto
termination by (relation "measure (\<lambda>(ty, i, ms). length ms - i)") auto

declare remove_from.simps [simp del]

definition removeMsg :: "CMessage \<Rightarrow> CMessage list \<Rightarrow> bool \<times> CMessage list" where
  "removeMsg msg ms = (let ms' = remove_from (mType msg) 0 ms in (length ms' < length ms, ms'))"

definition clearMsg :: "CMessage list \<Rightarrow> CMessage list" where
  "clearMsg ms = []"

section \<open>The thread\<close>

text \<open>
  Where the thread stands: waiting for a first message, before the unlocked look at the size in
  the inner loop, before taking a copy of the first message, before reading the clock, before
  and in the timed wait (with the relative and the absolute time limit), before the unlocked look
  at the size after the loop, before taking the first message out, in the handler, or stopped by
  an access outside the vector.
\<close>

datatype loop_pc =
    Await | Look | Peek | Measure CMessage | Doze int | Wait int | Decide | Take | Handle CMessage | Broken

record queue_system =
  m_v_msg :: "CMessage list"
  at :: loop_pc
  now :: int
  accepted :: "CMessage list"
  handled :: "(int \<times> CMessage) list"

definition queue_start :: "int \<Rightarrow> queue_system" where
  "queue_start t = \<lparr>m_v_msg = [], at = Await, now = t, accepted = [], handled = []\<rparr>"

definition thread_step :: "queue_system \<Rightarrow> queue_system" where
  "thread_step q =
     (case at q of
        Await \<Rightarrow> if m_v_msg q = [] then q else q\<lparr>at := Look\<rparr>
      | Look \<Rightarrow> if length (m_v_msg q) \<le> 0 then q\<lparr>at := Decide\<rparr> else q\<lparr>at := Peek\<rparr>
      | Peek \<Rightarrow> (case m_v_msg q of [] \<Rightarrow> q\<lparr>at := Broken\<rparr> | msg # _ \<Rightarrow> q\<lparr>at := Measure msg\<rparr>)
      | Measure msg \<Rightarrow> (let delayMs = mWhenMs msg - now q in
                      if 0 < delayMs then q\<lparr>at := Doze delayMs\<rparr> else q\<lparr>at := Decide\<rparr>)
      | Doze delayMs \<Rightarrow> q\<lparr>at := Wait (now q + delayMs)\<rparr>
      | Wait t \<Rightarrow> if t \<le> now q then q\<lparr>at := Look\<rparr> else q
      | Decide \<Rightarrow> if 0 < length (m_v_msg q) then q\<lparr>at := Take\<rparr> else q\<lparr>at := Await\<rparr>
      | Take \<Rightarrow> (case m_v_msg q of [] \<Rightarrow> q\<lparr>at := Broken\<rparr>
                 | msg # ms \<Rightarrow> q\<lparr>m_v_msg := ms, at := Handle msg, handled := handled q @ [(now q, msg)]\<rparr>)
      | Handle msg \<Rightarrow> q\<lparr>at := Await\<rparr>
      | Broken \<Rightarrow> q)"

text \<open>A signal ends a wait that has begun, and is lost otherwise; a wait may end spuriously.\<close>

definition signal :: "queue_system \<Rightarrow> queue_system" where
  "signal q = (case at q of Wait t \<Rightarrow> q\<lparr>at := Look\<rparr> | _ \<Rightarrow> q)"

datatype queue_act = Thread | Send CMessage | Remove CMessage | Clear | Tick nat | Spurious

fun queue_do :: "queue_act \<Rightarrow> queue_system \<Rightarrow> queue_system" where
  "queue_do Thread q = thread_step q"
| "queue_do (Send msg) q =
     signal (q\<lparr>m_v_msg := sendMsg (now q) msg (m_v_msg q),
               accepted := accepted q @ [msg\<lparr>mWhenMs := now q + mDelayMs msg\<rparr>]\<rparr>)"
| "queue_do (Remove msg) q =
     (let (removed, ms) = removeMsg msg (m_v_msg q); q' = q\<lparr>m_v_msg := ms\<rparr>
      in if removed then signal q' else q')"
| "queue_do Clear q = q\<lparr>m_v_msg := clearMsg (m_v_msg q)\<rparr>"
| "queue_do (Tick n) q = q\<lparr>now := now q + int n\<rparr>"
| "queue_do Spurious q = signal q"

definition queue_run :: "queue_act list \<Rightarrow> queue_system \<Rightarrow> queue_system" where
  "queue_run acts q = fold queue_do acts q"

fun only_sends :: "queue_act \<Rightarrow> bool" where
  "only_sends (Remove msg) = False"
| "only_sends Clear = False"
| "only_sends act = True"

section \<open>Lemmas\<close>

lemma sendMsg_split:
  "sendMsg n msg ms =
     takeWhile (\<lambda>m. mWhenMs m \<le> n + mDelayMs msg) ms @ msg\<lparr>mWhenMs := n + mDelayMs msg\<rparr> #
     dropWhile (\<lambda>m. mWhenMs m \<le> n + mDelayMs msg) ms"
proof -
  have "take (insert_index msg ms) ms = takeWhile (\<lambda>m. mWhenMs m \<le> mWhenMs msg) ms \<and>
        drop (insert_index msg ms) ms = dropWhile (\<lambda>m. mWhenMs m \<le> mWhenMs msg) ms" for msg
    by (induction ms) auto
  then show ?thesis by (simp add: sendMsg_def Let_def)
qed

lemma in_sendMsg: "m \<in> set (sendMsg n msg ms) \<longleftrightarrow> m = msg\<lparr>mWhenMs := n + mDelayMs msg\<rparr> \<or> m \<in> set ms"
proof -
  have "set ms = set (takeWhile P ms) \<union> set (dropWhile P ms)" for P
    by (metis set_append takeWhile_dropWhile_id)
  then show ?thesis by (auto simp: sendMsg_split)
qed

lemma sendMsg_not_Nil [simp]: "sendMsg n msg ms \<noteq> []"
  by (simp add: sendMsg_split)

lemma hd_sendMsg: "sendMsg n msg ms = m # rest \<Longrightarrow>
    m = msg\<lparr>mWhenMs := n + mDelayMs msg\<rparr> \<and> (ms = [] \<or> n + mDelayMs msg < mWhenMs (hd ms)) \<or> (\<exists>tl. ms = m # tl)"
  by (cases ms) (auto simp: sendMsg_split split: if_splits)

definition by_time :: "CMessage list \<Rightarrow> bool" where
  "by_time ms = sorted (map mWhenMs ms)"

lemma by_time_sendMsg: "by_time ms \<Longrightarrow> by_time (sendMsg n msg ms)"
proof -
  assume s: "by_time ms"
  let ?P = "\<lambda>m. mWhenMs m \<le> n + mDelayMs msg"
  have d: "\<forall>m \<in> set (dropWhile ?P ms). n + mDelayMs msg \<le> mWhenMs m"
    using s unfolding by_time_def by (induction ms) auto
  have "sorted (map mWhenMs (takeWhile ?P ms) @ map mWhenMs (dropWhile ?P ms))"
    using s by (simp only: by_time_def map_append [symmetric] takeWhile_dropWhile_id)
  then show ?thesis
    using d by (auto simp: by_time_def sendMsg_split sorted_append dest: set_takeWhileD)
qed

text \<open>What the removal loop does: after a removal it steps over the next message.\<close>

fun skip_remove :: "int \<Rightarrow> CMessage list \<Rightarrow> CMessage list" where
  "skip_remove ty [] = []"
| "skip_remove ty (m # ms) =
     (if mType m = ty then (case ms of [] \<Rightarrow> [] | m' # ms' \<Rightarrow> m' # skip_remove ty ms')
      else m # skip_remove ty ms)"

lemma remove_from_eq: "remove_from ty i ms = take i ms @ skip_remove ty (drop i ms)"
proof (induction ty i ms rule: remove_from.induct)
  case (1 ty i ms)
  show ?case
  proof (cases "i < length ms")
    case False
    then show ?thesis by (simp add: remove_from.simps [of ty i])
  next
    case True
    then have d: "drop i ms = ms ! i # drop (Suc i) ms" by (simp add: Cons_nth_drop_Suc)
    show ?thesis
    proof (cases "mType (ms ! i) = ty")
      case False
      then show ?thesis using 1 [OF True] True d
        by (subst remove_from.simps) (simp add: take_Suc_conv_app_nth)
    next
      case match: True
      have "remove_from ty i ms = remove_from ty (Suc i) (take i ms @ drop (Suc i) ms)"
        using True match by (subst remove_from.simps) simp
      also have "\<dots> = take (Suc i) (take i ms @ drop (Suc i) ms) @
                      skip_remove ty (drop (Suc i) (take i ms @ drop (Suc i) ms))"
        using 1 [OF True] match by simp
      also have "\<dots> = take i ms @ skip_remove ty (drop i ms)"
        using True match d by (cases "drop (Suc i) ms") (auto simp: min_def)
      finally show ?thesis .
    qed
  qed
qed

lemma removeMsg_eq: "snd (removeMsg msg ms) = skip_remove (mType msg) ms"
  by (simp add: removeMsg_def Let_def remove_from_eq)

lemma set_skip_remove: "set (skip_remove ty ms) \<subseteq> set ms"
  by (induction ty ms rule: skip_remove.induct) (auto split: list.splits)

lemma by_time_skip_remove: "by_time ms \<Longrightarrow> by_time (skip_remove ty ms)"
proof (induction ty ms rule: skip_remove.induct)
  case (2 ty m ms)
  then show ?case using set_skip_remove [of ty ms] set_skip_remove [of ty "tl ms"]
    by (auto simp: by_time_def split: list.splits)
qed simp

definition pending :: "int \<Rightarrow> CMessage list \<Rightarrow> nat" where
  "pending ty ms = length (filter (\<lambda>m. mType m = ty) ms)"

lemma pending_simps [simp]:
  "pending ty [] = 0"
  "pending ty (m # ms) = (if mType m = ty then Suc (pending ty ms) else pending ty ms)"
  "pending ty (xs @ ys) = pending ty xs + pending ty ys"
  by (auto simp: pending_def)

lemma pending_sendMsg: "pending ty (sendMsg n msg ms) = pending ty ms + (if mType msg = ty then 1 else 0)"
proof -
  have "pending ty ms = pending ty (takeWhile P ms) + pending ty (dropWhile P ms)" for P
    by (metis pending_simps(3) takeWhile_dropWhile_id)
  then show ?thesis by (simp add: sendMsg_split)
qed

lemma pending_skip_remove_other: "ty' \<noteq> ty \<Longrightarrow> pending ty' (skip_remove ty ms) = pending ty' ms"
  by (induction ty ms rule: skip_remove.induct) (auto split: list.splits)

lemma pending_skip_remove_le: "pending ty (skip_remove ty ms) \<le> pending ty ms - 1"
proof (induction ty ms rule: skip_remove.induct)
  case (2 ty m ms)
  then show ?case by (cases ms) (auto split: if_splits)
qed simp

lemma pending_skip_remove_half: "pending ty (skip_remove ty ms) \<le> pending ty ms div 2"
proof (induction ty ms rule: skip_remove.induct)
  case (2 ty m ms)
  then show ?case by (cases ms) (auto split: if_splits)
qed simp

end
