(* ===== verification/Cec_Queue_Properties.thy ===== *)
theory Cec_Queue_Properties
  imports Cec_Queue
begin

text \<open>
  What the delayed message queue guarantees while nobody removes messages, and what goes wrong
  when a message is sent or removed at the wrong moment.
\<close>

section \<open>Runs without removals\<close>

definition same_delay :: "int \<Rightarrow> CMessage list \<Rightarrow> CMessage list" where
  "same_delay d ms = filter (\<lambda>m. mDelayMs m = d) ms"

lemma same_delay_append [simp]: "same_delay d (xs @ ys) = same_delay d xs @ same_delay d ys"
  by (simp add: same_delay_def)

fun pc_ok :: "loop_pc \<Rightarrow> queue_system \<Rightarrow> bool" where
  "pc_ok (Measure msg) q = (m_v_msg q \<noteq> [] \<and> mWhenMs (hd (m_v_msg q)) \<le> mWhenMs msg)"
| "pc_ok Decide q = (m_v_msg q \<noteq> [] \<and> mWhenMs (hd (m_v_msg q)) \<le> now q)"
| "pc_ok Take q = (m_v_msg q \<noteq> [] \<and> mWhenMs (hd (m_v_msg q)) \<le> now q)"
| "pc_ok Broken q = False"
| "pc_ok Await q = True"
| "pc_ok (Handle msg) q = True"
| "pc_ok pc q = (m_v_msg q \<noteq> [])"

definition queue_inv :: "queue_system \<Rightarrow> bool" where
  "queue_inv q \<longleftrightarrow> by_time (m_v_msg q) \<and> pc_ok (at q) q \<and>
     (\<forall>m \<in> set (m_v_msg q). mWhenMs m \<le> now q + mDelayMs m) \<and>
     (\<forall>(t, m) \<in> set (handled q). mWhenMs m \<le> t \<and> t \<le> now q) \<and>
     (\<forall>d. same_delay d (map snd (handled q) @ m_v_msg q) = same_delay d (accepted q))"

lemma by_time_Cons: "by_time (m # ms) \<longleftrightarrow> (\<forall>x \<in> set ms. mWhenMs m \<le> mWhenMs x) \<and> by_time ms"
  by (auto simp: by_time_def)

lemma queue_inv_thread: "queue_inv q \<Longrightarrow> queue_inv (thread_step q)"
  unfolding queue_inv_def thread_step_def
  by (cases "at q"; cases "m_v_msg q") (auto simp: Let_def by_time_Cons)

lemma same_delay_sendMsg:
  assumes "by_time ms" and "\<forall>m \<in> set ms. mWhenMs m \<le> n + mDelayMs m"
  shows "same_delay d (sendMsg n msg ms) = same_delay d (ms @ [msg\<lparr>mWhenMs := n + mDelayMs msg\<rparr>])"
proof -
  let ?P = "\<lambda>m. mWhenMs m \<le> n + mDelayMs msg"
  have late: "\<not> ?P m" if "m \<in> set (dropWhile ?P ms)" for m
    using assms(1) that by (induction ms) (auto simp: by_time_Cons split: if_splits)
  have none: "same_delay (mDelayMs msg) (dropWhile ?P ms) = []"
    unfolding same_delay_def filter_empty_conv
  proof (intro ballI notI)
    fix m assume m: "m \<in> set (dropWhile ?P ms)" "mDelayMs m = mDelayMs msg"
    then have "mWhenMs m \<le> n + mDelayMs m" using assms(2) set_dropWhileD [OF m(1)] by blast
    then show False using late [OF m(1)] m(2) by simp
  qed
  have "same_delay d ms = same_delay d (takeWhile ?P ms) @ same_delay d (dropWhile ?P ms)"
    by (metis same_delay_append takeWhile_dropWhile_id)
  then show ?thesis using none
    by (cases "d = mDelayMs msg") (auto simp: sendMsg_split, auto simp: same_delay_def)
qed

lemma pc_ok_send:
  assumes "pc_ok pc q"
  shows "pc_ok pc (q\<lparr>m_v_msg := sendMsg (now q) msg (m_v_msg q), accepted := x\<rparr>)"
proof -
  have "mWhenMs (hd (sendMsg (now q) msg (m_v_msg q))) \<le> mWhenMs (hd (m_v_msg q))" if "m_v_msg q \<noteq> []"
    using that by (cases "m_v_msg q") (auto simp: sendMsg_split)
  then show ?thesis using assms by (cases pc) (auto dest: order_trans)
qed

lemma queue_inv_signal: "queue_inv q \<Longrightarrow> queue_inv (signal q)"
  by (cases "at q") (auto simp: queue_inv_def signal_def)

lemma queue_inv_send:
  assumes "queue_inv q"
  shows "queue_inv (queue_do (Send msg) q)"
proof -
  let ?q = "q\<lparr>m_v_msg := sendMsg (now q) msg (m_v_msg q), accepted := accepted q @ [msg\<lparr>mWhenMs := now q + mDelayMs msg\<rparr>]\<rparr>"
  have i: "by_time (m_v_msg q)" "pc_ok (at q) q" "\<forall>m \<in> set (m_v_msg q). mWhenMs m \<le> now q + mDelayMs m"
      "\<forall>(t, m) \<in> set (handled q). mWhenMs m \<le> t \<and> t \<le> now q"
      "\<And>d. same_delay d (map snd (handled q)) @ same_delay d (m_v_msg q) = same_delay d (accepted q)"
    using assms by (auto simp: queue_inv_def)
  have "pc_ok (at ?q) ?q" using pc_ok_send [OF i(2)] by simp
  moreover have "\<forall>m \<in> set (m_v_msg ?q). mWhenMs m \<le> now ?q + mDelayMs m"
    using i(3) by (auto simp: in_sendMsg)
  moreover have "same_delay d (map snd (handled ?q) @ m_v_msg ?q) = same_delay d (accepted ?q)" for d
    by (simp add: same_delay_sendMsg [OF i(1,3)] i(5) [symmetric])
  ultimately have "queue_inv ?q" using i(1,4) by (simp add: queue_inv_def by_time_sendMsg)
  then show ?thesis by (simp add: queue_inv_signal)
qed

lemma queue_inv_tick: "queue_inv q \<Longrightarrow> queue_inv (queue_do (Tick n) q)"
  by (cases "at q") (force simp: queue_inv_def)+

lemma queue_inv_do: "only_sends act \<Longrightarrow> queue_inv q \<Longrightarrow> queue_inv (queue_do act q)"
  using queue_inv_send queue_inv_tick queue_inv_thread queue_inv_signal by (cases act) auto

lemma queue_inv_run: "list_all only_sends acts \<Longrightarrow> queue_inv q \<Longrightarrow> queue_inv (queue_run acts q)"
  by (induction acts arbitrary: q) (auto simp: queue_run_def queue_inv_do simp del: queue_do.simps)

lemma queue_inv_start: "queue_inv (queue_start t)"
  by (simp add: queue_inv_def queue_start_def by_time_def)

section \<open>Properties\<close>


definition ex_msg :: "int \<Rightarrow> int \<Rightarrow> CMessage" where
  "ex_msg ty delay = new_CMessage\<lparr>mType := ty, mDelayMs := delay\<rparr>"

definition ex_run :: "queue_act list" where
  "ex_run = [Send (ex_msg 1 20), Tick 5, Send (ex_msg 2 0)] @ replicate 6 Thread"

lemma ex_run_state:
  "queue_run ex_run (queue_start 0) =
     \<lparr>m_v_msg = [(ex_msg 1 20)\<lparr>mWhenMs := 20\<rparr>], at = Handle ((ex_msg 2 0)\<lparr>mWhenMs := 5\<rparr>), now = 5,
      accepted = [(ex_msg 1 20)\<lparr>mWhenMs := 20\<rparr>, (ex_msg 2 0)\<lparr>mWhenMs := 5\<rparr>],
      handled = [(5, (ex_msg 2 0)\<lparr>mWhenMs := 5\<rparr>)]\<rparr>"
  by (simp add: ex_run_def queue_run_def queue_start_def thread_step_def signal_def sendMsg_def ex_msg_def
      new_CMessage_def numeral_eq_Suc Let_def)


fun dozing :: "queue_system \<Rightarrow> loop_pc \<Rightarrow> bool" where
  "dozing q (Doze d) = True"
| "dozing q (Wait t) = (now q < t)"
| "dozing q (Measure msg) = (now q < mWhenMs msg)"
| "dozing q pc = False"

lemma thread_step_pc:
  "at q = Await \<Longrightarrow> m_v_msg q = m # ms \<Longrightarrow> thread_step q = q\<lparr>at := Look\<rparr>"
  "at q = Look \<Longrightarrow> m_v_msg q = m # ms \<Longrightarrow> thread_step q = q\<lparr>at := Peek\<rparr>"
  "at q = Peek \<Longrightarrow> m_v_msg q = m # ms \<Longrightarrow> thread_step q = q\<lparr>at := Measure m\<rparr>"
  "at q = Measure m' \<Longrightarrow> mWhenMs m' \<le> now q \<Longrightarrow> thread_step q = q\<lparr>at := Decide\<rparr>"
  "at q = Wait t \<Longrightarrow> t \<le> now q \<Longrightarrow> thread_step q = q\<lparr>at := Look\<rparr>"
  "at q = Decide \<Longrightarrow> m_v_msg q = m # ms \<Longrightarrow> thread_step q = q\<lparr>at := Take\<rparr>"
  "at q = Take \<Longrightarrow> m_v_msg q = m # ms \<Longrightarrow>
     thread_step q = q\<lparr>m_v_msg := ms, at := Handle m, handled := handled q @ [(now q, m)]\<rparr>"
  "at q = Handle m' \<Longrightarrow> thread_step q = q\<lparr>at := Await\<rparr>"
  by (simp_all add: thread_step_def)

lemma handled_grows: "set (handled q) \<subseteq> set (handled (queue_run (replicate n Thread) q))"
proof (induction n arbitrary: q)
  case (Suc n)
  have "set (handled q) \<subseteq> set (handled (thread_step q))"
    by (auto simp: thread_step_def Let_def split: loop_pc.split list.split)
  then show ?case using Suc [of "thread_step q"] by (auto simp: queue_run_def)
qed (simp add: queue_run_def)

definition handles :: "nat \<Rightarrow> CMessage \<Rightarrow> queue_system \<Rightarrow> bool" where
  "handles n m q \<longleftrightarrow> (now q, m) \<in> set (handled (queue_run (replicate n Thread) q))"

lemma handles_step: "handles n m (thread_step q) \<Longrightarrow> now (thread_step q) = now q \<Longrightarrow> handles (Suc n) m q"
  by (simp add: handles_def queue_run_def)

lemma handles_mono: "handles n m q \<Longrightarrow> n \<le> k \<Longrightarrow> handles k m q"
proof -
  assume h: "handles n m q" and "n \<le> k"
  then obtain j where "k = n + j" using le_Suc_ex by blast
  then have "queue_run (replicate k Thread) q = queue_run (replicate j Thread) (queue_run (replicate n Thread) q)"
    by (simp add: queue_run_def replicate_add)
  then show ?thesis using h handled_grows [of "queue_run (replicate n Thread) q" j] by (auto simp: handles_def)
qed

lemma thread_steps_handle:
  assumes "queue_inv q" and "m_v_msg q = m # ms" and "mWhenMs m \<le> now q" and "\<not> dozing q (at q)"
  shows "handles 7 m q"
proof -
  have hTake: "handles 1 m q" if "at q = Take" "m_v_msg q = m # ms" for q
    using that by (simp add: handles_def queue_run_def thread_step_pc)
  have hDecide: "handles 2 m q" if "at q = Decide" "m_v_msg q = m # ms" for q
    using that hTake [of "thread_step q"] handles_step [of 1] by (simp add: thread_step_pc numeral_2_eq_2)
  have hMeasure: "handles 3 m q" if "at q = Measure m'" "mWhenMs m' \<le> now q" "m_v_msg q = m # ms" for q m'
    using that hDecide [of "thread_step q"] handles_step [of 2] by (simp add: thread_step_pc numeral_3_eq_3)
  have hPeek: "handles 4 m q" if "at q = Peek" "mWhenMs m \<le> now q" "m_v_msg q = m # ms" for q
    using that hMeasure [of "thread_step q" m] handles_step [of 3] by (simp add: thread_step_pc)
  have hLook: "handles 5 m q" if "at q = Look" "mWhenMs m \<le> now q" "m_v_msg q = m # ms" for q
    using that hPeek [of "thread_step q"] handles_step [of 4] by (simp add: thread_step_pc)
  have hAwait: "handles 6 m q" if "at q = Await \<or> at q = Wait t \<and> t \<le> now q" "mWhenMs m \<le> now q" "m_v_msg q = m # ms" for q t
    using that hLook [of "thread_step q"] handles_step [of 5] by (auto simp: thread_step_pc)
  have hHandle: "handles 7 m q" if "at q = Handle m'" "mWhenMs m \<le> now q" "m_v_msg q = m # ms" for q m'
    using that hAwait [of "thread_step q"] handles_step [of 6] by (simp add: thread_step_pc)
  note late = handles_mono [of _ m q 7]
  show ?thesis
  proof (cases "at q")
    case Await then show ?thesis using late [OF hAwait] assms by simp
  next
    case (Wait t) then show ?thesis using late [OF hAwait [of q t]] assms by simp
  next
    case Look then show ?thesis using late [OF hLook] assms by simp
  next
    case Peek then show ?thesis using late [OF hPeek] assms by simp
  next
    case (Measure m') then show ?thesis using late [OF hMeasure [of q m']] assms by simp
  next
    case Decide then show ?thesis using late [OF hDecide] assms by simp
  next
    case Take then show ?thesis using late [OF hTake] assms by simp
  next
    case (Handle m') then show ?thesis using hHandle [of q m'] assms by simp
  qed (use assms in \<open>simp_all add: queue_inv_def\<close>)
qed

text \<open>
  Once the first pending message is due, and unless the thread is in the timed wait for a
  later one or about to enter it, seven steps of the thread bring the message to the handler.
\<close>

theorem due_message_handled:
  assumes "list_all only_sends acts" and "q = queue_run acts (queue_start t)"
    and "m_v_msg q = m # ms" and "mWhenMs m \<le> now q" and "\<not> dozing q (at q)"
  shows "(now q, m) \<in> set (handled (queue_run (replicate 7 Thread) q))"
  using queue_inv_run [OF assms(1) queue_inv_start] assms(2-5) thread_steps_handle [of q m ms]
  by (simp add: handles_def)

theorem due_message_handled_witness:
  "let q = queue_run [Send (ex_msg 1 0)] (queue_start 3) in
     (3, (ex_msg 1 0)\<lparr>mWhenMs := 3\<rparr>) \<in> set (handled (queue_run (replicate 7 Thread) q))"
  using due_message_handled [of "[Send (ex_msg 1 0)]" _ 3 "(ex_msg 1 0)\<lparr>mWhenMs := 3\<rparr>" "[]", OF _ refl]
  by (simp add: queue_run_def queue_start_def signal_def sendMsg_def ex_msg_def new_CMessage_def)

definition sent_before_wait :: "int \<Rightarrow> CMessage \<Rightarrow> CMessage \<Rightarrow> queue_system" where
  "sent_before_wait t late urgent =
     queue_run [Send late, Thread, Thread, Thread, Thread, Send urgent, Thread] (queue_start t)"

fun progress_for :: "queue_act \<Rightarrow> bool" where
  "progress_for Thread = True"
| "progress_for (Tick n) = True"
| "progress_for act = False"

fun ticks :: "queue_act list \<Rightarrow> int" where
  "ticks [] = 0"
| "ticks (Tick n # acts) = int n + ticks acts"
| "ticks (act # acts) = ticks acts"

lemma ticks_nonneg: "0 \<le> ticks acts"
  by (induction acts rule: ticks.induct) auto

lemma waits_on:
  "at q = Wait u \<Longrightarrow> list_all progress_for acts \<Longrightarrow> now q + ticks acts < u \<Longrightarrow>
   queue_run acts q = q\<lparr>now := now q + ticks acts\<rparr>"
proof (induction acts arbitrary: q)
  case (Cons a acts)
  show ?case
  proof (cases a)
    case Thread
    have "thread_step q = q" using Cons(2,4) ticks_nonneg [of acts] Thread
      by (simp add: thread_step_def)
    then show ?thesis using Cons Thread by (simp add: queue_run_def)
  next
    case (Tick n)
    then show ?thesis using Cons by (simp add: queue_run_def algebra_simps)
  qed (use Cons in simp_all)
qed (simp add: queue_run_def)

lemma sent_before_wait_state:
  assumes "0 \<le> mDelayMs urgent" and "mDelayMs urgent < mDelayMs late"
  shows "sent_before_wait t late urgent =
     \<lparr>m_v_msg = [urgent\<lparr>mWhenMs := t + mDelayMs urgent\<rparr>, late\<lparr>mWhenMs := t + mDelayMs late\<rparr>],
      at = Wait (t + mDelayMs late), now = t,
      accepted = [late\<lparr>mWhenMs := t + mDelayMs late\<rparr>, urgent\<lparr>mWhenMs := t + mDelayMs urgent\<rparr>], handled = []\<rparr>"
  using assms by (simp add: sent_before_wait_def queue_run_def queue_start_def thread_step_def signal_def sendMsg_def Let_def)

text \<open>
  A message can be late by the delay of another one. The thread decides how long to wait
  without holding the lock; the signal of a message that is sent before the wait begins is lost.
  However the thread and the clock proceed, the message, due at once, is not handled until the
  whole delay of the other one is over.
\<close>

theorem lost_wakeup:
  assumes "mDelayMs urgent = 0" and "0 < mDelayMs late"
    and "list_all progress_for acts" and "ticks acts < mDelayMs late"
  shows "let q = queue_run acts (sent_before_wait t late urgent) in
      handled q = [] \<and> hd (m_v_msg q) = urgent\<lparr>mWhenMs := t\<rparr> \<and> now q = t + ticks acts"
  using assms waits_on [of "sent_before_wait t late urgent" "t + mDelayMs late" acts]
  by (simp add: sent_before_wait_state Let_def)

theorem lost_wakeup_witness:
  "let acts = [Thread, Tick 4000, Thread, Tick 999, Thread];
       q = queue_run acts (sent_before_wait 0 (ex_msg 1 5000) (ex_msg 2 0)) in
     handled q = [] \<and> hd (m_v_msg q) = (ex_msg 2 0)\<lparr>mWhenMs := 0\<rparr> \<and> now q = 4999"
  using lost_wakeup [of "ex_msg 2 0" "ex_msg 1 5000" "[Thread, Tick 4000, Thread, Tick 999, Thread]" 0]
  by (simp add: ex_msg_def Let_def)

text \<open>
  Removing messages races with the thread: after a removal between the look at the size and
  the copy of the first message the thread accesses an empty vector, and after a removal between
  the loop and taking the first message out a message is handled before its time.
\<close>

theorem removal_races:
  "at (queue_run [Send a, Thread, Thread, Remove a, Thread] (queue_start t)) = Broken \<and>
   (mDelayMs a = 0 \<and> 0 < mDelayMs b \<and> mType a \<noteq> mType b \<longrightarrow>
    handled (queue_run [Send a, Send b, Thread, Thread, Thread, Thread, Remove a, Thread, Thread] (queue_start t)) =
      [(t, b\<lparr>mWhenMs := t + mDelayMs b\<rparr>)])"
  by (auto simp: queue_run_def queue_start_def thread_step_def signal_def sendMsg_def removeMsg_def Let_def
      remove_from_eq split: if_splits)

theorem removal_races_witness:
  "handled (queue_run [Send (ex_msg 1 0), Send (ex_msg 2 5000), Thread, Thread, Thread, Thread,
     Remove (ex_msg 1 0), Thread, Thread] (queue_start 0)) = [(0, (ex_msg 2 5000)\<lparr>mWhenMs := 5000\<rparr>)]"
  using removal_races [of "ex_msg 1 0" 0 "ex_msg 2 5000"] by (simp add: ex_msg_def)

lemma skip_remove_replicate: "mType m = ty \<Longrightarrow> skip_remove ty (replicate n m) = replicate (n div 2) m"
proof (induction n rule: less_induct)
  case (less n)
  show ?case
  proof (cases "n < 2")
    case True
    then have "n = 0 \<or> n = 1" by auto
    then show ?thesis using less.prems by auto
  next
    case False
    then obtain k where "n = Suc (Suc k)" by (metis add_2_eq_Suc le_Suc_ex not_less)
    then show ?thesis using less by simp
  qed
qed

text \<open>
  Removing the messages of a type leaves the others alone, and removes the type entirely when
  one message of it is pending at most; of several messages in a row it leaves every second one.
\<close>

theorem remove_skips:
  "(ty \<noteq> mType msg \<longrightarrow> pending ty (snd (removeMsg msg ms)) = pending ty ms) \<and>
   (pending (mType msg) ms \<le> 1 \<longrightarrow> pending (mType msg) (snd (removeMsg msg ms)) = 0) \<and>
   snd (removeMsg msg (replicate n msg)) = replicate (n div 2) msg"
  using pending_skip_remove_le [of "mType msg" ms]
  by (auto simp: removeMsg_eq pending_skip_remove_other skip_remove_replicate)

theorem remove_skips_witness:
  "pending 1 (snd (removeMsg (ex_msg 1 0) [ex_msg 2 0, ex_msg 1 0])) = 0 \<and>
   pending 2 (snd (removeMsg (ex_msg 1 0) [ex_msg 2 0, ex_msg 1 0])) = 1 \<and>
   snd (removeMsg (ex_msg 1 0) [ex_msg 1 0, ex_msg 1 0]) = [ex_msg 1 0]"
  using remove_skips [of 2 "ex_msg 1 0" "[ex_msg 2 0, ex_msg 1 0]" 2]
  by (simp add: ex_msg_def numeral_eq_Suc)

end
