(* ===== verification/Std_Text.thy ===== *)
theory Std_Text
  imports Prelude
begin

text \<open>
  The C library on strings as the components use it: numbers read from and printed to strings,
  tokens and substrings.
\<close>

section \<open>Numbers in strings\<close>

definition digit :: "char \<Rightarrow> int option" where
  "digit c = (let n = of_char c :: int in if 48 \<le> n \<and> n \<le> 57 then Some (n - 48) else None)"

fun digits :: "int \<Rightarrow> string \<Rightarrow> int \<times> string" where
  "digits acc [] = (acc, [])"
| "digits acc (c # cs) = (case digit c of None \<Rightarrow> (acc, c # cs) | Some d \<Rightarrow> digits (10 * acc + d) cs)"

definition is_space :: "char \<Rightarrow> bool" where
  "is_space c = (let n = of_char c :: int in n = 32 \<or> 9 \<le> n \<and> n \<le> 13)"

text \<open>
  Decimal \<open>strtol\<close>: the value limited to the range of a 64-bit \<open>long\<close>, and the rest of the string,
  which is the whole string when no digit is found.
\<close>

definition strtol :: "string \<Rightarrow> int \<times> string" where
  "strtol s =
     (let s' = dropWhile is_space s;
          (neg, t) = (case s' of c # cs \<Rightarrow> if c = CHR ''-'' then (True, cs) else if c = CHR ''+'' then (False, cs)
                                           else (False, s') | [] \<Rightarrow> (False, []));
          (n, rest) = digits 0 t; v = (if neg then - n else n)
      in if t = [] \<or> digit (hd t) = None then (0, s)
         else (max (- (2 ^ 63)) (min (2 ^ 63 - 1) v), rest))"

text \<open>\<open>std::stoul\<close>: an exception without a digit or out of the range of a 64-bit \<open>unsigned long\<close>;
  a minus sign negates within that range.\<close>

definition stoul :: "string \<Rightarrow> nat option" where
  "stoul s =
     (let s' = dropWhile is_space s;
          (neg, t) = (case s' of c # cs \<Rightarrow> if c = CHR ''-'' then (True, cs) else if c = CHR ''+'' then (False, cs)
                                           else (False, s') | [] \<Rightarrow> (False, []));
          n = fst (digits 0 t)
      in if t = [] \<or> digit (hd t) = None \<or> 2 ^ 64 \<le> n then None
         else Some (nat ((if neg then - n else n) mod 2 ^ 64)))"

fun strtok_skip :: "char \<Rightarrow> string \<Rightarrow> string" where
  "strtok_skip sep s = dropWhile (\<lambda>c. c = sep) s"

function tokens :: "char \<Rightarrow> string \<Rightarrow> string list" where
  "tokens sep s =
     (let s' = strtok_skip sep s in
      if s' = [] then [] else takeWhile (\<lambda>c. c \<noteq> sep) s' # tokens sep (dropWhile (\<lambda>c. c \<noteq> sep) s'))"
  by auto
termination
proof (relation "measure (length \<circ> snd)")
  fix sep s and s' :: string
  assume s': "s' = strtok_skip sep s" "s' \<noteq> []"
  then obtain c cs where c: "s' = c # cs" by (metis neq_Nil_conv)
  have "c \<noteq> sep" using hd_dropWhile [of "\<lambda>c. c = sep" s] s' c by (metis list.sel(1) strtok_skip.simps)
  then have "length (dropWhile (\<lambda>c. c \<noteq> sep) s') \<le> length cs" using c by (simp add: length_dropWhile_le)
  moreover have "length s' \<le> length s" using s'(1) by (simp add: length_dropWhile_le)
  ultimately have "length (dropWhile (\<lambda>c. c \<noteq> sep) s') < length s" using c by simp
  then show "((sep, dropWhile (\<lambda>c. c \<noteq> sep) s'), sep, s) \<in> measure (length \<circ> snd)" by simp
qed simp

declare tokens.simps [simp del]

definition strstr :: "string \<Rightarrow> string \<Rightarrow> bool" where
  "strstr hay needle = list_ex (\<lambda>k. take (length needle) (drop k hay) = needle) [0..<Suc (length hay)]"

function base_string :: "nat \<Rightarrow> nat \<Rightarrow> string" where
  "base_string b n =
     (if n < b \<or> b < 2 then [''0123456789abcdef'' ! (n mod 16)]
      else base_string b (n div b) @ [''0123456789abcdef'' ! (n mod b mod 16)])"
  by auto
termination by (relation "measure snd") auto

declare base_string.simps [simp del]

definition dec_string :: "int \<Rightarrow> string" where
  "dec_string i = (if i < 0 then ''-'' @ base_string 10 (nat (- i)) else base_string 10 (nat i))"

definition hex_string :: "int \<Rightarrow> string" where
  "hex_string i = base_string 16 (unat (word_of_int i :: u32))"

text \<open>The 32-bit value of a \<open>long\<close> stored through \<open>unsigned int\<close> into an \<open>int\<close>.\<close>

definition int_of_long :: "int \<Rightarrow> int" where
  "int_of_long v = sint (word_of_int v :: u32)"

end
