(* ===== verification/Cec_Base.thy ===== *)
theory Cec_Base
  imports Cec_Queue Std_Text "HOL-Library.Monad_Syntax"
begin

text \<open>
  What the HDMI-CEC library of \<^verbatim>\<open>hdmi_cec/libhdmi_cec\<close> is built on. The constants of the Android
  header \<^verbatim>\<open>hardware/hdmi_cec.h\<close> and everything that the kernel driver, the property service, the
  clock and uninitialised memory may answer are the fields of one record, \<open>platform\<close>. Every
  interaction of the library with the outside is an entry of a trace (the latest first), and every
  answer may depend on the whole trace. An access outside an array or through an invalid pointer
  has the value \<open>None\<close>.
\<close>

section \<open>Messages and events\<close>

record cec_message =
  initiator :: int
  destination :: int
  length_field :: nat
  body :: "byte list"

record hdmi_port_info =
  port_type :: int
  port_id :: int
  cec_supported :: int
  arc_supported :: int
  physical_address :: u16

text \<open>The union of an event: a message or a hotplug notification.\<close>

datatype hdmi_cec_event =
    CecEvent (eventType: int) (cec: cec_message)
  | HotplugEvent (eventType: int) (connected: int) (hotplug_port: int)

definition HDMI_EVENT_VENDOR_MESSAGE :: int where
  "HDMI_EVENT_VENDOR_MESSAGE = 4"

datatype cec_ioctl =
    CEC_IOC_GET_PHYSICAL_ADDR | CEC_IOC_GET_VERSION | CEC_IOC_GET_PORT_INFO | CEC_IOC_GET_PORT_NUM
  | CEC_IOC_SET_OPTION_WAKEUP | CEC_IOC_SET_OPTION_ENABLE_CEC | CEC_IOC_SET_OPTION_SYS_CTRL
  | CEC_IOC_SET_OPTION_SET_LANG | CEC_IOC_GET_CONNECT_STATUS | CEC_IOC_ADD_LOGICAL_ADDR
  | CEC_IOC_CLR_LOGICAL_ADDR | CEC_IOC_SET_DEV_TYPE | CEC_IOC_SET_ARC_ENABLE | CEC_IOC_GET_BOOT_ADDR
  | CEC_IOC_GET_BOOT_REASON | CEC_IOC_SET_DEBUG_EN

datatype effect =
    Open | Close | Read nat | Write "byte list" | Ioctl cec_ioctl int
  | GetProp string | SetProp string string | Clock
  | Notify hdmi_cec_event | NotifyVendor hdmi_cec_event

section \<open>The platform\<close>

record hdmi_cec_h =
  CEC_MESSAGE_BODY_MAX_LENGTH :: nat
  CEC_ADDR_TV :: int
  CEC_ADDR_RECORDER_1 :: int
  CEC_ADDR_RECORDER_2 :: int
  CEC_ADDR_TUNER_1 :: int
  CEC_ADDR_PLAYBACK_1 :: int
  CEC_ADDR_TUNER_2 :: int
  CEC_ADDR_TUNER_3 :: int
  CEC_ADDR_PLAYBACK_2 :: int
  CEC_ADDR_RECORDER_3 :: int
  CEC_ADDR_TUNER_4 :: int
  CEC_ADDR_PLAYBACK_3 :: int
  CEC_ADDR_RESERVED_1 :: int
  CEC_ADDR_FREE_USE :: int
  CEC_ADDR_BROADCAST :: int
  CEC_DEVICE_PLAYBACK :: int
  CEC_MESSAGE_FEATURE_ABORT :: byte
  CEC_MESSAGE_IMAGE_VIEW_ON :: byte
  CEC_MESSAGE_TEXT_VIEW_ON :: byte
  CEC_MESSAGE_SET_MENU_LANGUAGE :: byte
  CEC_MESSAGE_STANDBY :: byte
  CEC_MESSAGE_USER_CONTROL_PRESSED :: byte
  CEC_MESSAGE_USER_CONTROL_RELEASED :: byte
  CEC_MESSAGE_GIVE_OSD_NAME :: byte
  CEC_MESSAGE_SET_OSD_NAME :: byte
  CEC_MESSAGE_ROUTING_CHANGE :: byte
  CEC_MESSAGE_ROUTING_INFORMATION :: byte
  CEC_MESSAGE_ACTIVE_SOURCE :: byte
  CEC_MESSAGE_GIVE_PHYSICAL_ADDRESS :: byte
  CEC_MESSAGE_REPORT_PHYSICAL_ADDRESS :: byte
  CEC_MESSAGE_SET_STREAM_PATH :: byte
  CEC_MESSAGE_DEVICE_VENDOR_ID :: byte
  CEC_MESSAGE_VENDOR_COMMAND :: byte
  CEC_MESSAGE_GIVE_DEVICE_VENDOR_ID :: byte
  CEC_MESSAGE_REPORT_POWER_STATUS :: byte
  CEC_MESSAGE_GET_MENU_LANGUAGE :: byte
  HDMI_EVENT_CEC_MESSAGE :: int
  HDMI_EVENT_HOT_PLUG :: int
  HDMI_OPTION_WAKEUP :: int
  HDMI_OPTION_ENABLE_CEC :: int
  HDMI_OPTION_SYSTEM_CEC_CONTROL :: int
  HDMI_OPTION_SET_LANG :: int
  HDMI_RESULT_SUCCESS :: int
  HDMI_RESULT_NACK :: int
  HDMI_RESULT_BUSY :: int
  HDMI_RESULT_FAIL :: int
  EINVAL :: int

record platform = hdmi_cec_h +
  open_ans :: "effect list \<Rightarrow> int"
  read_ans :: "effect list \<Rightarrow> int \<times> byte list"
  write_ans :: "effect list \<Rightarrow> int"
  ioctl_ans :: "effect list \<Rightarrow> int \<times> int"
  ports_ans :: "effect list \<Rightarrow> hdmi_port_info list"
  prop_ans :: "effect list \<Rightarrow> string"
  clock_ans :: "effect list \<Rightarrow> int"
  memory_ans :: "effect list \<Rightarrow> byte list"

text \<open>What the documentation of the header promises, as far as the library relies on it.\<close>

definition opcodes :: "'a hdmi_cec_h_scheme \<Rightarrow> byte list" where
  "opcodes P =
     [CEC_MESSAGE_FEATURE_ABORT P, CEC_MESSAGE_IMAGE_VIEW_ON P, CEC_MESSAGE_TEXT_VIEW_ON P,
      CEC_MESSAGE_SET_MENU_LANGUAGE P, CEC_MESSAGE_STANDBY P, CEC_MESSAGE_USER_CONTROL_PRESSED P,
      CEC_MESSAGE_USER_CONTROL_RELEASED P, CEC_MESSAGE_GIVE_OSD_NAME P, CEC_MESSAGE_SET_OSD_NAME P,
      CEC_MESSAGE_ROUTING_CHANGE P, CEC_MESSAGE_ROUTING_INFORMATION P, CEC_MESSAGE_ACTIVE_SOURCE P,
      CEC_MESSAGE_GIVE_PHYSICAL_ADDRESS P, CEC_MESSAGE_REPORT_PHYSICAL_ADDRESS P,
      CEC_MESSAGE_SET_STREAM_PATH P, CEC_MESSAGE_DEVICE_VENDOR_ID P, CEC_MESSAGE_VENDOR_COMMAND P,
      CEC_MESSAGE_GIVE_DEVICE_VENDOR_ID P, CEC_MESSAGE_REPORT_POWER_STATUS P, CEC_MESSAGE_GET_MENU_LANGUAGE P]"

definition header_ok :: "'a hdmi_cec_h_scheme \<Rightarrow> bool" where
  "header_ok P \<longleftrightarrow> CEC_MESSAGE_BODY_MAX_LENGTH P = 16 \<and> CEC_ADDR_TV P = 0 \<and> CEC_ADDR_BROADCAST P = 15 \<and>
     HDMI_EVENT_CEC_MESSAGE P = 1 \<and> HDMI_EVENT_HOT_PLUG P = 2 \<and> distinct (0x73 # opcodes P)"

section \<open>Arrays\<close>

definition get_at :: "'a list \<Rightarrow> int \<Rightarrow> 'a option" where
  "get_at xs i = (if 0 \<le> i \<and> nat i < length xs then Some (xs ! nat i) else None)"

definition set_at :: "'a list \<Rightarrow> int \<Rightarrow> 'a \<Rightarrow> 'a list option" where
  "set_at xs i x = (if 0 \<le> i \<and> nat i < length xs then Some (xs[nat i := x]) else None)"

definition assure :: "bool \<Rightarrow> unit option" where
  "assure b = (if b then Some () else None)"

text \<open>Copying the first bytes of one buffer over the start of another.\<close>

definition copy_bytes :: "nat \<Rightarrow> byte list \<Rightarrow> nat \<Rightarrow> byte list \<Rightarrow> byte list option" where
  "copy_bytes off dst n src =
     (if off + n \<le> length dst \<and> n \<le> length src then Some (overlay off (take n src) dst) else None)"

definition uninitialised :: "'a platform_scheme \<Rightarrow> effect list \<Rightarrow> byte list" where
  "uninitialised P tr =
     take (CEC_MESSAGE_BODY_MAX_LENGTH P) (memory_ans P tr @ replicate (CEC_MESSAGE_BODY_MAX_LENGTH P) 0)"

section \<open>Properties of the system\<close>

definition property_get :: "'a platform_scheme \<Rightarrow> string \<Rightarrow> string \<Rightarrow> effect list \<Rightarrow> string \<times> effect list" where
  "property_get P key def tr =
     (let tr = GetProp key # tr; v = prop_ans P tr in (if v = '''' then def else v, tr))"

definition getPropertyBoolean :: "'a platform_scheme \<Rightarrow> string \<Rightarrow> bool \<Rightarrow> effect list \<Rightarrow> bool \<times> effect list" where
  "getPropertyBoolean P key def tr =
     (let (buf, tr) = property_get P key '''' tr; len = length buf in
      (if len = 1 then
         (let ch = buf ! 0 in
          if ch = CHR ''0'' \<or> ch = CHR ''n'' then False
          else if ch = CHR ''1'' \<or> ch = CHR ''y'' then True else def)
       else if 1 < len then
         (if buf = ''no'' \<or> buf = ''false'' \<or> buf = ''off'' then False
          else if buf = ''yes'' \<or> buf = ''true'' \<or> buf = ''on'' then True else def)
       else def, tr))"

definition setProperty :: "string \<Rightarrow> string \<Rightarrow> effect list \<Rightarrow> effect list" where
  "setProperty key val tr = SetProp key val # tr"

definition PROPERTY_DEVICE_TYPE :: string where "PROPERTY_DEVICE_TYPE = ''ro.hdmi.device_type''"
definition PROPERTY_VENDOR_ID :: string where "PROPERTY_VENDOR_ID = ''ro.vendor.platform.hdmi.vendor_id''"
definition PROPERTY_BOOT_OTP :: string where "PROPERTY_BOOT_OTP = ''ro.vendor.hdmi.auto_otp''"
definition PROPERTY_ONE_TOUCH_PLAY :: string where
  "PROPERTY_ONE_TOUCH_PLAY = ''persist.vendor.sys.cec.onetouchplay''"
definition PROPERTY_LOGICAL_ADDRESS :: string where
  "PROPERTY_LOGICAL_ADDRESS = ''persist.vendor.sys.cec.logicaladdress''"
definition PROPERTY_POWER_STATE :: string where "PROPERTY_POWER_STATE = ''persist.vendor.sys.cec.power_state''"
definition PROPERTY_CEC_ENABLED :: string where "PROPERTY_CEC_ENABLED = ''persist.vendor.sys.cec.cec_enabled''"
definition PROPERTY_BOX_CONNECTION_STATE :: string where
  "PROPERTY_BOX_CONNECTION_STATE = ''vendor.sys.hdmi.connected''"
definition PROPERTY_BOOT_REASON :: string where "PROPERTY_BOOT_REASON = ''sys.boot.reason''"
definition PROPERTY_ARC_PORT :: string where "PROPERTY_ARC_PORT = ''persist.vendor.sys.arc_port''"
definition PROPERTY_CEC_DEBUG :: string where "PROPERTY_CEC_DEBUG = ''persist.vendor.sys.cec_debug''"
definition PROPERTY_OSD_NAME :: string where "PROPERTY_OSD_NAME = ''ro.product.model''"

section \<open>Log lines\<close>

text \<open>
  The log line of received bytes is printed byte by byte into 64 characters, with two digits for a
  value of a byte and eight for a negative one: the plain \<open>char\<close> is signed on some targets.
\<close>

definition hex_width :: "bool \<Rightarrow> byte \<Rightarrow> nat" where
  "hex_width char_signed b = (if char_signed \<and> 128 \<le> unat b then 9 else 3)"

fun print_bytes :: "bool \<Rightarrow> nat \<Rightarrow> byte list \<Rightarrow> nat option" where
  "print_bytes char_signed n [] = Some n"
| "print_bytes char_signed n (b # bs) =
     (let n' = n + hex_width char_signed b in if n' + 1 \<le> 64 then print_bytes char_signed n' bs else None)"

definition printCecMsgBuf :: "bool \<Rightarrow> byte list \<Rightarrow> nat \<Rightarrow> nat option" where
  "printCecMsgBuf char_signed msg_buf len = print_bytes char_signed 0 (take len msg_buf)"

definition printCecMessage :: "cec_message \<Rightarrow> nat option" where
  "printCecMessage message = print_bytes False 0 (take (length_field message) (body message))"

section \<open>Compatibility with other vendors\<close>

definition ZHO :: int where "ZHO = 0x7a * 2 ^ 16 + 0x68 * 2 ^ 8 + 0x6f"
definition CHI :: int where "CHI = 0x63 * 2 ^ 16 + 0x68 * 2 ^ 8 + 0x69"
definition KOR :: int where "KOR = 0x6b * 2 ^ 16 + 0x6f * 2 ^ 8 + 0x72"
definition ZH_LANGUAGE :: "byte list" where "ZH_LANGUAGE = [0x7a, 0x68, 0x6f]"
definition LG :: int where "LG = 0xe0 * 2 ^ 8 + 0x91"
definition PHILIPS :: int where "PHILIPS = 0x4d * 2 ^ 16 + 0x53 * 2 ^ 8 + 0x54"
definition SUMSANG :: int where "SUMSANG = 0xf0"
definition COMPAT_TV :: "int list" where "COMPAT_TV = [LG, PHILIPS, SUMSANG]"

definition isCompatVendor :: "int \<Rightarrow> int \<Rightarrow> bool" where
  "isCompatVendor vendorId language =
     (if CHI = language \<and> list_ex (\<lambda>v. vendorId = v) COMPAT_TV then True
      else if KOR = language \<and> LG = vendorId then True else False)"

definition compatLangIfneeded :: "int \<Rightarrow> int \<Rightarrow> cec_message \<Rightarrow> cec_message" where
  "compatLangIfneeded vendorId language msg =
     (if isCompatVendor vendorId language
      then msg\<lparr>body := (body msg)[1 := ZH_LANGUAGE ! 0, 2 := ZH_LANGUAGE ! 1, 3 := ZH_LANGUAGE ! 2]\<rparr>
      else msg)"

end
