(* ===== verification/Cec_Control.thy ===== *)
theory Cec_Control
  imports Cec_Base
begin

text \<open>
  The class \<open>HdmiCecControl\<close> of \<^verbatim>\<open>libhdmi_cec/HdmiCecControl.cpp\<close>: the state of the HDMI-CEC device,
  the operations that the services call, the treatment of received messages and hotplug changes,
  and the handling of delayed messages. Each operation is atomic here. The variant that is built
  with \<^verbatim>\<open>NO_USE_DROID_PATCH\<close> is not modelled; nothing in the repository defines it.
\<close>

section \<open>State\<close>

definition MAX_PORT :: int where "MAX_PORT = 32"
definition DEV_TYPE_TV :: int where "DEV_TYPE_TV = 0"
definition DEV_TYPE_PLAYBACK :: int where "DEV_TYPE_PLAYBACK = 4"
definition DEV_TYPE_AUDIO_SYSTEM :: int where "DEV_TYPE_AUDIO_SYSTEM = 5"
definition DEV_TYPE_VIDEO_PROCESSOR :: nat where "DEV_TYPE_VIDEO_PROCESSOR = 7"
definition INVALID_PHYSICAL_ADDRESS :: u16 where "INVALID_PHYSICAL_ADDRESS = 0xFFFF"
definition CEC_WAKEUP :: int where "CEC_WAKEUP = 8"
definition DELAY_TIMEOUT_MS :: int where "DELAY_TIMEOUT_MS = 5000"
definition DELAY_TRANSMISSION_TIMEOUT :: int where "DELAY_TRANSMISSION_TIMEOUT = 2000"
definition BOOT_OTP_RETRY_COUNT :: int where "BOOT_OTP_RETRY_COUNT = 7"
definition SEND_MESSAGE_RETRY_HAL :: nat where "SEND_MESSAGE_RETRY_HAL = 2"
definition CEC_MESSAGE_SET_AUDIO_VOLUME_LEVEL :: byte where "CEC_MESSAGE_SET_AUDIO_VOLUME_LEVEL = 0x73"
definition CEC_KEYCODE_POWER_ON_FUNCTION :: byte where "CEC_KEYCODE_POWER_ON_FUNCTION = 0x6D"
definition NACK :: int where "NACK = 1"
definition POWER_STATUS_STANDBY :: int where "POWER_STATUS_STANDBY = 1"
definition ACTIVENESS_STATE_ON :: byte where "ACTIVENESS_STATE_ON = 1"
definition ACTIVENESS_STATE_OFF :: byte where "ACTIVENESS_STATE_OFF = 0"
definition VENDOR_CMD_ACTIVENESS :: byte where "VENDOR_CMD_ACTIVENESS = 1"

definition MSG_GET_MENU_LANGUAGE :: int where "MSG_GET_MENU_LANGUAGE = 1"
definition MSG_GIVE_OSD_NAME :: int where "MSG_GIVE_OSD_NAME = 2"
definition MSG_GIVE_DEVICE_VENDOR_ID :: int where "MSG_GIVE_DEVICE_VENDOR_ID = 3"
definition MSG_GIVE_PHYSICAL_ADDRESS :: int where "MSG_GIVE_PHYSICAL_ADDRESS = 4"
definition MSG_ONE_TOUCH_PLAY :: int where "MSG_ONE_TOUCH_PLAY = 5"
definition MSG_PROCESS_CEC_WAKEUP :: int where "MSG_PROCESS_CEC_WAKEUP = 6"
definition MSG_USER_CONTROL_PRESSED :: int where "MSG_USER_CONTROL_PRESSED = 7"
definition MSG_REPORT_PHYSICAL_ADDRESS :: int where "MSG_REPORT_PHYSICAL_ADDRESS = 8"
definition MSG_MAY_SEND_SET_STREAM_PATH :: int where "MSG_MAY_SEND_SET_STREAM_PATH = 9"
definition MSG_SET_OSD_NAME :: int where "MSG_SET_OSD_NAME = 10"
definition MSG_SEND_FEATURE_ABORT :: int where "MSG_SEND_FEATURE_ABORT = 11"
definition MSG_DELAY_PHYSICAL_ADDRESS :: int where "MSG_DELAY_PHYSICAL_ADDRESS = 12"

named_theorems cec_consts \<open>constants of the HDMI-CEC library\<close>

lemmas cec_numbers [cec_consts] =
  MAX_PORT_def DEV_TYPE_TV_def DEV_TYPE_PLAYBACK_def DEV_TYPE_AUDIO_SYSTEM_def DEV_TYPE_VIDEO_PROCESSOR_def
  INVALID_PHYSICAL_ADDRESS_def CEC_WAKEUP_def DELAY_TIMEOUT_MS_def DELAY_TRANSMISSION_TIMEOUT_def
  BOOT_OTP_RETRY_COUNT_def SEND_MESSAGE_RETRY_HAL_def CEC_MESSAGE_SET_AUDIO_VOLUME_LEVEL_def
  CEC_KEYCODE_POWER_ON_FUNCTION_def NACK_def POWER_STATUS_STANDBY_def ACTIVENESS_STATE_ON_def
  ACTIVENESS_STATE_OFF_def VENDOR_CMD_ACTIVENESS_def MSG_GET_MENU_LANGUAGE_def MSG_GIVE_OSD_NAME_def
  MSG_GIVE_DEVICE_VENDOR_ID_def MSG_GIVE_PHYSICAL_ADDRESS_def MSG_ONE_TOUCH_PLAY_def
  MSG_PROCESS_CEC_WAKEUP_def MSG_USER_CONTROL_PRESSED_def MSG_REPORT_PHYSICAL_ADDRESS_def
  MSG_MAY_SEND_SET_STREAM_PATH_def MSG_SET_OSD_NAME_def MSG_SEND_FEATURE_ABORT_def
  MSG_DELAY_PHYSICAL_ADDRESS_def

text \<open>An entry of the array of device types is \<open>None\<close> until it is written.\<close>

record hdmi_device =
  driver_fd :: int
  device_types :: "int option list"
  total_device :: int
  total_port :: int
  port_data :: "hdmi_port_info list option"
  phy_addr :: u16
  arc_port :: int
  is_tv :: bool
  is_playback :: bool
  is_audio_system :: bool
  is_cec_enabled :: bool
  is_cec_controlled :: bool
  hdmi_cfg_init :: bool
  cec_connect_status :: u32
  running :: bool
  exited :: bool
  playback_logical_addr :: int
  active_logical_addr :: int
  active_routing_path :: int
  added_phy_addr :: "int list"
  vendor_ids :: "int list"
  device_name :: string
  processed :: bool
  wake_device_logical_addr :: int
  wake_device_phy_addr :: int

text \<open>
  The listeners are pointers that are null or not. The cached event is a pointer into the stack
  frame of a call that has returned, once it is not null.
\<close>

datatype event_pointer = NullEvent | DeadEvent

record HdmiCecControl = hdmi_device +
  mEventListener :: bool
  mVendorEventListener :: bool
  mMsgHandler :: "CMessage list option"
  mCecEvent :: int
  mBootOtpCount :: int
  mWakeEnabled :: int
  mCachedRoutingEvent :: event_pointer
  mIsReboot :: bool
  mHotplugOutAwake :: bool
  trace :: "effect list"

section \<open>Calls to the outside\<close>

definition ioctl :: "'p platform_scheme \<Rightarrow> cec_ioctl \<Rightarrow> int \<Rightarrow> HdmiCecControl \<Rightarrow> int \<times> int \<times> HdmiCecControl" where
  "ioctl P cmd arg c =
     (let tr = Ioctl cmd arg # trace c; (ret, out) = ioctl_ans P tr in (ret, out, c\<lparr>trace := tr\<rparr>))"

definition ioctl_set :: "'p platform_scheme \<Rightarrow> cec_ioctl \<Rightarrow> int \<Rightarrow> HdmiCecControl \<Rightarrow> HdmiCecControl" where
  "ioctl_set P cmd arg c = snd (snd (ioctl P cmd arg c))"

definition prop_bool :: "'p platform_scheme \<Rightarrow> string \<Rightarrow> bool \<Rightarrow> HdmiCecControl \<Rightarrow> bool \<times> HdmiCecControl" where
  "prop_bool P key def c = (let (b, tr) = getPropertyBoolean P key def (trace c) in (b, c\<lparr>trace := tr\<rparr>))"

definition prop_string :: "'p platform_scheme \<Rightarrow> string \<Rightarrow> string \<Rightarrow> HdmiCecControl \<Rightarrow> string \<times> HdmiCecControl" where
  "prop_string P key def c = (let (v, tr) = property_get P key def (trace c) in (v, c\<lparr>trace := tr\<rparr>))"

definition set_prop :: "string \<Rightarrow> string \<Rightarrow> HdmiCecControl \<Rightarrow> HdmiCecControl" where
  "set_prop key val c = c\<lparr>trace := setProperty key val (trace c)\<rparr>"

definition notify :: "hdmi_cec_event \<Rightarrow> HdmiCecControl \<Rightarrow> HdmiCecControl" where
  "notify ev c = (if mEventListener c then c\<lparr>trace := Notify ev # trace c\<rparr> else c)"

definition queue_send :: "'p platform_scheme \<Rightarrow> CMessage \<Rightarrow> HdmiCecControl \<Rightarrow> HdmiCecControl option" where
  "queue_send P msg c =
     (case mMsgHandler c of None \<Rightarrow> None
      | Some ms \<Rightarrow> let tr = Clock # trace c
                  in Some (c\<lparr>mMsgHandler := Some (sendMsg (getNowMs (clock_ans P tr)) msg ms), trace := tr\<rparr>))"

definition queue_remove :: "CMessage \<Rightarrow> HdmiCecControl \<Rightarrow> HdmiCecControl option" where
  "queue_remove msg c =
     (case mMsgHandler c of None \<Rightarrow> None | Some ms \<Rightarrow> Some (c\<lparr>mMsgHandler := Some (snd (removeMsg msg ms))\<rparr>))"

definition queue_replace :: "'p platform_scheme \<Rightarrow> CMessage \<Rightarrow> HdmiCecControl \<Rightarrow> HdmiCecControl option" where
  "queue_replace P msg c = do { c \<leftarrow> queue_remove msg c; queue_send P msg c }"

definition message_of :: "int \<Rightarrow> int \<Rightarrow> byte list \<Rightarrow> CMessage" where
  "message_of ty delay para = new_CMessage\<lparr>mType := ty, mDelayMs := delay, mpPara := para\<rparr>"

text \<open>A message on the stack: the assigned bytes over what the memory held before.\<close>

definition local_message :: "'p platform_scheme \<Rightarrow> HdmiCecControl \<Rightarrow> int \<Rightarrow> int \<Rightarrow> byte list \<Rightarrow> cec_message" where
  "local_message P c src dst bs =
     \<lparr>initiator = src, destination = dst, length_field = length bs,
      body = overlay 0 bs (uninitialised P (trace c))\<rparr>"

definition byte_of :: "int \<Rightarrow> byte" where
  "byte_of i = word_of_int i"

section \<open>Sending\<close>

definition header_byte :: "cec_message \<Rightarrow> byte" where
  "header_byte message =
     word_of_int (push_bit 4 (initiator message AND 0xf) OR (destination message AND 0xf))"

definition send :: "'p platform_scheme \<Rightarrow> cec_message \<Rightarrow> HdmiCecControl \<Rightarrow> (int \<times> HdmiCecControl) option" where
  "send P message c =
     do {
       let msgBuf = (replicate (CEC_MESSAGE_BODY_MAX_LENGTH P) 0)[0 := header_byte message];
       msgBuf \<leftarrow> copy_bytes 1 msgBuf (length_field message) (body message);
       let tr = Write (take (length_field message + 1) msgBuf) # trace c;
       printCecMessage message;
       Some (write_ans P tr, c\<lparr>trace := tr\<rparr>)
     }"

definition transmit :: "'p platform_scheme \<Rightarrow> cec_message \<Rightarrow> HdmiCecControl \<Rightarrow> HdmiCecControl option" where
  "transmit P message c = map_option snd (send P message c)"

definition sendMessage4 ::
  "'p platform_scheme \<Rightarrow> int \<Rightarrow> int \<Rightarrow> nat \<Rightarrow> byte list \<Rightarrow> HdmiCecControl \<Rightarrow> (int \<times> HdmiCecControl) option" where
  "sendMessage4 P src dst n bs c =
     do {
       b \<leftarrow> copy_bytes 0 (uninitialised P (trace c)) n bs;
       send P \<lparr>initiator = src AND 0xf, destination = dst AND 0xf, length_field = n, body = b\<rparr> c
     }"

definition assertHdmiCecDevice :: "HdmiCecControl \<Rightarrow> bool" where
  "assertHdmiCecDevice c = (driver_fd c < 0)"

section \<open>Addresses\<close>

definition getPhysicalAddress ::
  "'p platform_scheme \<Rightarrow> u16 \<Rightarrow> HdmiCecControl \<Rightarrow> int \<times> u16 \<times> HdmiCecControl" where
  "getPhysicalAddress P addr c =
     (if assertHdmiCecDevice c then (- EINVAL P, addr, c)
      else if is_tv c then (0, 0, c)
      else let (ret, out, c) = ioctl P CEC_IOC_GET_PHYSICAL_ADDR (uint addr) c; addr = word_of_int out :: u16 in
        if addr \<noteq> 0 \<and> addr \<noteq> INVALID_PHYSICAL_ADDRESS then (ret, addr, c\<lparr>phy_addr := addr\<rparr>)
        else (ret, phy_addr c, c))"

text \<open>The call with the address of the stored physical address itself as its argument.\<close>

definition getPhysicalAddress_in_place :: "'p platform_scheme \<Rightarrow> HdmiCecControl \<Rightarrow> HdmiCecControl" where
  "getPhysicalAddress_in_place P c =
     (if assertHdmiCecDevice c then c
      else if is_tv c then c\<lparr>phy_addr := 0\<rparr>
      else let (ret, out, c) = ioctl P CEC_IOC_GET_PHYSICAL_ADDR (uint (phy_addr c)) c
           in c\<lparr>phy_addr := word_of_int out\<rparr>)"

definition isSourceDevice :: "'p platform_scheme \<Rightarrow> int \<Rightarrow> bool" where
  "isSourceDevice P logicalAddress =
     (logicalAddress \<in> {CEC_ADDR_RECORDER_1 P, CEC_ADDR_RECORDER_2 P, CEC_ADDR_TUNER_1 P, CEC_ADDR_PLAYBACK_1 P,
        CEC_ADDR_TUNER_2 P, CEC_ADDR_TUNER_3 P, CEC_ADDR_PLAYBACK_2 P, CEC_ADDR_RECORDER_3 P, CEC_ADDR_TUNER_4 P,
        CEC_ADDR_PLAYBACK_3 P})"

definition addLogicalAddress :: "'p platform_scheme \<Rightarrow> int \<Rightarrow> HdmiCecControl \<Rightarrow> int \<times> HdmiCecControl" where
  "addLogicalAddress P address c =
     (if assertHdmiCecDevice c then (- EINVAL P, c)
      else let c = (if isSourceDevice P address then c\<lparr>playback_logical_addr := address\<rparr> else c);
               (res, _, c) = ioctl P CEC_IOC_ADD_LOGICAL_ADDR address c
           in (res, set_prop PROPERTY_LOGICAL_ADDRESS (hex_string (playback_logical_addr c)) c))"

definition clearLogicaladdress :: "'p platform_scheme \<Rightarrow> HdmiCecControl \<Rightarrow> HdmiCecControl" where
  "clearLogicaladdress P c = (if assertHdmiCecDevice c then c else ioctl_set P CEC_IOC_CLR_LOGICAL_ADDR 0 c)"

section \<open>Queries\<close>

definition setAudioReturnChannel :: "'p platform_scheme \<Rightarrow> int \<Rightarrow> bool \<Rightarrow> HdmiCecControl \<Rightarrow> HdmiCecControl" where
  "setAudioReturnChannel P port flag c =
     (if assertHdmiCecDevice c then c else ioctl_set P CEC_IOC_SET_ARC_ENABLE (if flag then 1 else 0) c)"

definition isConnected :: "'p platform_scheme \<Rightarrow> int \<Rightarrow> HdmiCecControl \<Rightarrow> bool \<times> HdmiCecControl" where
  "isConnected P port c =
     (if assertHdmiCecDevice c then (False, c)
      else let (ret, status, c) = ioctl P CEC_IOC_GET_CONNECT_STATUS port c
           in if ret \<noteq> 0 then (False, c) else (status \<noteq> 0, c))"

definition getVersion :: "'p platform_scheme \<Rightarrow> int \<Rightarrow> HdmiCecControl \<Rightarrow> int \<times> int \<times> HdmiCecControl" where
  "getVersion P version c =
     (if assertHdmiCecDevice c then (-1, version, c) else ioctl P CEC_IOC_GET_VERSION version c)"

definition getVendorId :: "'p platform_scheme \<Rightarrow> u32 \<Rightarrow> HdmiCecControl \<Rightarrow> int \<times> u32 \<times> HdmiCecControl" where
  "getVendorId P vendorId c =
     (if assertHdmiCecDevice c then (-1, vendorId, c)
      else let (val, c) = prop_string P PROPERTY_VENDOR_ID ''1877008'' c; (v, rest) = strtol val
           in if rest \<noteq> '''' then (-1, vendorId, c) else (0, word_of_int v, c))"

fun find_arc_ports :: "hdmi_port_info list \<Rightarrow> HdmiCecControl \<Rightarrow> HdmiCecControl" where
  "find_arc_ports [] c = c"
| "find_arc_ports (p # ps) c =
     find_arc_ports ps
       (if arc_supported p \<noteq> 0 then set_prop PROPERTY_ARC_PORT (dec_string (port_id p)) (c\<lparr>arc_port := port_id p\<rparr>)
        else c)"

text \<open>
  Asking for the ports: a negative count makes the allocation throw, and entries that the driver
  does not fill are read uninitialised.
\<close>

definition getPortInfos ::
  "'p platform_scheme \<Rightarrow> int \<Rightarrow> HdmiCecControl \<Rightarrow> (hdmi_port_info list option \<times> int \<times> HdmiCecControl) option" where
  "getPortInfos P count c =
     (if assertHdmiCecDevice c then Some (None, count, c)
      else do {
        let (_, count, c) = ioctl P CEC_IOC_GET_PORT_NUM count c;
        let count = (if MAX_PORT < count then MAX_PORT else count);
        assure (0 \<le> count);
        let c = ioctl_set P CEC_IOC_GET_PORT_INFO 0 c;
        let ports = take (nat count) (ports_ans P (trace c));
        assure (nat count \<le> length ports);
        let c = find_arc_ports ports (c\<lparr>port_data := Some ports\<rparr>);
        Some (Some ports, count, c\<lparr>total_port := count\<rparr>)
      })"

section \<open>Activeness of a playback device\<close>

text \<open>The new state that a received message implies, if it implies one.\<close>

definition received_state :: "'p platform_scheme \<Rightarrow> cec_message \<Rightarrow> HdmiCecControl \<Rightarrow> byte option option" where
  "received_state P message c =
     (let opcode = body message ! 0; sz = int (length_field message) in
      if opcode \<in> {CEC_MESSAGE_SET_STREAM_PATH P, CEC_MESSAGE_ROUTING_CHANGE P, CEC_MESSAGE_ACTIVE_SOURCE P} then
        do {
          hi \<leftarrow> get_at (body message) (sz - 2);
          lo \<leftarrow> get_at (body message) (sz - 1);
          let path = uint hi * 2 ^ 8 + uint lo;
          Some (Some (if path = uint (phy_addr c) then ACTIVENESS_STATE_ON else ACTIVENESS_STATE_OFF))
        }
      else if opcode = CEC_MESSAGE_STANDBY P then Some (Some ACTIVENESS_STATE_OFF)
      else if opcode = CEC_MESSAGE_REPORT_POWER_STATUS P then
        Some (if initiator message = CEC_ADDR_TV P \<and> length_field message = 2 \<and>
                 uint (body message ! 1) = POWER_STATUS_STANDBY then Some ACTIVENESS_STATE_OFF else None)
      else Some None)"

definition report_activeness :: "'p platform_scheme \<Rightarrow> byte \<Rightarrow> HdmiCecControl \<Rightarrow> HdmiCecControl" where
  "report_activeness P val c =
     (let ev = CecEvent HDMI_EVENT_VENDOR_MESSAGE
                 (local_message P c (CEC_ADDR_RESERVED_1 P) (CEC_ADDR_BROADCAST P)
                    [CEC_MESSAGE_VENDOR_COMMAND P, VENDOR_CMD_ACTIVENESS, val])
      in if mVendorEventListener c then c\<lparr>trace := NotifyVendor ev # trace c\<rparr>
         else c\<lparr>mCachedRoutingEvent := DeadEvent\<rparr>)"

definition updateActiveState :: "'p platform_scheme \<Rightarrow> cec_message \<Rightarrow> bool \<Rightarrow> HdmiCecControl \<Rightarrow> HdmiCecControl option" where
  "updateActiveState P message received c =
     (if \<not> is_playback c then Some c
      else do {
        let c = (if received \<and> \<not> is_cec_enabled c
                 then snd (snd (getPhysicalAddress P INVALID_PHYSICAL_ADDRESS c)) else c);
        updated \<leftarrow> (if received then received_state P message c
                   else if body message ! 0 = CEC_MESSAGE_ACTIVE_SOURCE P then Some (Some ACTIVENESS_STATE_ON)
                   else Some None);
        Some (case updated of None \<Rightarrow> c | Some val \<Rightarrow> report_activeness P val c)
      })"

definition updateActiveStateForFramework :: "'p platform_scheme \<Rightarrow> HdmiCecControl \<Rightarrow> HdmiCecControl option" where
  "updateActiveStateForFramework P c =
     (if \<not> mIsReboot c \<and> active_routing_path c \<noteq> 0
      then queue_replace P (message_of MSG_MAY_SEND_SET_STREAM_PATH 0 []) c
      else Some c)"

definition maySendSetStreamPath :: "'p platform_scheme \<Rightarrow> HdmiCecControl \<Rightarrow> HdmiCecControl" where
  "maySendSetStreamPath P c =
     (if mCecEvent c AND HDMI_EVENT_CEC_MESSAGE P = 0 then c
      else if \<not> is_playback c \<or> is_audio_system c then c
      else let (boot, c) = prop_bool P PROPERTY_BOOT_OTP False c in
        if \<not> boot then c
        else let (otp, c) = prop_bool P PROPERTY_ONE_TOUCH_PLAY True c in
          if \<not> otp then c
          else notify (CecEvent (HDMI_EVENT_CEC_MESSAGE P)
                 (local_message P c (CEC_ADDR_FREE_USE P) (CEC_ADDR_BROADCAST P)
                    [CEC_MESSAGE_SET_STREAM_PATH P, byte_of (drop_bit 8 (active_routing_path c)),
                     byte_of (active_routing_path c)])) c)"

section \<open>Options\<close>

definition set_wakeup :: "'p platform_scheme \<Rightarrow> int \<Rightarrow> HdmiCecControl \<Rightarrow> HdmiCecControl" where
  "set_wakeup P val c = ioctl_set P CEC_IOC_SET_OPTION_WAKEUP val (c\<lparr>mWakeEnabled := val\<rparr>)"

definition handleCecEnabled :: "'p platform_scheme \<Rightarrow> int \<Rightarrow> HdmiCecControl \<Rightarrow> bool \<times> HdmiCecControl" where
  "handleCecEnabled P enabled c =
     (if \<not> is_playback c \<or> \<not> mVendorEventListener c then (False, c)
      else if enabled = 1 then (False, if assertHdmiCecDevice c then c else set_wakeup P (mWakeEnabled c) c)
      else (True, ioctl_set P CEC_IOC_SET_OPTION_WAKEUP 0 c))"

definition state_string :: "bool \<Rightarrow> string" where
  "state_string b = (if b then ''1'' else ''0'')"

definition enable_cec :: "'p platform_scheme \<Rightarrow> int \<Rightarrow> HdmiCecControl \<Rightarrow> HdmiCecControl" where
  "enable_cec P val c =
     (let c = c\<lparr>is_cec_enabled := (val = 1)\<rparr>;
          c = (if is_cec_enabled c then c\<lparr>is_cec_controlled := True\<rparr> else c);
          c = set_prop PROPERTY_CEC_ENABLED (state_string (is_cec_enabled c)) c;
          (stop, c) = handleCecEnabled P val c
      in if stop then c else ioctl_set P CEC_IOC_SET_OPTION_ENABLE_CEC val c)"

definition system_cec_control :: "'p platform_scheme \<Rightarrow> int \<Rightarrow> HdmiCecControl \<Rightarrow> HdmiCecControl option" where
  "system_cec_control P val c =
     (let c = ioctl_set P CEC_IOC_SET_OPTION_SYS_CTRL val c;
          c = c\<lparr>is_cec_controlled := (val = 1)\<rparr>;
          c = set_prop PROPERTY_POWER_STATE (state_string (is_cec_controlled c)) c
      in if \<not> hdmi_cfg_init c \<and> is_cec_controlled c then
           do {
             let (enabled, c) = prop_bool P PROPERTY_CEC_ENABLED True c;
             let c = ioctl_set P CEC_IOC_SET_OPTION_ENABLE_CEC (if enabled then 1 else 0) c;
             c \<leftarrow> updateActiveStateForFramework P c;
             Some (c\<lparr>hdmi_cfg_init := True\<rparr>)
           }
         else Some c)"

definition setOption :: "'p platform_scheme \<Rightarrow> int \<Rightarrow> int \<Rightarrow> HdmiCecControl \<Rightarrow> HdmiCecControl option" where
  "setOption P flag val c =
     (if assertHdmiCecDevice c then Some c
      else if flag = HDMI_OPTION_ENABLE_CEC P then Some (enable_cec P val c)
      else if flag = HDMI_OPTION_WAKEUP P then Some (set_wakeup P val c)
      else if flag = HDMI_OPTION_SYSTEM_CEC_CONTROL P then system_cec_control P val c
      else if flag = HDMI_OPTION_SET_LANG P then Some (ioctl_set P CEC_IOC_SET_OPTION_SET_LANG val c)
      else Some c)"

definition setEventObserver :: "bool \<Rightarrow> HdmiCecControl \<Rightarrow> HdmiCecControl" where
  "setEventObserver listener c = c\<lparr>mEventListener := listener\<rparr>"

text \<open>Registering the vendor's listener reads the cached event, which no longer exists.\<close>

definition setVendorEventObserver :: "'p platform_scheme \<Rightarrow> bool \<Rightarrow> HdmiCecControl \<Rightarrow> HdmiCecControl option" where
  "setVendorEventObserver P listener c =
     do {
       let c = c\<lparr>mVendorEventListener := listener\<rparr>;
       assure (mCachedRoutingEvent c = NullEvent);
       Some (if \<not> is_cec_enabled c
             then ioctl_set P CEC_IOC_SET_OPTION_ENABLE_CEC 1 (snd (handleCecEnabled P 0 c)) else c)
     }"

section \<open>Messages of the framework\<close>

definition preHandleOfSend :: "'p platform_scheme \<Rightarrow> cec_message \<Rightarrow> HdmiCecControl \<Rightarrow> (int \<times> HdmiCecControl) option" where
  "preHandleOfSend P message c =
     (let dest = destination message; opcode = body message ! 0 in
      if opcode = CEC_MESSAGE_GIVE_DEVICE_VENDOR_ID P then
        do { ids \<leftarrow> set_at (vendor_ids c) dest 0; Some (0, c\<lparr>vendor_ids := ids\<rparr>) }
      else if opcode \<in> {CEC_MESSAGE_ROUTING_CHANGE P, CEC_MESSAGE_SET_STREAM_PATH P} then Some (0, c)
      else if opcode = CEC_MESSAGE_GIVE_PHYSICAL_ADDRESS P then
        do { addrs \<leftarrow> set_at (added_phy_addr c) dest 0; Some (0, c\<lparr>added_phy_addr := addrs\<rparr>) }
      else if opcode \<in> {CEC_MESSAGE_TEXT_VIEW_ON P, CEC_MESSAGE_IMAGE_VIEW_ON P, CEC_MESSAGE_ACTIVE_SOURCE P} then
        do {
          c \<leftarrow> (if opcode = CEC_MESSAGE_ACTIVE_SOURCE P then updateActiveState P message False c else Some c);
          Some (if is_playback c \<and> \<not> is_cec_controlled c then -1 else 0, c)
        }
      else if opcode = CEC_MESSAGE_SET_OSD_NAME P then
        (if is_playback c \<and> dest = CEC_ADDR_TV P
         then do { c \<leftarrow> queue_remove (message_of MSG_SET_OSD_NAME 0 []) c; Some (0, c) }
         else Some (0, c))
      else Some (0, c))"

definition postHandleOfSend :: "cec_message \<Rightarrow> int \<Rightarrow> HdmiCecControl \<Rightarrow> HdmiCecControl option" where
  "postHandleOfSend message result c =
     (if length_field message = 0 \<and> result = NACK then
        do {
          addr \<leftarrow> get_at (added_phy_addr c) (destination message);
          if addr \<noteq> 0
          then do { addrs \<leftarrow> set_at (added_phy_addr c) (destination message) 0; Some (c\<lparr>added_phy_addr := addrs\<rparr>) }
          else Some c
        }
      else Some c)"

text \<open>The loop ends after \<open>SEND_MESSAGE_RETRY_HAL\<close> attempts; \<open>left\<close> counts the attempts still allowed.\<close>

fun send_retry :: "'p platform_scheme \<Rightarrow> cec_message \<Rightarrow> nat \<Rightarrow> HdmiCecControl \<Rightarrow> (int \<times> HdmiCecControl) option" where
  "send_retry P message left c =
     do {
       (ret, c) \<leftarrow> send P message c;
       (case left of
          Suc (Suc n) \<Rightarrow>
            if length_field message \<noteq> 0 \<and> (ret = HDMI_RESULT_BUSY P \<or> ret = HDMI_RESULT_FAIL P)
            then send_retry P message (Suc n) c else Some (ret, c)
        | _ \<Rightarrow> Some (ret, c))
     }"

declare send_retry.simps [simp del]

definition sendMessage :: "'p platform_scheme \<Rightarrow> cec_message \<Rightarrow> HdmiCecControl \<Rightarrow> (int \<times> HdmiCecControl) option" where
  "sendMessage P message c =
     (if assertHdmiCecDevice c then Some (HDMI_RESULT_FAIL P, c)
      else if \<not> is_cec_enabled c then Some (HDMI_RESULT_FAIL P, c)
      else do {
        (pre, c) \<leftarrow> preHandleOfSend P message c;
        if pre < 0 then Some (HDMI_RESULT_SUCCESS P, c)
        else do {
          (ret, c) \<leftarrow> send_retry P message SEND_MESSAGE_RETRY_HAL c;
          c \<leftarrow> postHandleOfSend message ret c;
          Some (ret, c)
        }
      })"

section \<open>Received messages\<close>

definition transferableInSleep :: "byte list \<Rightarrow> bool" where
  "transferableInSleep msgBuf = True"

definition handleSetMenuLanguage :: "'p platform_scheme \<Rightarrow> int \<times> cec_message \<Rightarrow> HdmiCecControl \<Rightarrow> (int \<times> cec_message) option" where
  "handleSetMenuLanguage P ev c =
     (let (ty, m) = ev in
      if initiator m \<noteq> CEC_ADDR_TV P then Some (0, m)
      else do {
        let language = uint (body m ! 1) * 2 ^ 16 + uint (body m ! 2) * 2 ^ 8 + uint (body m ! 3);
        vendor \<leftarrow> get_at (vendor_ids c) (CEC_ADDR_TV P);
        Some (ty, compatLangIfneeded vendor language m)
      })"

definition validate_any :: "'p platform_scheme \<Rightarrow> int \<times> cec_message \<Rightarrow> HdmiCecControl \<Rightarrow> ((int \<times> cec_message) \<times> HdmiCecControl) option" where
  "validate_any P ev c =
     (let (ty, m) = ev; opcode = body m ! 0 in
      if opcode = CEC_MESSAGE_DEVICE_VENDOR_ID P then
        do {
          ids \<leftarrow> set_at (vendor_ids c) (initiator m)
                   (uint (body m ! 1) * 2 ^ 16 + uint (body m ! 2) * 2 ^ 8 + uint (body m ! 3));
          Some (ev, c\<lparr>vendor_ids := ids\<rparr>)
        }
      else if opcode = CEC_MESSAGE_SET_AUDIO_VOLUME_LEVEL then
        (if initiator m \<noteq> CEC_ADDR_BROADCAST P \<and> destination m \<noteq> CEC_ADDR_BROADCAST P \<and> length_field m = 1
         then do {
           c \<leftarrow> queue_replace P (message_of MSG_SEND_FEATURE_ABORT 0
                  [byte_of (destination m), byte_of (initiator m), opcode, 0]) c;
           Some ((0, m), c)
         }
         else Some (ev, c))
      else Some (ev, c))"

definition validate_tv :: "'p platform_scheme \<Rightarrow> int \<times> cec_message \<Rightarrow> HdmiCecControl \<Rightarrow> ((int \<times> cec_message) \<times> HdmiCecControl) option" where
  "validate_tv P ev c =
     (let (ty, m) = ev; opcode = body m ! 0 in
      if opcode = CEC_MESSAGE_REPORT_PHYSICAL_ADDRESS P then
        (let devPhyAddr = uint (body m ! 1) * 2 ^ 8 + uint (body m ! 2) in
         if body m ! 1 = 0 then
           do {
             c \<leftarrow> queue_replace P (message_of MSG_GIVE_PHYSICAL_ADDRESS (DELAY_TIMEOUT_MS div 5) [byte_of (initiator m)]) c;
             Some ((0, m), c)
           }
         else do {
           old \<leftarrow> get_at (added_phy_addr c) (initiator m);
           if old = devPhyAddr then Some ((0, m), c)
           else do {
             addrs \<leftarrow> set_at (added_phy_addr c) (initiator m) devPhyAddr;
             Some (ev, c\<lparr>added_phy_addr := addrs\<rparr>)
           }
         })
      else if opcode \<in> {CEC_MESSAGE_ROUTING_CHANGE P, CEC_MESSAGE_ROUTING_INFORMATION P} then
        Some (if destination m \<noteq> CEC_ADDR_BROADCAST P then (0, m) else ev, c)
      else Some (ev, c))"

definition validate_playback :: "'p platform_scheme \<Rightarrow> int \<times> cec_message \<Rightarrow> HdmiCecControl \<Rightarrow> ((int \<times> cec_message) \<times> HdmiCecControl) option" where
  "validate_playback P ev c =
     (let (ty, m) = ev; opcode = body m ! 0 in
      if opcode = CEC_MESSAGE_GIVE_PHYSICAL_ADDRESS P then
        (if initiator m = CEC_ADDR_TV P then
           do {
             let (conn, c) = prop_bool P PROPERTY_BOX_CONNECTION_STATE False c;
             if \<not> conn then
               do { c \<leftarrow> queue_send P (message_of MSG_DELAY_PHYSICAL_ADDRESS 1000 []) c; Some ((0, m), c) }
             else Some (ev, c)
           }
         else Some (ev, c))
      else if opcode = CEC_MESSAGE_SET_MENU_LANGUAGE P then
        do { ev \<leftarrow> handleSetMenuLanguage P ev c; Some (ev, c) }
      else if opcode = CEC_MESSAGE_GIVE_OSD_NAME P then
        (if initiator m = CEC_ADDR_TV P \<and> destination m \<noteq> CEC_ADDR_BROADCAST P \<and> \<not> is_audio_system c
         then do { c \<leftarrow> queue_replace P (message_of MSG_SET_OSD_NAME 1000 []) c; Some (ev, c) }
         else Some (ev, c))
      else Some (ev, c))"

definition messageValidateAndHandle :: "'p platform_scheme \<Rightarrow> int \<times> cec_message \<Rightarrow> HdmiCecControl \<Rightarrow> ((int \<times> cec_message) \<times> HdmiCecControl) option" where
  "messageValidateAndHandle P ev c =
     do {
       (ev, c) \<leftarrow> validate_any P ev c;
       if is_tv c then validate_tv P ev c
       else if is_playback c then validate_playback P ev c
       else Some (ev, c)
     }"

definition handleOTPMsg :: "'p platform_scheme \<Rightarrow> int \<times> cec_message \<Rightarrow> HdmiCecControl \<Rightarrow> HdmiCecControl option" where
  "handleOTPMsg P ev c =
     (let (ty, m) = ev;
          c = (if body m ! 0 = CEC_MESSAGE_ACTIVE_SOURCE P
               then c\<lparr>active_logical_addr := initiator m,
                      active_routing_path := uint (body m ! 1) * 2 ^ 8 + uint (body m ! 2)\<rparr>
               else c)
      in updateActiveState P m True c)"

definition readMessage :: "'p platform_scheme \<Rightarrow> nat \<Rightarrow> HdmiCecControl \<Rightarrow> int \<times> byte list \<times> HdmiCecControl" where
  "readMessage P msgCount c =
     (if msgCount \<le> 0 then (0, [], c)
      else let tr = Read msgCount # trace c; (ret, bs) = read_ans P tr; c = c\<lparr>trace := tr\<rparr>
           in if ret < 0 then (-1, bs, c) else (ret, bs, c))"

text \<open>The received bytes as an event: the two addresses of the header byte and the bytes behind it.\<close>

definition parse_message :: "'p platform_scheme \<Rightarrow> nat \<Rightarrow> byte list \<Rightarrow> cec_message option" where
  "parse_message P r msgBuf =
     do {
       b \<leftarrow> copy_bytes 0 (replicate (CEC_MESSAGE_BODY_MAX_LENGTH P) 0) (r - 1) (drop 1 msgBuf);
       Some \<lparr>initiator = uint (drop_bit 4 (msgBuf ! 0) AND 0xf), destination = uint (msgBuf ! 0 AND 0xf),
             length_field = r - 1, body = b\<rparr>
     }"

text \<open>What is read is a prefix of the buffer; the rest of the buffer is zero.\<close>

definition msg_buffer :: "'p platform_scheme \<Rightarrow> int \<Rightarrow> byte list \<Rightarrow> byte list" where
  "msg_buffer P r bs =
     take (CEC_MESSAGE_BODY_MAX_LENGTH P) (take (nat r) bs @ replicate (CEC_MESSAGE_BODY_MAX_LENGTH P) 0)"

definition readCecMessage :: "bool \<Rightarrow> 'p platform_scheme \<Rightarrow> HdmiCecControl \<Rightarrow> HdmiCecControl option" where
  "readCecMessage char_signed P c =
     do {
       let (r, bs, c) = readMessage P (CEC_MESSAGE_BODY_MAX_LENGTH P) c;
       if r \<le> 1 then Some c
       else do {
         let msgBuf = msg_buffer P r bs;
         printCecMsgBuf char_signed msgBuf (nat r);
         m \<leftarrow> parse_message P (nat r) msgBuf;
         let ty = (if is_cec_controlled c \<or> transferableInSleep msgBuf then HDMI_EVENT_CEC_MESSAGE P else 0);
         (ev, c) \<leftarrow> messageValidateAndHandle P (ty, m) c;
         c \<leftarrow> handleOTPMsg P ev c;
         Some (if \<not> is_cec_enabled c then c
               else if fst ev \<noteq> 0 then notify (CecEvent (fst ev) (snd ev)) c else c)
       }
     }"

section \<open>One touch play\<close>

definition sendOneTouchPlay :: "'p platform_scheme \<Rightarrow> int \<Rightarrow> HdmiCecControl \<Rightarrow> HdmiCecControl option" where
  "sendOneTouchPlay P logicalAddress c =
     do {
       c \<leftarrow> transmit P (local_message P c logicalAddress (CEC_ADDR_TV P) [CEC_MESSAGE_TEXT_VIEW_ON P]) c;
       let addr = (if phy_addr c = INVALID_PHYSICAL_ADDRESS \<or> phy_addr c = 0 then 0x1000 else phy_addr c);
       let message = local_message P c logicalAddress (CEC_ADDR_BROADCAST P)
                       [CEC_MESSAGE_ACTIVE_SOURCE P, ucast (drop_bit 8 addr), ucast addr, byte_of logicalAddress];
       c \<leftarrow> transmit P message c;
       c \<leftarrow> updateActiveState P message False c;
       let c = c\<lparr>mBootOtpCount := mBootOtpCount c + 1\<rparr>;
       c \<leftarrow> (if mBootOtpCount c < BOOT_OTP_RETRY_COUNT
             then queue_replace P (message_of MSG_ONE_TOUCH_PLAY DELAY_TRANSMISSION_TIMEOUT [byte_of logicalAddress]) c
             else Some c);
       Some (c\<lparr>active_logical_addr := logicalAddress, active_routing_path := uint addr\<rparr>)
     }"

text \<open>The logical address of the last start as it is read back from its property.\<close>

definition atoi :: "string \<Rightarrow> int" where
  "atoi s = int_of_long (fst (strtol s))"

definition saved_address :: "string \<Rightarrow> int" where
  "saved_address address = (let a = atoi address in if a = 0 then 4 else a)"

definition bootOneTouchPlay :: "'p platform_scheme \<Rightarrow> HdmiCecControl \<Rightarrow> HdmiCecControl option" where
  "bootOneTouchPlay P c =
     (if \<not> is_playback c \<or> is_audio_system c then Some c
      else let (boot, c) = prop_bool P PROPERTY_BOOT_OTP False c in
        if \<not> boot then Some c
        else let (otp, c) = prop_bool P PROPERTY_ONE_TOUCH_PLAY True c in
          if \<not> otp then Some c
          else let (reason, c) = prop_string P PROPERTY_BOOT_REASON '''' c in
            if \<not> strstr reason ''cold'' \<and> \<not> strstr reason ''shutdown'' then Some (c\<lparr>mIsReboot := True\<rparr>)
            else do {
              let c = getPhysicalAddress_in_place P (c\<lparr>mBootOtpCount := 0\<rparr>);
              let (address, c) = prop_string P PROPERTY_LOGICAL_ADDRESS ''4'' c;
              let logicalAddress = saved_address address;
              let c = snd (addLogicalAddress P logicalAddress c);
              c \<leftarrow> queue_send P (message_of MSG_REPORT_PHYSICAL_ADDRESS 0
                     [byte_of logicalAddress, byte_of (CEC_DEVICE_PLAYBACK P)]) c;
              queue_replace P (message_of MSG_ONE_TOUCH_PLAY 0 [byte_of logicalAddress]) c
            })"

section \<open>Connection status\<close>

definition power_of_port :: "int \<Rightarrow> u32 option" where
  "power_of_port port = (if 0 \<le> port \<and> port < 32 then Some (push_bit (nat port) 1) else None)"

text \<open>What happens when the status of a port has changed.\<close>

definition hotplug_changed :: "'p platform_scheme \<Rightarrow> hdmi_port_info \<Rightarrow> int \<Rightarrow> HdmiCecControl \<Rightarrow> HdmiCecControl" where
  "hotplug_changed P p connect c =
     (let (isWake, c) = prop_bool P PROPERTY_POWER_STATE True c;
          (isWake, c) =
            (if is_playback c then
               (let c = set_prop PROPERTY_BOX_CONNECTION_STATE (state_string (connect \<noteq> 0)) c in
                if connect = 0 then (isWake, c\<lparr>mHotplugOutAwake := isWake\<rparr>)
                else if \<not> isWake \<and> mHotplugOutAwake c then (True, c) else (isWake, c))
             else (isWake, c))
      in if is_cec_enabled c \<and> isWake
         then notify (HotplugEvent (HDMI_EVENT_HOT_PLUG P) connect (port_id p)) c else c)"

definition port_number :: "hdmi_port_info \<Rightarrow> HdmiCecControl \<Rightarrow> int option" where
  "port_number p c =
     (if total_port c = 1 then
        do { t \<leftarrow> get_at (device_types c) 0; t \<leftarrow> t; Some (if t = DEV_TYPE_PLAYBACK then 0 else port_id p) }
      else Some (port_id p))"

text \<open>One round of the loop over the ports; \<open>st\<close> is the status word.\<close>

definition connect_port :: "'p platform_scheme \<Rightarrow> hdmi_port_info \<Rightarrow> u32 \<Rightarrow> HdmiCecControl \<Rightarrow> (u32 \<times> HdmiCecControl) option" where
  "connect_port P p st c =
     do {
       port \<leftarrow> port_number p c;
       let (ret, connect, c) = ioctl P CEC_IOC_GET_CONNECT_STATUS port c;
       if ret \<noteq> 0 then Some (st, c)
       else do {
         mask \<leftarrow> power_of_port port;
         let b = st AND mask;
         if b XOR (if connect \<noteq> 0 then mask else 0) \<noteq> 0
         then Some ((st AND NOT b) OR (if connect \<noteq> 0 then mask else 0), hotplug_changed P p connect c)
         else Some (st, c)
       }
     }"

fun connect_loop :: "'p platform_scheme \<Rightarrow> hdmi_port_info list \<Rightarrow> u32 \<Rightarrow> HdmiCecControl \<Rightarrow> (u32 \<times> HdmiCecControl) option" where
  "connect_loop P [] st c = Some (st, c)"
| "connect_loop P (p # ps) st c = do { (st, c) \<leftarrow> connect_port P p st c; connect_loop P ps st c }"

definition checkConnectStatus :: "'p platform_scheme \<Rightarrow> HdmiCecControl \<Rightarrow> HdmiCecControl option" where
  "checkConnectStatus P c =
     (case port_data c of
        None \<Rightarrow> Some c
      | Some ports \<Rightarrow>
          do {
            assure (nat (total_port c) \<le> length ports);
            (st, c) \<leftarrow> connect_loop P (take (nat (total_port c)) ports) (cec_connect_status c) c;
            Some (c\<lparr>cec_connect_status := st\<rparr>)
          })"

fun boot_connect_loop :: "'p platform_scheme \<Rightarrow> hdmi_port_info list \<Rightarrow> HdmiCecControl \<Rightarrow> HdmiCecControl option" where
  "boot_connect_loop P [] c = Some c"
| "boot_connect_loop P (p # ps) c =
     (let (ret, connect, c) = ioctl P CEC_IOC_GET_CONNECT_STATUS (port_id p) c in
      if ret \<noteq> 0 then boot_connect_loop P ps c
      else do {
        let c = (if is_playback c then set_prop PROPERTY_BOX_CONNECTION_STATE (state_string (connect \<noteq> 0)) c else c);
        mask \<leftarrow> power_of_port (port_id p);
        boot_connect_loop P ps (c\<lparr>cec_connect_status := cec_connect_status c OR (if connect \<noteq> 0 then mask else 0)\<rparr>)
      })"

text \<open>The count is an unsigned number here, so that a negative answer counts as a large one.\<close>

definition getBootConnectStatus :: "'p platform_scheme \<Rightarrow> HdmiCecControl \<Rightarrow> HdmiCecControl option" where
  "getBootConnectStatus P c =
     (let (ret, out, c) = ioctl P CEC_IOC_GET_PORT_NUM 0 c in
      if ret < 0 then Some c
      else do {
        let count = min (unat (word_of_int out :: u32)) (nat MAX_PORT);
        let c = ioctl_set P CEC_IOC_GET_PORT_INFO 0 c;
        let ports = take count (ports_ans P (trace c));
        assure (count \<le> length ports);
        boot_connect_loop P ports (c\<lparr>cec_connect_status := 0\<rparr>)
      })"

section \<open>Wake-up by the boot loader\<close>

definition turnOnDevice :: "'p platform_scheme \<Rightarrow> int \<Rightarrow> HdmiCecControl \<Rightarrow> HdmiCecControl option" where
  "turnOnDevice P logicalAddress c =
     do {
       let message = local_message P c (CEC_ADDR_TV P) logicalAddress
                       [CEC_MESSAGE_USER_CONTROL_PRESSED P, CEC_KEYCODE_POWER_ON_FUNCTION];
       c \<leftarrow> transmit P message c;
       transmit P (message\<lparr>body := (body message)[0 := CEC_MESSAGE_USER_CONTROL_RELEASED P], length_field := 1\<rparr>) c
     }"

definition processCecWakeup :: "'p platform_scheme \<Rightarrow> HdmiCecControl \<Rightarrow> HdmiCecControl" where
  "processCecWakeup P c =
     (let c = (if isSourceDevice P (wake_device_logical_addr c)
               then notify (CecEvent (HDMI_EVENT_CEC_MESSAGE P)
                      (local_message P c (wake_device_logical_addr c) (CEC_ADDR_BROADCAST P)
                         [CEC_MESSAGE_ACTIVE_SOURCE P, byte_of (drop_bit 8 (wake_device_phy_addr c)),
                          byte_of (wake_device_phy_addr c)])) c
               else c)
      in c\<lparr>processed := False\<rparr>)"

definition initCecWakeupInfo :: "'p platform_scheme \<Rightarrow> HdmiCecControl \<Rightarrow> HdmiCecControl" where
  "initCecWakeupInfo P c =
     (if \<not> is_tv c then c
      else let (_, wakeupReason, c) = ioctl P CEC_IOC_GET_BOOT_REASON 0 c;
               c = c\<lparr>processed := (wakeupReason AND 0xff = CEC_WAKEUP)\<rparr>
           in if \<not> processed c then c
              else let (_, wakeAddr, c) = ioctl P CEC_IOC_GET_BOOT_ADDR 0 c
                   in c\<lparr>wake_device_logical_addr := drop_bit 16 wakeAddr AND 0xf,
                        wake_device_phy_addr := wakeAddr AND 0xffff\<rparr>)"

definition getDeviceExtraInfo :: "'p platform_scheme \<Rightarrow> int \<Rightarrow> HdmiCecControl \<Rightarrow> HdmiCecControl option" where
  "getDeviceExtraInfo P flag c =
     do {
       c \<leftarrow> queue_replace P (message_of MSG_GIVE_OSD_NAME (DELAY_TIMEOUT_MS * flag) []) c;
       c \<leftarrow> queue_replace P (message_of MSG_GIVE_DEVICE_VENDOR_ID (DELAY_TIMEOUT_MS * flag) []) c;
       queue_replace P (message_of MSG_GET_MENU_LANGUAGE (DELAY_TIMEOUT_MS * flag) []) c
     }"

section \<open>The message handler\<close>

definition para :: "CMessage \<Rightarrow> int \<Rightarrow> byte option" where
  "para msg i = get_at (mpPara msg) i"

definition ask_tv :: "'p platform_scheme \<Rightarrow> byte \<Rightarrow> HdmiCecControl \<Rightarrow> HdmiCecControl option" where
  "ask_tv P opcode c =
     map_option snd (sendMessage4 P (playback_logical_addr c) (CEC_ADDR_TV P) 1
       ((replicate (CEC_MESSAGE_BODY_MAX_LENGTH P) 0)[0 := opcode]) c)"

definition osd_name_message :: "'p platform_scheme \<Rightarrow> HdmiCecControl \<Rightarrow> cec_message" where
  "osd_name_message P c =
     local_message P c (playback_logical_addr c) (CEC_ADDR_TV P)
       (CEC_MESSAGE_SET_OSD_NAME P #
        map of_char (take (CEC_MESSAGE_BODY_MAX_LENGTH P - 2) (device_name c)))"

definition handleMessage :: "'p platform_scheme \<Rightarrow> CMessage \<Rightarrow> HdmiCecControl \<Rightarrow> HdmiCecControl option" where
  "handleMessage P msg c =
     (if mType msg = MSG_GIVE_PHYSICAL_ADDRESS then
        (if is_tv c then
           do {
             a \<leftarrow> para msg 0;
             transmit P (local_message P c (CEC_ADDR_TV P) (uint a) [CEC_MESSAGE_GIVE_PHYSICAL_ADDRESS P]) c
           }
         else Some c)
      else if mType msg = MSG_REPORT_PHYSICAL_ADDRESS then
        do {
          a \<leftarrow> para msg 0;
          t \<leftarrow> para msg 1;
          transmit P (local_message P c (uint a) (CEC_ADDR_BROADCAST P)
            [CEC_MESSAGE_REPORT_PHYSICAL_ADDRESS P, ucast (drop_bit 8 (phy_addr c)), ucast (phy_addr c), t]) c
        }
      else if mType msg = MSG_USER_CONTROL_PRESSED then
        (if is_tv c then
           do {
             a \<leftarrow> para msg 0;
             b \<leftarrow> para msg 1;
             k \<leftarrow> para msg 2;
             transmit P (local_message P c (uint a) (uint b) [CEC_MESSAGE_USER_CONTROL_PRESSED P, k]) c
           }
         else Some c)
      else if mType msg = MSG_ONE_TOUCH_PLAY then
        do { a \<leftarrow> para msg 0; sendOneTouchPlay P (uint a) c }
      else if mType msg = MSG_GET_MENU_LANGUAGE then ask_tv P (CEC_MESSAGE_GET_MENU_LANGUAGE P) c
      else if mType msg = MSG_GIVE_OSD_NAME then ask_tv P (CEC_MESSAGE_GIVE_OSD_NAME P) c
      else if mType msg = MSG_GIVE_DEVICE_VENDOR_ID then ask_tv P (CEC_MESSAGE_GIVE_DEVICE_VENDOR_ID P) c
      else if mType msg = MSG_PROCESS_CEC_WAKEUP then Some (processCecWakeup P c)
      else if mType msg = MSG_MAY_SEND_SET_STREAM_PATH then Some (maySendSetStreamPath P c)
      else if mType msg = MSG_SET_OSD_NAME then transmit P (osd_name_message P c) c
      else if mType msg = MSG_SEND_FEATURE_ABORT then
        do {
          a \<leftarrow> para msg 0;
          b \<leftarrow> para msg 1;
          opcode \<leftarrow> para msg 2;
          reason \<leftarrow> para msg 3;
          transmit P (local_message P c (uint a) (uint b) [CEC_MESSAGE_FEATURE_ABORT P, opcode, reason]) c
        }
      else if mType msg = MSG_DELAY_PHYSICAL_ADDRESS then
        (let ev = CecEvent (HDMI_EVENT_CEC_MESSAGE P)
                    (local_message P c (CEC_ADDR_TV P) (playback_logical_addr c) [CEC_MESSAGE_GIVE_PHYSICAL_ADDRESS P])
         in Some (if is_cec_enabled c then notify ev c else c))
      else Some c)"

text \<open>The handler's thread taking the first message out of the queue.\<close>

definition deliver :: "'p platform_scheme \<Rightarrow> HdmiCecControl \<Rightarrow> HdmiCecControl option" where
  "deliver P c =
     (case mMsgHandler c of
        Some (msg # ms) \<Rightarrow> handleMessage P msg (c\<lparr>mMsgHandler := Some ms\<rparr>)
      | _ \<Rightarrow> Some c)"

section \<open>Start and end\<close>

fun parse_types :: "string list \<Rightarrow> int \<Rightarrow> HdmiCecControl \<Rightarrow> (bool \<times> int \<times> HdmiCecControl) option" where
  "parse_types [] i c = Some (True, i, c)"
| "parse_types (t # ts) i c =
     (let (v, rest) = strtol t in
      if rest \<noteq> '''' then Some (False, i, c)
      else do {
        types \<leftarrow> set_at (device_types c) i (Some (int_of_long v));
        parse_types ts (i + 1) (c\<lparr>device_types := types\<rparr>)
      })"

definition note_type :: "int \<Rightarrow> HdmiCecControl \<Rightarrow> HdmiCecControl" where
  "note_type t c =
     (if t = DEV_TYPE_TV then c\<lparr>is_tv := True\<rparr>
      else if t = DEV_TYPE_PLAYBACK then c\<lparr>is_playback := True\<rparr>
      else if t = DEV_TYPE_AUDIO_SYSTEM then c\<lparr>is_audio_system := True\<rparr>
      else c)"

fun note_types :: "int option list \<Rightarrow> HdmiCecControl \<Rightarrow> HdmiCecControl option" where
  "note_types [] c = Some c"
| "note_types (t # ts) c = do { t \<leftarrow> t; note_types ts (note_type t c) }"

definition getDeviceTypes :: "'p platform_scheme \<Rightarrow> HdmiCecControl \<Rightarrow> HdmiCecControl option" where
  "getDeviceTypes P c =
     do {
       let c = c\<lparr>device_types := replicate DEV_TYPE_VIDEO_PROCESSOR None\<rparr>;
       let (val, c) = prop_string P PROPERTY_DEVICE_TYPE ''4'' c;
       let ts = tokens (CHR '','') val;
       if ts = [] then Some c
       else do {
         (ok, n, c) \<leftarrow> parse_types ts 0 c;
         if \<not> ok then Some c
         else note_types (take (nat n) (device_types c)) (c\<lparr>total_device := n\<rparr>)
       }
     }"

fun set_types :: "'p platform_scheme \<Rightarrow> int option list \<Rightarrow> HdmiCecControl \<Rightarrow> HdmiCecControl option" where
  "set_types P [] c = Some c"
| "set_types P (t # ts) c = do { t \<leftarrow> t; set_types P ts (ioctl_set P CEC_IOC_SET_DEV_TYPE t c) }"

text \<open>The state with the members that the first lines of the constructor assign; the others keep what the memory held.\<close>

definition initial_control :: "'p platform_scheme \<Rightarrow> HdmiCecControl \<Rightarrow> HdmiCecControl" where
  "initial_control P c =
     (let c = c\<lparr>is_tv := False, is_playback := False, device_types := [], added_phy_addr := [], total_device := 0,
                phy_addr := INVALID_PHYSICAL_ADDRESS, arc_port := 2, running := True, exited := False, total_port := 0,
                cec_connect_status := 0, port_data := None, playback_logical_addr := CEC_ADDR_BROADCAST P,
                mEventListener := False, mVendorEventListener := False, mMsgHandler := None\<rparr>;
          (enabled, c) = prop_bool P PROPERTY_CEC_ENABLED True c
      in c\<lparr>is_cec_enabled := enabled, is_cec_controlled := True, hdmi_cfg_init := False\<rparr>)"

definition start_driver :: "'p platform_scheme \<Rightarrow> HdmiCecControl \<Rightarrow> HdmiCecControl option" where
  "start_driver P c =
     do {
       let (debug, c) = prop_bool P PROPERTY_CEC_DEBUG False c;
       let c = (if debug then ioctl_set P CEC_IOC_SET_DEBUG_EN 2 c else c);
       c \<leftarrow> set_types P (take (nat (total_device c)) (device_types c)) c;
       c \<leftarrow> getBootConnectStatus P c;
       let c = c\<lparr>mMsgHandler := Some []\<rparr>;
       if is_cec_enabled c \<and> mCecEvent c AND HDMI_EVENT_CEC_MESSAGE P \<noteq> 0
       then bootOneTouchPlay P (ioctl_set P CEC_IOC_SET_OPTION_ENABLE_CEC 1 c)
       else Some c
     }"

definition new_HdmiCecControl :: "'p platform_scheme \<Rightarrow> int \<Rightarrow> HdmiCecControl \<Rightarrow> HdmiCecControl option" where
  "new_HdmiCecControl P event c =
     do {
       c \<leftarrow> getDeviceTypes P ((initial_control P c)\<lparr>mCecEvent := event\<rparr>);
       let c = c\<lparr>mCachedRoutingEvent := NullEvent, mWakeEnabled := 1, mIsReboot := False, mHotplugOutAwake := False\<rparr>;
       let (name, c) = prop_string P PROPERTY_OSD_NAME (if is_playback c then ''BOX'' else ''TV'') c;
       let n = nat (CEC_ADDR_BROADCAST P);
       let c = c\<lparr>device_name := name, added_phy_addr := replicate n 0, vendor_ids := replicate n 0,
                 trace := Open # trace c\<rparr>;
       let c = c\<lparr>driver_fd := open_ans P (trace c)\<rparr>;
       if driver_fd c < 0 then Some c else start_driver P c
     }"

definition openCecDevice :: "HdmiCecControl \<Rightarrow> int" where
  "openCecDevice c = driver_fd c"

text \<open>
  The destructor polls the flag \<open>exited\<close>, which \<open>others\<close> may change while it sleeps; the value is
  \<open>None\<close> when it never returns.
\<close>

partial_function (option) wait_exited :: "(HdmiCecControl \<Rightarrow> HdmiCecControl) \<Rightarrow> HdmiCecControl \<Rightarrow> HdmiCecControl option" where
  "wait_exited others c = (if exited c then Some c else wait_exited others (others c))"

definition delete_HdmiCecControl :: "(HdmiCecControl \<Rightarrow> HdmiCecControl) \<Rightarrow> HdmiCecControl \<Rightarrow> effect list option" where
  "delete_HdmiCecControl others c =
     do { c \<leftarrow> wait_exited others (c\<lparr>running := False\<rparr>); Some (Close # trace c) }"

section \<open>Kernel events\<close>

definition UEVENT_MSG_LEN :: nat where "UEVENT_MSG_LEN = 2048"

text \<open>The strings of a kernel event are separated by zero characters; an empty one ends the search.\<close>

function scan_uevent :: "'p platform_scheme \<Rightarrow> string \<Rightarrow> int option" where
  "scan_uevent P cp =
     (let s = takeWhile (\<lambda>c. c \<noteq> CHR 0x00) cp in
      if s = [] then None
      else if strstr s ''hdmi_conn='' then Some (HDMI_EVENT_HOT_PLUG P)
      else if s = ''cec_rx_msg=1'' then Some (HDMI_EVENT_CEC_MESSAGE P)
      else scan_uevent P (drop (length s + 1) cp))"
  by auto
termination
proof (relation "measure (length \<circ> snd)")
  fix P and cp s :: string
  assume "s = takeWhile (\<lambda>c. c \<noteq> CHR 0x00) cp" "s \<noteq> []"
  then have "cp \<noteq> []" by auto
  then show "((P, drop (length s + 1) cp), P, cp) \<in> measure (length \<circ> snd)" by (simp add: diff_less)
qed simp

declare scan_uevent.simps [simp del]

definition processUevent :: "'p platform_scheme \<Rightarrow> int \<Rightarrow> string \<Rightarrow> int option" where
  "processUevent P n msg =
     (if n \<le> 0 then None
      else if int UEVENT_MSG_LEN \<le> n then None
      else scan_uevent P (take (nat n) msg @ [CHR 0x00, CHR 0x00]))"

definition onCecEvent :: "bool \<Rightarrow> 'p platform_scheme \<Rightarrow> int \<Rightarrow> HdmiCecControl \<Rightarrow> HdmiCecControl option" where
  "onCecEvent char_signed P ty c =
     (if HDMI_EVENT_HOT_PLUG P = ty \<and> mCecEvent c AND HDMI_EVENT_HOT_PLUG P \<noteq> 0 then checkConnectStatus P c
      else if HDMI_EVENT_CEC_MESSAGE P = ty \<and> mCecEvent c AND HDMI_EVENT_CEC_MESSAGE P \<noteq> 0
        then readCecMessage char_signed P c
      else Some c)"

end
