(* ===== verification/Cec_Hal.thy ===== *)
theory Cec_Hal
  imports Cec_Control
begin

text \<open>
  The two front ends of the HDMI-CEC library: the AIDL service of \<^verbatim>\<open>hdmi_cec/aidl/HdmiCec.cpp\<close> and the
  module of \<^verbatim>\<open>hdmi_cec/1.0/hdmi_cec.cpp\<close>. A callback of a client is a number; what a client is told is
  returned as a list of calls. The status of an AIDL call is always a success and left out.
\<close>

section \<open>AIDL service\<close>

record CecMessage =
  msg_initiator :: int
  msg_destination :: int
  msg_body :: "byte list"

record HdmiCec =
  mHdmiCecControl :: HdmiCecControl
  mCallbackSize :: int
  mCallbackMap :: "(int \<times> nat) list"
  mVendorCallback :: "nat option"
  mIsVendorCallback :: bool

definition new_HdmiCec :: "'p platform_scheme \<Rightarrow> HdmiCecControl \<Rightarrow> HdmiCec option" where
  "new_HdmiCec P garbage =
     do {
       c \<leftarrow> new_HdmiCecControl P (HDMI_EVENT_CEC_MESSAGE P) garbage;
       Some \<lparr>mHdmiCecControl = setEventObserver True c, mCallbackSize = 0, mCallbackMap = [],
             mVendorCallback = None, mIsVendorCallback = False\<rparr>
     }"

datatype aidl_result = SUCCESS | FAILURE_INVALID_STATE

definition getReturnValue :: "int \<Rightarrow> aidl_result" where
  "getReturnValue result = (if result = 0 then SUCCESS else FAILURE_INVALID_STATE)"

definition aidl_addLogicalAddress :: "'p platform_scheme \<Rightarrow> int \<Rightarrow> HdmiCec \<Rightarrow> aidl_result \<times> HdmiCec" where
  "aidl_addLogicalAddress P addr h =
     (let (ret, c) = addLogicalAddress P addr (mHdmiCecControl h) in (getReturnValue ret, h\<lparr>mHdmiCecControl := c\<rparr>))"

definition aidl_clearLogicalAddress :: "'p platform_scheme \<Rightarrow> HdmiCec \<Rightarrow> HdmiCec" where
  "aidl_clearLogicalAddress P h = h\<lparr>mHdmiCecControl := clearLogicaladdress P (mHdmiCecControl h)\<rparr>"

definition enableAudioReturnChannel :: "'p platform_scheme \<Rightarrow> int \<Rightarrow> bool \<Rightarrow> HdmiCec \<Rightarrow> HdmiCec" where
  "enableAudioReturnChannel P portId enable h =
     h\<lparr>mHdmiCecControl := setAudioReturnChannel P portId enable (mHdmiCecControl h)\<rparr>"

definition getCecVersion :: "'p platform_scheme \<Rightarrow> int \<Rightarrow> HdmiCec \<Rightarrow> int \<times> HdmiCec" where
  "getCecVersion P out h =
     (let (ret, version, c) = getVersion P out (mHdmiCecControl h) in (version, h\<lparr>mHdmiCecControl := c\<rparr>))"

text \<open>Only the lower half of the 32-bit result is written, through a pointer to a 16-bit number.\<close>

definition aidl_getPhysicalAddress :: "'p platform_scheme \<Rightarrow> u32 \<Rightarrow> HdmiCec \<Rightarrow> u32 \<times> HdmiCec" where
  "aidl_getPhysicalAddress P out h =
     (let (ret, addr, c) = getPhysicalAddress P (ucast out) (mHdmiCecControl h)
      in ((out AND 0xFFFF0000) OR ucast addr, h\<lparr>mHdmiCecControl := c\<rparr>))"

definition aidl_getVendorId :: "'p platform_scheme \<Rightarrow> u32 \<Rightarrow> HdmiCec \<Rightarrow> u32 \<times> HdmiCec" where
  "aidl_getVendorId P out h =
     (let (ret, v, c) = getVendorId P out (mHdmiCecControl h) in (v, h\<lparr>mHdmiCecControl := c\<rparr>))"

definition aidl_sendMessage :: "'p platform_scheme \<Rightarrow> CecMessage \<Rightarrow> HdmiCec \<Rightarrow> (int \<times> HdmiCec) option" where
  "aidl_sendMessage P message h =
     do {
       let n = min (length (msg_body message)) (CEC_MESSAGE_BODY_MAX_LENGTH P);
       b \<leftarrow> copy_bytes 0 (uninitialised P (trace (mHdmiCecControl h))) n (msg_body message);
       (ret, c) \<leftarrow> sendMessage P \<lparr>initiator = msg_initiator message, destination = msg_destination message,
                                length_field = n, body = b\<rparr> (mHdmiCecControl h);
       Some (ret, h\<lparr>mHdmiCecControl := c\<rparr>)
     }"

definition put_callback :: "int \<Rightarrow> nat \<Rightarrow> (int \<times> nat) list \<Rightarrow> (int \<times> nat) list" where
  "put_callback pid callback m = (pid, callback) # filter (\<lambda>(p, _). p \<noteq> pid) m"

definition setCallback :: "'p platform_scheme \<Rightarrow> nat option \<Rightarrow> int \<Rightarrow> HdmiCec \<Rightarrow> HdmiCec option" where
  "setCallback P callback pid h =
     (case callback of
        None \<Rightarrow> Some h
      | Some cb \<Rightarrow>
          if mIsVendorCallback h then
            do {
              let h = h\<lparr>mVendorCallback := Some cb\<rparr>;
              c \<leftarrow> setVendorEventObserver P True (mHdmiCecControl h);
              Some (h\<lparr>mHdmiCecControl := c, mIsVendorCallback := False\<rparr>)
            }
          else Some (h\<lparr>mCallbackSize := mCallbackSize h + 1, mCallbackMap := put_callback pid cb (mCallbackMap h)\<rparr>))"

definition LANG_VENDOR_CALLBACK :: string where "LANG_VENDOR_CALLBACK = ''aml''"

definition setLanguage :: "string \<Rightarrow> HdmiCec \<Rightarrow> HdmiCec" where
  "setLanguage language h =
     (if length language \<noteq> 3 then h
      else if language = LANG_VENDOR_CALLBACK then h\<lparr>mIsVendorCallback := True\<rparr> else h)"

definition aidl_setOption :: "'p platform_scheme \<Rightarrow> int \<Rightarrow> bool \<Rightarrow> HdmiCec \<Rightarrow> HdmiCec option" where
  "aidl_setOption P flag val h =
     do { c \<leftarrow> setOption P flag (if val then 1 else 0) (mHdmiCecControl h); Some (h\<lparr>mHdmiCecControl := c\<rparr>) }"

definition enableWakeupByOtp :: "'p platform_scheme \<Rightarrow> bool \<Rightarrow> HdmiCec \<Rightarrow> HdmiCec option" where
  "enableWakeupByOtp P val h = aidl_setOption P (HDMI_OPTION_WAKEUP P) val h"

definition enableCec :: "'p platform_scheme \<Rightarrow> bool \<Rightarrow> HdmiCec \<Rightarrow> HdmiCec option" where
  "enableCec P val h = aidl_setOption P (HDMI_OPTION_ENABLE_CEC P) val h"

definition enableSystemCecControl :: "'p platform_scheme \<Rightarrow> bool \<Rightarrow> HdmiCec \<Rightarrow> HdmiCec option" where
  "enableSystemCecControl P val h = aidl_setOption P (HDMI_OPTION_SYSTEM_CEC_CONTROL P) val h"

fun bury :: "(nat \<Rightarrow> bool) \<Rightarrow> (int \<times> nat) list \<Rightarrow> int \<Rightarrow> (int \<times> nat) list \<times> int" where
  "bury isAlive [] n = ([], n)"
| "bury isAlive ((pid, cb) # m) n =
     (if \<not> isAlive cb then bury isAlive m (n - 1)
      else let (m', n') = bury isAlive m n in ((pid, cb) # m', n'))"

definition handleBinderDied :: "(nat \<Rightarrow> bool) \<Rightarrow> HdmiCec \<Rightarrow> HdmiCec" where
  "handleBinderDied isAlive h =
     (let (m, n) = bury isAlive (mCallbackMap h) (mCallbackSize h) in h\<lparr>mCallbackMap := m, mCallbackSize := n\<rparr>)"

definition getAidlCecMessage :: "'p platform_scheme \<Rightarrow> cec_message \<Rightarrow> CecMessage" where
  "getAidlCecMessage P m =
     \<lparr>msg_initiator = initiator m, msg_destination = destination m,
      msg_body = take (min (length_field m) (CEC_MESSAGE_BODY_MAX_LENGTH P)) (body m)\<rparr>"

definition onEventUpdate :: "'p platform_scheme \<Rightarrow> hdmi_cec_event \<Rightarrow> HdmiCec \<Rightarrow> (nat \<times> CecMessage) list" where
  "onEventUpdate P ev h =
     (if mCallbackSize h = 0 then []
      else if eventType ev = HDMI_EVENT_CEC_MESSAGE P
      then map (\<lambda>(pid, cb). (cb, getAidlCecMessage P (cec ev))) (mCallbackMap h)
      else [])"

definition vendor_onEventUpdate :: "'p platform_scheme \<Rightarrow> hdmi_cec_event \<Rightarrow> HdmiCec \<Rightarrow> (nat \<times> CecMessage) list" where
  "vendor_onEventUpdate P ev h =
     (case mVendorCallback h of
        None \<Rightarrow> []
      | Some cb \<Rightarrow> if eventType ev = HDMI_EVENT_VENDOR_MESSAGE then [(cb, getAidlCecMessage P (cec ev))] else [])"

section \<open>Module\<close>

record aml_cec_hal =
  cecControl :: HdmiCecControl
  cb_data :: nat
  cb :: "nat option"
  fd :: int

definition open_cec :: "'p platform_scheme \<Rightarrow> bool \<Rightarrow> bool \<Rightarrow> HdmiCecControl \<Rightarrow> (int \<times> aml_cec_hal option) option" where
  "open_cec P name_ok device_ok garbage =
     (if \<not> name_ok then Some (- EINVAL P, None)
      else if \<not> device_ok then Some (- EINVAL P, None)
      else do {
        c \<leftarrow> new_HdmiCecControl P (HDMI_EVENT_HOT_PLUG P OR HDMI_EVENT_CEC_MESSAGE P) garbage;
        let c = setEventObserver True c;
        let dev = \<lparr>cecControl = c, cb_data = 0, cb = None, fd = openCecDevice c\<rparr>;
        if fd dev < 0 then Some (- EINVAL P, None) else Some (0, Some dev)
      })"

definition cec_register_event_callback :: "nat option \<Rightarrow> nat \<Rightarrow> aml_cec_hal option \<Rightarrow> aml_cec_hal option" where
  "cec_register_event_callback callback arg hal_info =
     (case hal_info of
        None \<Rightarrow> None
      | Some h \<Rightarrow> if fd h < 0 then Some h else Some (h\<lparr>cb := callback, cb_data := arg\<rparr>))"

text \<open>What the registered function is called with; the pointer to the module is not checked.\<close>

datatype hdmi_event = HdmiCecEvent cec_message | HdmiHotplugEvent int int

definition module_onEventUpdate :: "'p platform_scheme \<Rightarrow> hdmi_cec_event \<Rightarrow> aml_cec_hal option \<Rightarrow> (nat \<times> hdmi_event \<times> nat) list option" where
  "module_onEventUpdate P ev hal_info =
     do {
       h \<leftarrow> hal_info;
       (case cb h of
          None \<Rightarrow> Some []
        | Some f \<Rightarrow>
            (case ev of
               CecEvent ty m \<Rightarrow>
                 if ty AND HDMI_EVENT_CEC_MESSAGE P \<noteq> 0 then
                   do {
                     b \<leftarrow> copy_bytes 0 (uninitialised P (trace (cecControl h))) (length_field m) (body m);
                     Some [(f, HdmiCecEvent (m\<lparr>body := b\<rparr>), cb_data h)]
                   }
                 else Some []
             | HotplugEvent ty conn port \<Rightarrow>
                 if ty AND HDMI_EVENT_HOT_PLUG P \<noteq> 0
                 then Some [(f, HdmiHotplugEvent conn port, cb_data h)] else Some []))
     }"

definition cec_add_logical_address :: "'p platform_scheme \<Rightarrow> int \<Rightarrow> aml_cec_hal \<Rightarrow> int \<times> aml_cec_hal" where
  "cec_add_logical_address P addr h =
     (let (r, c) = addLogicalAddress P addr (cecControl h) in (r, h\<lparr>cecControl := c\<rparr>))"

definition cec_clear_logical_address :: "'p platform_scheme \<Rightarrow> aml_cec_hal \<Rightarrow> aml_cec_hal" where
  "cec_clear_logical_address P h = h\<lparr>cecControl := clearLogicaladdress P (cecControl h)\<rparr>"

definition cec_get_physical_address :: "'p platform_scheme \<Rightarrow> u16 \<Rightarrow> aml_cec_hal \<Rightarrow> int \<times> u16 \<times> aml_cec_hal" where
  "cec_get_physical_address P addr h =
     (let (r, a, c) = getPhysicalAddress P addr (cecControl h) in (r, a, h\<lparr>cecControl := c\<rparr>))"

definition cec_send_message :: "'p platform_scheme \<Rightarrow> cec_message \<Rightarrow> aml_cec_hal \<Rightarrow> (int \<times> aml_cec_hal) option" where
  "cec_send_message P msg h =
     do { (r, c) \<leftarrow> sendMessage P msg (cecControl h); Some (r, h\<lparr>cecControl := c\<rparr>) }"

definition cec_get_version :: "'p platform_scheme \<Rightarrow> int \<Rightarrow> aml_cec_hal \<Rightarrow> int \<times> aml_cec_hal" where
  "cec_get_version P version h =
     (let (r, v, c) = getVersion P version (cecControl h) in (v, h\<lparr>cecControl := c\<rparr>))"

definition cec_get_vendor_id :: "'p platform_scheme \<Rightarrow> u32 \<Rightarrow> aml_cec_hal \<Rightarrow> u32 \<times> aml_cec_hal" where
  "cec_get_vendor_id P vendor_id h =
     (let (r, v, c) = getVendorId P vendor_id (cecControl h) in (v, h\<lparr>cecControl := c\<rparr>))"

definition cec_get_port_info :: "'p platform_scheme \<Rightarrow> int \<Rightarrow> aml_cec_hal \<Rightarrow> (hdmi_port_info list option \<times> int \<times> aml_cec_hal) option" where
  "cec_get_port_info P n h =
     do { (ports, n, c) \<leftarrow> getPortInfos P n (cecControl h); Some (ports, n, h\<lparr>cecControl := c\<rparr>) }"

definition cec_set_option :: "'p platform_scheme \<Rightarrow> int \<Rightarrow> int \<Rightarrow> aml_cec_hal \<Rightarrow> aml_cec_hal option" where
  "cec_set_option P flag val h = do { c \<leftarrow> setOption P flag val (cecControl h); Some (h\<lparr>cecControl := c\<rparr>) }"

definition cec_set_audio_return_channel :: "'p platform_scheme \<Rightarrow> int \<Rightarrow> int \<Rightarrow> aml_cec_hal \<Rightarrow> aml_cec_hal" where
  "cec_set_audio_return_channel P port flag h =
     h\<lparr>cecControl := setAudioReturnChannel P port (flag \<noteq> 0) (cecControl h)\<rparr>"

definition cec_is_connected :: "'p platform_scheme \<Rightarrow> int \<Rightarrow> aml_cec_hal \<Rightarrow> bool \<times> aml_cec_hal" where
  "cec_is_connected P port h = (let (b, c) = isConnected P port (cecControl h) in (b, h\<lparr>cecControl := c\<rparr>))"

text \<open>Closing the module; the device is only freed when the module was never opened.\<close>

definition cec_close :: "aml_cec_hal option \<Rightarrow> int" where
  "cec_close hal_info = (if hal_info \<noteq> None then 0 else -1)"

end
