(* ===== verification/Hdmi_Connection.thy ===== *)
theory Hdmi_Connection
  imports Cec_Control
begin

text \<open>
  The HDMI connection service of \<^verbatim>\<open>hdmiconnection/aidl/HdmiConnection.cpp\<close> over the HDMI-CEC library. It
  shares the array of ports with the library, so that the model keeps track of which arrays are
  allocated: an array is a number, and deleting one that is not allocated, a read of entries that
  nobody wrote and an exception have the value \<open>None\<close>.
\<close>

section \<open>State\<close>

datatype pointer = Null | Block nat

record HdmiPortInfo =
  info_type :: int
  info_portId :: int
  info_cecSupported :: bool
  info_arcSupported :: bool
  info_eArcSupported :: bool
  info_physicalAddress :: int

record HdmiConnection =
  control :: HdmiCecControl
  mCallback :: "nat option"
  mPortInfos :: "HdmiPortInfo list"
  mPortConnectionStatus :: "bool list"
  mTotalPorts :: int
  mHdmiFd :: int
  mHpdSignal :: "int list"
  mTxHpdSignal :: int
  mEarcSupported :: bool
  mHdmiPorts :: pointer
  control_ports :: pointer
  allocated :: "nat list"
  next_block :: nat

definition delete_array :: "pointer \<Rightarrow> HdmiConnection \<Rightarrow> HdmiConnection option" where
  "delete_array p h =
     (case p of
        Null \<Rightarrow> Some h
      | Block n \<Rightarrow> if n \<in> set (allocated h) then Some (h\<lparr>allocated := removeAll n (allocated h)\<rparr>) else None)"

definition new_array :: "int \<Rightarrow> HdmiConnection \<Rightarrow> (pointer \<times> HdmiConnection) option" where
  "new_array n h =
     (if n < 0 then None
      else Some (Block (next_block h), h\<lparr>allocated := next_block h # allocated h, next_block := Suc (next_block h)\<rparr>))"

section \<open>Operations\<close>

text \<open>The library replacing its array of ports, and the pointer that the caller gets.\<close>

definition shared_getPortInfos :: "'p platform_scheme \<Rightarrow> HdmiConnection \<Rightarrow> (hdmi_port_info list option \<times> HdmiConnection) option" where
  "shared_getPortInfos P h =
     do {
       (ports, n, c) \<leftarrow> getPortInfos P (mTotalPorts h) (control h);
       let h = h\<lparr>control := c, mTotalPorts := n\<rparr>;
       (case ports of
          None \<Rightarrow> Some (None, h)
        | Some ps \<Rightarrow> do {
            h \<leftarrow> delete_array (control_ports h) h;
            (p, h) \<leftarrow> new_array n h;
            Some (Some ps, h\<lparr>control_ports := p, mHdmiPorts := p\<rparr>)
          })
     }"

definition port_info :: "bool \<Rightarrow> hdmi_port_info \<Rightarrow> HdmiPortInfo" where
  "port_info earc p =
     \<lparr>info_type = port_type p, info_portId = port_id p, info_cecSupported = (cec_supported p = 1),
      info_arcSupported = (arc_supported p = 1), info_eArcSupported = (if arc_supported p = 1 then earc else False),
      info_physicalAddress = uint (physical_address p)\<rparr>"

definition getPortInfo :: "'p platform_scheme \<Rightarrow> HdmiConnection \<Rightarrow> (HdmiPortInfo list option \<times> HdmiConnection) option" where
  "getPortInfo P h =
     do {
       h \<leftarrow> delete_array (mHdmiPorts h) h;
       (p, h) \<leftarrow> new_array (mTotalPorts h) h;
       (ports, h) \<leftarrow> shared_getPortInfos P (h\<lparr>mHdmiPorts := p\<rparr>);
       if mTotalPorts h < 1 then Some (None, h)
       else do {
         ps \<leftarrow> ports;
         let h = h\<lparr>mPortInfos := map (port_info (mEarcSupported h)) ps\<rparr>;
         Some (Some (mPortInfos h), h)
       }
     }"

definition PROPERTY_EARC_SUPPORTED :: string where
  "PROPERTY_EARC_SUPPORTED = ''ro.vendor.media.support_earc''"

definition new_HdmiConnection :: "'p platform_scheme \<Rightarrow> int \<Rightarrow> pointer \<Rightarrow> HdmiCecControl \<Rightarrow> HdmiConnection option" where
  "new_HdmiConnection P HDMI_HPD_PHYSICAL garbage_pointer garbage =
     do {
       c \<leftarrow> new_HdmiCecControl P (HDMI_EVENT_HOT_PLUG P) garbage;
       (_, h) \<leftarrow> getPortInfo P
         \<lparr>control = c, mCallback = None, mPortInfos = [], mPortConnectionStatus = [], mTotalPorts = 1, mHdmiFd = -1,
          mHpdSignal = [], mTxHpdSignal = HDMI_HPD_PHYSICAL, mEarcSupported = False, mHdmiPorts = garbage_pointer,
          control_ports = Null, allocated = [], next_block = 0\<rparr>;
       let n = length (mPortInfos h);
       let (earc, c) = prop_bool P PROPERTY_EARC_SUPPORTED False (control h);
       let h = h\<lparr>control := c, mTotalPorts := int n, mPortConnectionStatus := replicate n False,
                 mHpdSignal := replicate n HDMI_HPD_PHYSICAL, mEarcSupported := earc\<rparr>;
       (p, h) \<leftarrow> new_array (int n) h;
       Some (h\<lparr>mHdmiPorts := p\<rparr>)
     }"

definition conn_isConnected :: "'p platform_scheme \<Rightarrow> int \<Rightarrow> HdmiConnection \<Rightarrow> bool \<times> HdmiConnection" where
  "conn_isConnected P portId h =
     (if portId < 0 \<or> mTotalPorts h < portId then (False, h)
      else let (b, c) = isConnected P portId (control h) in (b, h\<lparr>control := c\<rparr>))"

definition conn_setCallback :: "nat option \<Rightarrow> HdmiConnection \<Rightarrow> HdmiConnection" where
  "conn_setCallback callback h =
     (let h = h\<lparr>mCallback := None\<rparr> in
      case callback of
        None \<Rightarrow> h
      | Some f \<Rightarrow> h\<lparr>mCallback := Some f, control := setEventObserver True (control h)\<rparr>)"

definition serviceDied :: "HdmiConnection \<Rightarrow> HdmiConnection" where
  "serviceDied h = h\<lparr>mCallback := None\<rparr>"

definition open_hdmirx :: "int \<Rightarrow> HdmiConnection \<Rightarrow> HdmiConnection" where
  "open_hdmirx opened h = (if mHdmiFd h < 0 then h\<lparr>mHdmiFd := opened\<rparr> else h)"

definition setHpdSignal :: "int \<Rightarrow> int \<Rightarrow> int \<Rightarrow> HdmiConnection \<Rightarrow> HdmiConnection option" where
  "setHpdSignal opened sig portId h =
     (if portId = 0 then Some (h\<lparr>mTxHpdSignal := sig\<rparr>)
      else if mTotalPorts h < portId then Some h
      else let h = open_hdmirx opened h in
        if mHdmiFd h < 0 then Some h
        else do { sigs \<leftarrow> set_at (mHpdSignal h) (portId - 1) sig; Some (h\<lparr>mHpdSignal := sigs\<rparr>) })"

definition getHpdSignal :: "int \<Rightarrow> int \<Rightarrow> int \<Rightarrow> int \<Rightarrow> HdmiConnection \<Rightarrow> (int \<times> HdmiConnection) option" where
  "getHpdSignal opened driver_signal portId out h =
     (if portId = 0 then Some (mTxHpdSignal h, h)
      else if mTotalPorts h < portId then Some (out, h)
      else let h = open_hdmirx opened h in
        if mHdmiFd h < 0 then Some (out, h)
        else do {
          sigs \<leftarrow> set_at (mHpdSignal h) (portId - 1) driver_signal;
          Some (driver_signal, h\<lparr>mHpdSignal := sigs\<rparr>)
        })"

section \<open>Hotplug events\<close>

definition conn_onEventUpdate :: "'p platform_scheme \<Rightarrow> hdmi_cec_event \<Rightarrow> HdmiConnection \<Rightarrow> ((nat \<times> bool \<times> int) list \<times> HdmiConnection) option" where
  "conn_onEventUpdate P ev h =
     (case mCallback h of
        None \<Rightarrow> Some ([], h)
      | Some f \<Rightarrow>
          if eventType ev AND HDMI_EVENT_HOT_PLUG P \<noteq> 0 then
            (let conn = (connected ev AND 0xf \<noteq> 0); portId = hotplug_port ev in
             if int (length (mPortInfos h)) < portId then Some ([], h)
             else do {
               st \<leftarrow> set_at (mPortConnectionStatus h) portId conn;
               Some ([(f, conn, portId)], h\<lparr>mPortConnectionStatus := st\<rparr>)
             })
          else Some ([], h))"

fun dispatch :: "'p platform_scheme \<Rightarrow> hdmi_cec_event list \<Rightarrow> HdmiConnection \<Rightarrow> ((nat \<times> bool \<times> int) list \<times> HdmiConnection) option" where
  "dispatch P [] h = Some ([], h)"
| "dispatch P (ev # evs) h =
     do { (told, h) \<leftarrow> conn_onEventUpdate P ev h; (more, h) \<leftarrow> dispatch P evs h; Some (told @ more, h) }"

text \<open>The events that a call of the library hands to its listener, in their order.\<close>

definition events_of :: "effect list \<Rightarrow> hdmi_cec_event list" where
  "events_of tr = concat (map (\<lambda>e. case e of Notify ev \<Rightarrow> [ev] | _ \<Rightarrow> []) (rev tr))"

definition notified :: "effect list \<Rightarrow> effect list \<Rightarrow> hdmi_cec_event list" where
  "notified before after = events_of (take (length after - length before) after)"

definition conn_hotplug :: "'p platform_scheme \<Rightarrow> HdmiConnection \<Rightarrow> ((nat \<times> bool \<times> int) list \<times> HdmiConnection) option" where
  "conn_hotplug P h =
     do {
       c \<leftarrow> onCecEvent False P (HDMI_EVENT_HOT_PLUG P) (control h);
       dispatch P (notified (trace (control h)) (trace c)) (h\<lparr>control := c\<rparr>)
     }"

end
