(* ===== verification/Cec_Lemmas.thy ===== *)
theory Cec_Lemmas
  imports Cec_Hal Hdmi_Connection
begin

text \<open>
  The invariant of the HDMI-CEC library and what each of its operations keeps of it: arrays of their
  full length, delayed messages with the parameters that their handler reads, one pending message
  at most of the types that are replaced, and a table of ports that covers the recorded number.
\<close>

section \<open>Calls to the outside\<close>

lemma ioctl_eq: "ioctl P cmd arg c =
    (fst (ioctl_ans P (Ioctl cmd arg # trace c)), snd (ioctl_ans P (Ioctl cmd arg # trace c)),
     c\<lparr>trace := Ioctl cmd arg # trace c\<rparr>)"
  by (simp add: ioctl_def Let_def split: prod.split)

lemma ioctl_set_eq [simp]: "ioctl_set P cmd arg c = c\<lparr>trace := Ioctl cmd arg # trace c\<rparr>"
  by (simp add: ioctl_set_def ioctl_eq)

lemma property_get_eq: "property_get P key def tr =
    (if prop_ans P (GetProp key # tr) = '''' then def else prop_ans P (GetProp key # tr), GetProp key # tr)"
  by (simp add: property_get_def Let_def)

definition prop_truth :: "string \<Rightarrow> bool \<Rightarrow> bool" where
  "prop_truth buf def =
     (if buf \<in> {''0'', ''n'', ''no'', ''false'', ''off''} then False
      else if buf \<in> {''1'', ''y'', ''yes'', ''true'', ''on''} then True else def)"

lemma getPropertyBoolean_eq:
  "getPropertyBoolean P key def tr = (prop_truth (prop_ans P (GetProp key # tr)) def, GetProp key # tr)"
proof -
  have "(if length buf = 1 then
         (let ch = buf ! 0 in
          if ch = CHR ''0'' \<or> ch = CHR ''n'' then False
          else if ch = CHR ''1'' \<or> ch = CHR ''y'' then True else def)
       else if 1 < length buf then
         (if buf = ''no'' \<or> buf = ''false'' \<or> buf = ''off'' then False
          else if buf = ''yes'' \<or> buf = ''true'' \<or> buf = ''on'' then True else def)
       else def) = prop_truth buf def" for buf
  proof (cases buf)
    case (Cons ch rest)
    then show ?thesis by (cases rest) (auto simp: prop_truth_def)
  qed (simp add: prop_truth_def)
  then show ?thesis by (simp add: getPropertyBoolean_def property_get_eq Let_def)
qed

lemma prop_bool_eq: "prop_bool P key def c =
    (prop_truth (prop_ans P (GetProp key # trace c)) def, c\<lparr>trace := GetProp key # trace c\<rparr>)"
  by (simp add: prop_bool_def getPropertyBoolean_eq)

lemma prop_string_eq: "prop_string P key def c =
    (if prop_ans P (GetProp key # trace c) = '''' then def else prop_ans P (GetProp key # trace c),
     c\<lparr>trace := GetProp key # trace c\<rparr>)"
  by (simp add: prop_string_def property_get_eq)

lemmas outside_eqs = ioctl_eq prop_bool_eq prop_string_eq set_prop_def setProperty_def notify_def

lemma length_uninitialised [simp]: "length (uninitialised P tr) = CEC_MESSAGE_BODY_MAX_LENGTH P"
  by (simp add: uninitialised_def)

lemma local_message_simps [simp]:
  "initiator (local_message P c src dst bs) = src" "destination (local_message P c src dst bs) = dst"
  "length_field (local_message P c src dst bs) = length bs"
  "length bs \<le> CEC_MESSAGE_BODY_MAX_LENGTH P \<Longrightarrow> length (body (local_message P c src dst bs)) = CEC_MESSAGE_BODY_MAX_LENGTH P"
  "i < length bs \<Longrightarrow> body (local_message P c src dst bs) ! i = bs ! i"
  by (simp_all add: local_message_def overlay_def nth_append)

lemma take_local_message [simp]: "take (length bs) (body (local_message P c src dst bs)) = bs"
  by (simp add: local_message_def overlay_def)

section \<open>Printing and sending\<close>

lemma print_bytes_unsigned: "n + 3 * length bs < 64 \<Longrightarrow> print_bytes False n bs = Some (n + 3 * length bs)"
  by (induction bs arbitrary: n) (auto simp: hex_width_def Let_def)

lemma printCecMessage_ok: "length_field m \<le> 16 \<Longrightarrow> \<exists>k. printCecMessage m = Some k"
  by (auto simp: printCecMessage_def print_bytes_unsigned min_def)

definition message_ok :: "cec_message \<Rightarrow> bool" where
  "message_ok m \<longleftrightarrow> length_field m < 16 \<and> length (body m) = 16"

definition wire :: "cec_message \<Rightarrow> byte list" where
  "wire m = header_byte m # take (length_field m) (body m)"

lemma send_ok:
  assumes "message_ok m" and "header_ok P"
  shows "send P m c = Some (write_ans P (Write (wire m) # trace c), c\<lparr>trace := Write (wire m) # trace c\<rparr>)"
proof -
  have l: "CEC_MESSAGE_BODY_MAX_LENGTH P = 16" using assms(2) by (simp add: header_ok_def)
  have n: "length_field m < 16" "length (body m) = 16" using assms(1) by (auto simp: message_ok_def)
  obtain k where "printCecMessage m = Some k" using printCecMessage_ok n(1) by (meson less_imp_le)
  moreover have "copy_bytes 1 ((replicate 16 0)[0 := header_byte m]) (length_field m) (body m) =
      Some (overlay 1 (take (length_field m) (body m)) ((replicate 16 0)[0 := header_byte m]))"
    using n by (simp add: copy_bytes_def)
  moreover have "take (length_field m + 1) (overlay 1 (take (length_field m) (body m)) ((replicate 16 0)[0 := header_byte m])) = wire m"
    using n by (simp add: overlay_def wire_def numeral_eq_Suc)
  ultimately show ?thesis by (simp add: send_def l Let_def)
qed

lemma send_too_long:
  assumes "CEC_MESSAGE_BODY_MAX_LENGTH P \<le> length_field m" shows "send P m c = None"
  using assms by (simp add: send_def copy_bytes_def)

lemma transmit_ok:
  "message_ok m \<Longrightarrow> header_ok P \<Longrightarrow> transmit P m c = Some (c\<lparr>trace := Write (wire m) # trace c\<rparr>)"
  by (simp add: transmit_def send_ok)

lemma local_message_ok: "length bs < 16 \<Longrightarrow> header_ok P \<Longrightarrow> message_ok (local_message P c src dst bs)"
  by (simp add: message_ok_def header_ok_def)

lemma copy_bytes_ok: "off + n \<le> length dst \<Longrightarrow> n \<le> length src \<Longrightarrow>
    copy_bytes off dst n src = Some (overlay off (take n src) dst)"
  by (simp add: copy_bytes_def)

lemma ask_tv_ok:
  assumes "header_ok P"
  shows "\<exists>m. message_ok m \<and> ask_tv P opcode c = Some (c\<lparr>trace := Write (wire m) # trace c\<rparr>)"
proof -
  let ?m = "\<lparr>initiator = playback_logical_addr c AND 0xf, destination = CEC_ADDR_TV P AND 0xf, length_field = 1,
             body = overlay 0 (take 1 ((replicate 16 0)[0 := opcode])) (uninitialised P (trace c))\<rparr>"
  have l: "CEC_MESSAGE_BODY_MAX_LENGTH P = 16" using assms by (simp add: header_ok_def)
  have "message_ok ?m" using l by (simp add: message_ok_def)
  then show ?thesis using send_ok [of ?m P c] assms
    by (auto simp: ask_tv_def sendMessage4_def copy_bytes_ok l)
qed

section \<open>The invariant\<close>

definition para_count :: "int \<Rightarrow> nat" where
  "para_count ty =
     (if ty = MSG_GIVE_PHYSICAL_ADDRESS \<or> ty = MSG_ONE_TOUCH_PLAY then 1
      else if ty = MSG_REPORT_PHYSICAL_ADDRESS then 2
      else if ty = MSG_USER_CONTROL_PRESSED then 3
      else if ty = MSG_SEND_FEATURE_ABORT then 4 else 0)"

definition single_types :: "int list" where
  "single_types =
     [MSG_GET_MENU_LANGUAGE, MSG_GIVE_OSD_NAME, MSG_GIVE_DEVICE_VENDOR_ID, MSG_GIVE_PHYSICAL_ADDRESS,
      MSG_ONE_TOUCH_PLAY, MSG_MAY_SEND_SET_STREAM_PATH, MSG_SET_OSD_NAME, MSG_SEND_FEATURE_ABORT]"

definition queue_ok :: "CMessage list \<Rightarrow> bool" where
  "queue_ok ms \<longleftrightarrow> (\<forall>m \<in> set ms. para_count (mType m) \<le> length (mpPara m)) \<and>
     (\<forall>ty \<in> set single_types. pending ty ms \<le> 1) \<and> by_time ms"

definition ports_ok :: "int \<Rightarrow> hdmi_port_info list option \<Rightarrow> bool" where
  "ports_ok n ports \<longleftrightarrow> (case ports of None \<Rightarrow> True
     | Some ps \<Rightarrow> 0 \<le> n \<and> nat n \<le> length ps \<and> (\<forall>p \<in> set ps. 0 \<le> port_id p \<and> port_id p < 32))"

definition cec_inv :: "HdmiCecControl \<Rightarrow> bool" where
  "cec_inv c \<longleftrightarrow> (\<exists>ms. mMsgHandler c = Some ms \<and> queue_ok ms) \<and> length (added_phy_addr c) = 15 \<and>
     length (vendor_ids c) = 15 \<and> ports_ok (total_port c) (port_data c) \<and> (\<exists>t. get_at (device_types c) 0 = Some (Some t))"

lemma cec_inv_frame:
  "cec_inv (c\<lparr>trace := tr\<rparr>) = cec_inv c" "cec_inv (c\<lparr>phy_addr := a\<rparr>) = cec_inv c"
  "cec_inv (c\<lparr>playback_logical_addr := i\<rparr>) = cec_inv c" "cec_inv (c\<lparr>mCachedRoutingEvent := e\<rparr>) = cec_inv c"
  "cec_inv (c\<lparr>mWakeEnabled := i\<rparr>) = cec_inv c" "cec_inv (c\<lparr>is_cec_enabled := b\<rparr>) = cec_inv c"
  "cec_inv (c\<lparr>is_cec_controlled := b\<rparr>) = cec_inv c" "cec_inv (c\<lparr>hdmi_cfg_init := b\<rparr>) = cec_inv c"
  "cec_inv (c\<lparr>mEventListener := b\<rparr>) = cec_inv c" "cec_inv (c\<lparr>mVendorEventListener := b\<rparr>) = cec_inv c"
  "cec_inv (c\<lparr>active_logical_addr := i\<rparr>) = cec_inv c" "cec_inv (c\<lparr>active_routing_path := i\<rparr>) = cec_inv c"
  "cec_inv (c\<lparr>mBootOtpCount := i\<rparr>) = cec_inv c" "cec_inv (c\<lparr>mHotplugOutAwake := b\<rparr>) = cec_inv c"
  "cec_inv (c\<lparr>cec_connect_status := w\<rparr>) = cec_inv c" "cec_inv (c\<lparr>processed := b\<rparr>) = cec_inv c"
  "cec_inv (c\<lparr>arc_port := i\<rparr>) = cec_inv c" "cec_inv (c\<lparr>mIsReboot := b\<rparr>) = cec_inv c"
  by (simp_all add: cec_inv_def)

lemma cec_inv_arrays:
  "cec_inv c \<Longrightarrow> length xs = 15 \<Longrightarrow> cec_inv (c\<lparr>added_phy_addr := xs\<rparr>)"
  "cec_inv c \<Longrightarrow> length xs = 15 \<Longrightarrow> cec_inv (c\<lparr>vendor_ids := xs\<rparr>)"
  by (simp_all add: cec_inv_def)

lemma cec_inv_queue: "cec_inv c \<Longrightarrow> queue_ok ms \<Longrightarrow> cec_inv (c\<lparr>mMsgHandler := Some ms\<rparr>)"
  by (simp add: cec_inv_def)

lemma message_of_simps [simp]:
  "mType (message_of ty d ps) = ty" "mDelayMs (message_of ty d ps) = d" "mpPara (message_of ty d ps) = ps"
  by (simp_all add: message_of_def)

lemma queue_ok_send:
  assumes "queue_ok ms" and "para_count (mType msg) \<le> length (mpPara msg)"
    and "mType msg \<in> set single_types \<Longrightarrow> pending (mType msg) ms = 0"
  shows "queue_ok (sendMsg n msg ms)"
  using assms by (auto simp: queue_ok_def in_sendMsg pending_sendMsg by_time_sendMsg)

lemma queue_ok_remove:
  assumes "queue_ok ms"
  shows "queue_ok (snd (removeMsg msg ms))"
    and "mType msg \<in> set single_types \<Longrightarrow> pending (mType msg) (snd (removeMsg msg ms)) = 0"
proof -
  have le: "pending ty (skip_remove ty' ms) \<le> pending ty ms" for ty ty'
    using pending_skip_remove_le [of ty ms] pending_skip_remove_other [of ty ty' ms] by (cases "ty = ty'") auto
  show "queue_ok (snd (removeMsg msg ms))"
    unfolding queue_ok_def removeMsg_eq
  proof (intro conjI ballI)
    show "para_count (mType m) \<le> length (mpPara m)" if "m \<in> set (skip_remove (mType msg) ms)" for m
      using that assms set_skip_remove [of "mType msg" ms] by (auto simp: queue_ok_def)
    show "pending ty (skip_remove (mType msg) ms) \<le> 1" if "ty \<in> set single_types" for ty
      using that assms order_trans [OF le [of ty "mType msg"], of 1] by (simp add: queue_ok_def)
    show "by_time (skip_remove (mType msg) ms)" using assms by (simp add: queue_ok_def by_time_skip_remove)
  qed
  show "mType msg \<in> set single_types \<Longrightarrow> pending (mType msg) (snd (removeMsg msg ms)) = 0"
  proof -
    assume "mType msg \<in> set single_types"
    then have "pending (mType msg) ms \<le> 1" using assms unfolding queue_ok_def by blast
    then show ?thesis using pending_skip_remove_le [of "mType msg" ms] by (simp add: removeMsg_eq)
  qed
qed

lemma queue_send_inv:
  assumes "cec_inv c" and "para_count (mType msg) \<le> length (mpPara msg)" and "mType msg \<notin> set single_types"
  shows "\<exists>c'. queue_send P msg c = Some c' \<and> cec_inv c'"
proof -
  obtain ms where "mMsgHandler c = Some ms" "queue_ok ms" using assms(1) by (auto simp: cec_inv_def)
  then show ?thesis using queue_ok_send [of ms msg] assms
    by (auto simp: queue_send_def Let_def cec_inv_frame cec_inv_queue)
qed

lemma queue_remove_inv: "cec_inv c \<Longrightarrow> \<exists>c'. queue_remove msg c = Some c' \<and> cec_inv c'"
  using queue_ok_remove(1) by (auto simp: cec_inv_def queue_remove_def split: option.split)

lemma queue_replace_eq:
  assumes "cec_inv c" and "para_count (mType msg) \<le> length (mpPara msg)" and "mType msg \<in> set single_types"
  shows "\<exists>ms'. queue_replace P msg c = Some (c\<lparr>mMsgHandler := Some ms', trace := Clock # trace c\<rparr>) \<and> queue_ok ms'"
proof -
  obtain ms where ms: "mMsgHandler c = Some ms" "queue_ok ms" using assms(1) by (auto simp: cec_inv_def)
  let ?ms = "snd (removeMsg msg ms)"
  have "queue_ok (sendMsg (getNowMs (clock_ans P (Clock # trace c))) msg ?ms)"
    using queue_ok_remove [OF ms(2), of msg] assms(2,3) by (intro queue_ok_send) auto
  then show ?thesis using ms(1) by (auto simp: queue_replace_def queue_remove_def queue_send_def Let_def)
qed

lemma queue_replace_inv:
  assumes "cec_inv c" and "para_count (mType msg) \<le> length (mpPara msg)" and "mType msg \<in> set single_types"
  shows "\<exists>c'. queue_replace P msg c = Some c' \<and> cec_inv c' \<and> is_tv c' = is_tv c \<and> is_playback c' = is_playback c"
  using queue_replace_eq [OF assms, of P] assms(1) by (auto simp: cec_inv_frame cec_inv_queue)

section \<open>Operations that keep the invariant\<close>

text \<open>A call that is defined and ends in a good state, without and with a result.\<close>

definition safe :: "HdmiCecControl option \<Rightarrow> bool" where
  "safe x \<longleftrightarrow> (\<exists>c. x = Some c \<and> cec_inv c)"

definition safe_with :: "('a \<times> HdmiCecControl) option \<Rightarrow> bool" where
  "safe_with x \<longleftrightarrow> (\<exists>r c. x = Some (r, c) \<and> cec_inv c)"

lemma safe_simps [simp]: "safe (Some c) = cec_inv c" "\<not> safe None" "safe_with (Some (r, c)) = cec_inv c" "\<not> safe_with None"
  by (auto simp: safe_def safe_with_def)

lemma safe_bind: "safe x \<Longrightarrow> (\<And>c. cec_inv c \<Longrightarrow> safe (f c)) \<Longrightarrow> safe (x \<bind> f)"
  by (auto simp: safe_def)

lemma safe_bind_with: "safe x \<Longrightarrow> (\<And>c. cec_inv c \<Longrightarrow> safe_with (f c)) \<Longrightarrow> safe_with (x \<bind> f)"
  by (auto simp: safe_def safe_with_def)

lemma safe_with_bind: "safe_with x \<Longrightarrow> (\<And>r c. cec_inv c \<Longrightarrow> safe (f (r, c))) \<Longrightarrow> safe (x \<bind> f)"
  by (auto simp: safe_def safe_with_def)

lemma safe_with_bind_with: "safe_with x \<Longrightarrow> (\<And>r c. cec_inv c \<Longrightarrow> safe_with (f (r, c))) \<Longrightarrow> safe_with (x \<bind> f)"
  by (auto simp: safe_with_def)

lemma safe_queue_replace:
  "cec_inv c \<Longrightarrow> para_count (mType msg) \<le> length (mpPara msg) \<Longrightarrow> mType msg \<in> set single_types \<Longrightarrow>
   safe (queue_replace P msg c)"
  using queue_replace_inv by (fastforce simp: safe_def)

lemma safe_queue_send:
  "cec_inv c \<Longrightarrow> para_count (mType msg) \<le> length (mpPara msg) \<Longrightarrow> mType msg \<notin> set single_types \<Longrightarrow>
   safe (queue_send P msg c)"
  using queue_send_inv by (fastforce simp: safe_def)

lemma safe_transmit: "cec_inv c \<Longrightarrow> message_ok m \<Longrightarrow> header_ok P \<Longrightarrow> safe (transmit P m c)"
  by (simp add: transmit_ok cec_inv_frame)

lemma cec_inv_notify [simp]: "cec_inv (notify ev c) = cec_inv c"
  by (simp add: notify_def cec_inv_frame)

lemma cec_inv_set_prop [simp]: "cec_inv (set_prop k v c) = cec_inv c"
  by (simp add: set_prop_def cec_inv_frame)

lemma cec_inv_getPhysicalAddress [simp]: "cec_inv (snd (snd (getPhysicalAddress P a c))) = cec_inv c"
  by (auto simp: getPhysicalAddress_def ioctl_eq Let_def cec_inv_frame)

lemma cec_inv_report_activeness [simp]: "cec_inv (report_activeness P v c) = cec_inv c"
  by (simp add: report_activeness_def Let_def cec_inv_frame)

text \<open>A received message that announces a path must carry it.\<close>

definition routing_ok :: "'p platform_scheme \<Rightarrow> cec_message \<Rightarrow> bool" where
  "routing_ok P m \<longleftrightarrow> length (body m) = 16 \<and> length_field m \<le> 16 \<and>
     (body m ! 0 \<in> {CEC_MESSAGE_SET_STREAM_PATH P, CEC_MESSAGE_ROUTING_CHANGE P, CEC_MESSAGE_ACTIVE_SOURCE P} \<longrightarrow>
      2 \<le> length_field m)"

lemma get_at_ok: "0 \<le> i \<Longrightarrow> nat i < length xs \<Longrightarrow> get_at xs i = Some (xs ! nat i)"
  by (simp add: get_at_def)

lemma set_at_ok: "0 \<le> i \<Longrightarrow> nat i < length xs \<Longrightarrow> set_at xs i x = Some (xs[nat i := x])"
  by (simp add: set_at_def)

lemma received_state_ok: "routing_ok P m \<Longrightarrow> \<exists>v. received_state P m c = Some v"
  by (auto simp: routing_ok_def received_state_def Let_def get_at_ok nat_diff_distrib' split: if_splits)

lemma safe_updateActiveState:
  assumes "cec_inv c" and "received \<Longrightarrow> routing_ok P m"
  shows "safe (updateActiveState P m received c)"
proof -
  let ?c = "if received \<and> \<not> is_cec_enabled c then snd (snd (getPhysicalAddress P INVALID_PHYSICAL_ADDRESS c)) else c"
  have "cec_inv ?c" using assms(1) by simp
  moreover have "\<exists>v. (if received then received_state P m ?c
      else if body m ! 0 = CEC_MESSAGE_ACTIVE_SOURCE P then Some (Some ACTIVENESS_STATE_ON) else Some None) = Some v"
    using received_state_ok [of P m ?c] assms(2) by (cases received) auto
  ultimately show ?thesis using assms(1)
    unfolding updateActiveState_def Let_def by (auto simp del: if_split split: option.split)
qed

lemma cec_inv_handleCecEnabled [simp]: "cec_inv (snd (handleCecEnabled P v c)) = cec_inv c"
  by (simp add: handleCecEnabled_def set_wakeup_def cec_inv_frame)

lemma cec_inv_enable_cec [simp]: "cec_inv (enable_cec P v c) = cec_inv c"
  by (simp add: enable_cec_def Let_def case_prod_unfold cec_inv_frame)

lemma safe_updateActiveStateForFramework: "cec_inv c \<Longrightarrow> safe (updateActiveStateForFramework P c)"
  by (simp add: updateActiveStateForFramework_def safe_queue_replace para_count_def single_types_def cec_consts)

lemma safe_system_cec_control: "cec_inv c \<Longrightarrow> safe (system_cec_control P v c)"
  by (auto simp: system_cec_control_def Let_def case_prod_unfold prop_bool_eq cec_inv_frame
      intro!: safe_bind [OF safe_updateActiveStateForFramework])

lemma safe_setOption: "cec_inv c \<Longrightarrow> safe (setOption P flag v c)"
  by (simp add: setOption_def safe_system_cec_control set_wakeup_def cec_inv_frame)

lemma safe_setVendorEventObserver:
  "cec_inv c \<Longrightarrow> mCachedRoutingEvent c = NullEvent \<Longrightarrow> safe (setVendorEventObserver P b c)"
  by (simp add: setVendorEventObserver_def assure_def Let_def cec_inv_frame)

section \<open>Sending keeps the invariant\<close>

text \<open>A message to everybody must not be one that resets what is known of its receiver.\<close>

definition receiver_ok :: "'p platform_scheme \<Rightarrow> cec_message \<Rightarrow> bool" where
  "receiver_ok P m \<longleftrightarrow> 0 \<le> destination m \<and> destination m \<le> 15 \<and>
     (length_field m = 0 \<or> body m ! 0 \<in> {CEC_MESSAGE_GIVE_DEVICE_VENDOR_ID P, CEC_MESSAGE_GIVE_PHYSICAL_ADDRESS P} \<longrightarrow>
      destination m \<noteq> 15)"

lemma safe_preHandleOfSend:
  assumes "cec_inv c" and "receiver_ok P m"
  shows "safe_with (preHandleOfSend P m c)"
proof -
  have len: "length (vendor_ids c) = 15" "length (added_phy_addr c) = 15" using assms(1) by (auto simp: cec_inv_def)
  have dest: "nat (destination m) < 15" if "body m ! 0 \<in> {CEC_MESSAGE_GIVE_DEVICE_VENDOR_ID P, CEC_MESSAGE_GIVE_PHYSICAL_ADDRESS P}"
    using assms(2) that by (auto simp: receiver_ok_def)
  have "safe (queue_remove msg c)" for msg using queue_remove_inv [OF assms(1)] by (simp add: safe_def)
  then show ?thesis
    using assms len dest safe_updateActiveState [of c False P m]
    unfolding preHandleOfSend_def Let_def
    by (auto simp: set_at_ok receiver_ok_def cec_inv_arrays intro!: safe_bind_with)
qed

lemma safe_postHandleOfSend:
  assumes "cec_inv c" and "receiver_ok P m"
  shows "safe (postHandleOfSend m r c)"
proof -
  have len: "length (added_phy_addr c) = 15" using assms(1) by (auto simp: cec_inv_def)
  have "nat (destination m) < 15" if "length_field m = 0" using assms(2) that by (auto simp: receiver_ok_def)
  then show ?thesis using assms len
    by (auto simp: postHandleOfSend_def get_at_ok set_at_ok receiver_ok_def cec_inv_arrays)
qed

lemma safe_send_retry:
  assumes "header_ok P" and "message_ok m"
  shows "cec_inv c \<Longrightarrow> safe_with (send_retry P m left c)"
proof (induction left arbitrary: c)
  case 0
  then show ?case using assms by (simp add: send_retry.simps [of P m 0] send_ok cec_inv_frame)
next
  case (Suc n)
  then show ?case using assms
    by (subst send_retry.simps) (auto simp: send_ok cec_inv_frame split: nat.split)
qed

lemma safe_sendMessage:
  assumes "header_ok P" and "cec_inv c" and "message_ok m" and "receiver_ok P m"
  shows "safe_with (sendMessage P m c)"
proof -
  have "safe_with (send_retry P m SEND_MESSAGE_RETRY_HAL c \<bind> (\<lambda>(ret, c). postHandleOfSend m ret c \<bind> (\<lambda>c. Some (ret, c))))"
    if "cec_inv c" for c
    using that assms by (auto intro!: safe_with_bind_with [OF safe_send_retry] safe_bind_with [OF safe_postHandleOfSend])
  then show ?thesis using assms
    by (auto simp: sendMessage_def intro!: safe_with_bind_with [OF safe_preHandleOfSend])
qed

section \<open>Receiving keeps the invariant\<close>

text \<open>The messages that fill the tables of devices come from a device with an address.\<close>

definition sender_ok :: "'p platform_scheme \<Rightarrow> cec_message \<Rightarrow> bool" where
  "sender_ok P m \<longleftrightarrow> 0 \<le> initiator m \<and> initiator m \<le> 15 \<and>
     (body m ! 0 \<in> {CEC_MESSAGE_DEVICE_VENDOR_ID P, CEC_MESSAGE_REPORT_PHYSICAL_ADDRESS P} \<longrightarrow> initiator m \<noteq> 15)"

definition same_shape :: "cec_message \<Rightarrow> cec_message \<Rightarrow> bool" where
  "same_shape m m' \<longleftrightarrow> initiator m' = initiator m \<and> destination m' = destination m \<and>
     length_field m' = length_field m \<and> length (body m') = length (body m) \<and> body m' ! 0 = body m ! 0"

lemma same_shape_refl [simp]: "same_shape m m"
  by (simp add: same_shape_def)

lemma routing_ok_shape: "same_shape m m' \<Longrightarrow> routing_ok P m \<Longrightarrow> routing_ok P m'"
  by (simp add: same_shape_def routing_ok_def)

lemma compat_shape: "same_shape m (compatLangIfneeded v l m)"
  by (cases "body m") (simp_all add: compatLangIfneeded_def same_shape_def)

text \<open>A validation step: defined, in a good state, and leaving the shape of the message.\<close>

definition valid_step :: "cec_message \<Rightarrow> ((int \<times> cec_message) \<times> HdmiCecControl) option \<Rightarrow> bool" where
  "valid_step m x \<longleftrightarrow> (\<exists>ty m' c. x = Some ((ty, m'), c) \<and> same_shape m m' \<and> cec_inv c)"

lemma valid_step_simps [simp]: "valid_step m (Some ((ty, m'), c)) = (same_shape m m' \<and> cec_inv c)"
  by (simp add: valid_step_def)

lemma valid_step_bind: "safe x \<Longrightarrow> (\<And>c. cec_inv c \<Longrightarrow> valid_step m (f c)) \<Longrightarrow> valid_step m (x \<bind> f)"
  by (auto simp: safe_def)

lemma valid_step_validate_any:
  assumes "cec_inv c" and "sender_ok P m"
  shows "valid_step m (validate_any P (ty, m) c)"
proof -
  have "safe (queue_replace P (message_of MSG_SEND_FEATURE_ABORT 0 [a, b, o', r]) c)" for a b o' r
    using assms(1) by (intro safe_queue_replace) (simp_all add: para_count_def single_types_def cec_consts)
  then show ?thesis using assms
    by (auto simp: validate_any_def Let_def sender_ok_def set_at_ok cec_inv_def intro!: valid_step_bind)
qed

lemma valid_step_validate_tv:
  assumes "cec_inv c" and "sender_ok P m"
  shows "valid_step m (validate_tv P (ty, m) c)"
proof -
  have "safe (queue_replace P (message_of MSG_GIVE_PHYSICAL_ADDRESS d [a]) c)" for a d
    using assms(1) by (intro safe_queue_replace) (simp_all add: para_count_def single_types_def cec_consts)
  moreover have "length (added_phy_addr c) = 15" using assms(1) by (simp add: cec_inv_def)
  ultimately show ?thesis using assms
    by (auto simp: validate_tv_def Let_def sender_ok_def get_at_ok set_at_ok cec_inv_arrays intro!: valid_step_bind)
qed

lemma valid_step_validate_playback:
  assumes "header_ok P" and "cec_inv c"
  shows "valid_step m (validate_playback P (ty, m) c)"
proof -
  have r: "safe (queue_replace P (message_of MSG_SET_OSD_NAME d []) c)" for d
    using assms by (intro safe_queue_replace) (simp_all add: para_count_def single_types_def cec_consts)
  have s: "safe (queue_send P (message_of MSG_DELAY_PHYSICAL_ADDRESS d []) (c\<lparr>trace := tr\<rparr>))" for d tr
    using assms(2) by (intro safe_queue_send) (simp_all add: para_count_def single_types_def cec_consts cec_inv_frame)
  have l: "valid_step m (handleSetMenuLanguage P (ty, m) c \<bind> (\<lambda>ev. Some (ev, c)))"
    using assms compat_shape
    by (auto simp: handleSetMenuLanguage_def Let_def get_at_ok header_ok_def cec_inv_def)
  show ?thesis using assms r s l
    by (auto simp: validate_playback_def Let_def prop_bool_eq cec_inv_frame intro!: valid_step_bind)
qed

lemma valid_step_messageValidateAndHandle:
  assumes "header_ok P" and "cec_inv c" and "sender_ok P m"
  shows "valid_step m (messageValidateAndHandle P (ty, m) c)"
proof -
  obtain ty' m' c' where v: "validate_any P (ty, m) c = Some ((ty', m'), c')" "same_shape m m'" "cec_inv c'"
    using valid_step_validate_any [OF assms(2,3), of ty] by (auto simp: valid_step_def)
  have "sender_ok P m'" using v(2) assms(3) by (simp add: same_shape_def sender_ok_def)
  then have "valid_step m' (validate_tv P (ty', m') c')" "valid_step m' (validate_playback P (ty', m') c')"
    using v assms(1) by (simp_all add: valid_step_validate_tv valid_step_validate_playback)
  moreover have "valid_step m' x \<Longrightarrow> valid_step m x" for x
    using v(2) by (auto simp: valid_step_def same_shape_def)
  ultimately show ?thesis using v by (simp add: messageValidateAndHandle_def)
qed

lemma safe_handleOTPMsg: "cec_inv c \<Longrightarrow> routing_ok P m \<Longrightarrow> safe (handleOTPMsg P (ty, m) c)"
  by (simp add: handleOTPMsg_def Let_def safe_updateActiveState cec_inv_frame)

text \<open>What the driver hands over: at most the size of the buffer, and messages as above.\<close>

definition reads_ok :: "'p platform_scheme \<Rightarrow> bool" where
  "reads_ok P \<longleftrightarrow> (\<forall>tr r bs. read_ans P tr = (r, bs) \<and> 1 < r \<longrightarrow>
     r \<le> 16 \<and> (\<exists>m. parse_message P (nat r) (msg_buffer P r bs) = Some m \<and> sender_ok P m \<and> routing_ok P m))"

lemma readMessage_eq:
  assumes "header_ok P"
  shows "\<exists>r bs. readMessage P (CEC_MESSAGE_BODY_MAX_LENGTH P) c = (r, bs, c\<lparr>trace := Read 16 # trace c\<rparr>) \<and>
    (1 < r \<longrightarrow> read_ans P (Read 16 # trace c) = (r, bs))"
  using assms by (auto simp: readMessage_def header_ok_def Let_def split: prod.split)

lemma safe_readCecMessage:
  assumes "header_ok P" and "reads_ok P" and "cec_inv c"
  shows "safe (readCecMessage False P c)"
proof -
  obtain r bs where r: "readMessage P (CEC_MESSAGE_BODY_MAX_LENGTH P) c = (r, bs, c\<lparr>trace := Read 16 # trace c\<rparr>)"
    "1 < r \<Longrightarrow> read_ans P (Read 16 # trace c) = (r, bs)" using readMessage_eq [OF assms(1)] by blast
  show ?thesis
  proof (cases "1 < r")
    case False
    then show ?thesis using r(1) assms(3) by (simp add: readCecMessage_def cec_inv_frame)
  next
    case True
    let ?c = "c\<lparr>trace := Read 16 # trace c\<rparr>"
    let ?ty = "if is_cec_controlled ?c \<or> transferableInSleep (msg_buffer P r bs) then HDMI_EVENT_CEC_MESSAGE P else 0"
    obtain m where m: "r \<le> 16" "parse_message P (nat r) (msg_buffer P r bs) = Some m" "sender_ok P m" "routing_ok P m"
      using assms(2) r(2) True unfolding reads_ok_def by blast
    have "cec_inv ?c" using assms(3) by (simp add: cec_inv_frame)
    then obtain ty' m' c' where v: "messageValidateAndHandle P (?ty, m) ?c = Some ((ty', m'), c')"
        "same_shape m m'" "cec_inv c'"
      using valid_step_messageValidateAndHandle [OF assms(1) _ m(3), of ?c ?ty] by (auto simp: valid_step_def)
    obtain c'' where "handleOTPMsg P (ty', m') c' = Some c''" "cec_inv c''"
      using safe_handleOTPMsg [OF v(3) routing_ok_shape [OF v(2) m(4)], of ty'] by (auto simp: safe_def)
    moreover have "\<exists>k. printCecMsgBuf False (msg_buffer P r bs) (nat r) = Some k"
      using m(1) print_bytes_unsigned [of 0 "take (nat r) (msg_buffer P r bs)"] by (auto simp: printCecMsgBuf_def)
    ultimately show ?thesis using True r(1) m(2) v(1)
      by (auto simp: readCecMessage_def Let_def)
  qed
qed

section \<open>Connection status\<close>

lemma power_of_port_ok: "0 \<le> i \<Longrightarrow> i < 32 \<Longrightarrow> power_of_port i = Some (push_bit (nat i) 1)"
  by (simp add: power_of_port_def)

lemma cec_inv_hotplug_changed [simp]: "cec_inv (hotplug_changed P p n c) = cec_inv c"
  by (auto simp: hotplug_changed_def Let_def prop_bool_eq case_prod_unfold cec_inv_frame)

lemma safe_connect_port:
  assumes "cec_inv c" and "0 \<le> port_id p" and "port_id p < 32"
  shows "safe_with (connect_port P p st c)"
proof -
  have "\<exists>i. port_number p c = Some i \<and> 0 \<le> i \<and> i < 32"
    using assms by (auto simp: port_number_def cec_inv_def)
  then show ?thesis using assms(1)
    by (auto simp: connect_port_def ioctl_eq Let_def power_of_port_ok cec_inv_frame)
qed

lemma safe_connect_loop:
  assumes "\<forall>p \<in> set ps. 0 \<le> port_id p \<and> port_id p < 32"
  shows "cec_inv c \<Longrightarrow> safe_with (connect_loop P ps st c)"
  using assms
proof (induction ps arbitrary: st c)
  case (Cons p ps)
  then show ?case using safe_connect_port [of c p P st] by (auto simp: safe_with_def)
qed simp

lemma safe_checkConnectStatus: "cec_inv c \<Longrightarrow> safe (checkConnectStatus P c)"
proof -
  assume inv: "cec_inv c"
  have "safe_with (connect_loop P (take n ps) st c)" if "port_data c = Some ps" for n ps st
  proof (rule safe_connect_loop [OF _ inv])
    have "\<forall>p \<in> set ps. 0 \<le> port_id p \<and> port_id p < 32" using inv that by (simp add: cec_inv_def ports_ok_def)
    then show "\<forall>p \<in> set (take n ps). 0 \<le> port_id p \<and> port_id p < 32" by (meson in_set_takeD)
  qed
  note loop = this
  show ?thesis
  proof (cases "port_data c")
    case (Some ps)
    have "safe (connect_loop P (take (nat (total_port c)) ps) (cec_connect_status c) c \<bind>
        (\<lambda>(st, c). Some (c\<lparr>cec_connect_status := st\<rparr>)))"
      by (rule safe_with_bind [OF loop [OF Some]]) (simp add: cec_inv_frame)
    moreover have "nat (total_port c) \<le> length ps" using inv Some by (simp add: cec_inv_def ports_ok_def)
    ultimately show ?thesis using Some by (simp add: checkConnectStatus_def assure_def)
  qed (simp add: checkConnectStatus_def inv)
qed

lemma find_arc_ports_frame:
  "mMsgHandler (find_arc_ports ps c) = mMsgHandler c" "added_phy_addr (find_arc_ports ps c) = added_phy_addr c"
  "vendor_ids (find_arc_ports ps c) = vendor_ids c" "device_types (find_arc_ports ps c) = device_types c"
  "port_data (find_arc_ports ps c) = port_data c"
  by (induction ps arbitrary: c) (auto simp: set_prop_def)

text \<open>What the driver says of its ports: as many entries as it counts, with numbers that fit the status word.\<close>

definition ports_known :: "'p platform_scheme \<Rightarrow> bool" where
  "ports_known P \<longleftrightarrow>
     (\<forall>tr n. let num = Ioctl CEC_IOC_GET_PORT_NUM n # tr; ps = ports_ans P (Ioctl CEC_IOC_GET_PORT_INFO 0 # num);
               k = snd (ioctl_ans P num)
            in 0 \<le> k \<and> k < 2 ^ 31 \<and> nat (min k MAX_PORT) \<le> length ps \<and> (\<forall>p \<in> set ps. 0 \<le> port_id p \<and> port_id p < 32))"

lemma safe_getPortInfos:
  assumes "ports_known P" and "cec_inv c"
  shows "\<exists>ports n c'. getPortInfos P k c = Some (ports, n, c') \<and> cec_inv c'"
proof (cases "assertHdmiCecDevice c")
  case True
  then show ?thesis using assms(2) by (simp add: getPortInfos_def)
next
  case False
  let ?tr = "Ioctl CEC_IOC_GET_PORT_NUM k # trace c"
  let ?n = "min (snd (ioctl_ans P ?tr)) MAX_PORT"
  let ?ps = "take (nat ?n) (ports_ans P (Ioctl CEC_IOC_GET_PORT_INFO 0 # ?tr))"
  let ?c = "c\<lparr>trace := Ioctl CEC_IOC_GET_PORT_INFO 0 # ?tr, port_data := Some ?ps\<rparr>"
  have p: "0 \<le> ?n" "nat ?n \<le> length (ports_ans P (Ioctl CEC_IOC_GET_PORT_INFO 0 # ?tr))"
      "\<forall>p \<in> set (ports_ans P (Ioctl CEC_IOC_GET_PORT_INFO 0 # ?tr)). 0 \<le> port_id p \<and> port_id p < 32"
    using assms(1) by (auto simp: ports_known_def Let_def MAX_PORT_def)
  have n: "(if MAX_PORT < snd (ioctl_ans P ?tr) then MAX_PORT else snd (ioctl_ans P ?tr)) = ?n" by (simp add: min_def)
  have "getPortInfos P k c = Some (Some ?ps, ?n, (find_arc_ports ?ps ?c)\<lparr>total_port := ?n\<rparr>)"
    using False p(1,2) by (simp add: getPortInfos_def Let_def ioctl_eq n assure_def)
  moreover have "cec_inv ((find_arc_ports ?ps ?c)\<lparr>total_port := ?n\<rparr>)"
  proof -
    have "ports_ok ?n (Some ?ps)" using p by (auto simp: ports_ok_def min_def dest: in_set_takeD)
    then show ?thesis using assms(2) by (simp add: cec_inv_def find_arc_ports_frame)
  qed
  ultimately show ?thesis by blast
qed

section \<open>The handler keeps the invariant\<close>

lemma safe_sendOneTouchPlay:
  assumes "header_ok P" and "cec_inv c"
  shows "safe (sendOneTouchPlay P a c)"
proof -
  have r: "safe (queue_replace P (message_of MSG_ONE_TOUCH_PLAY d [x]) c)" if "cec_inv c" for c d x
    using that by (intro safe_queue_replace) (simp_all add: para_count_def single_types_def cec_consts)
  show ?thesis unfolding sendOneTouchPlay_def Let_def using assms
    by (auto simp: cec_inv_frame local_message_ok
        intro!: safe_bind [OF safe_transmit] safe_bind [OF safe_updateActiveState] safe_bind [OF r])
qed

lemma cec_inv_maySendSetStreamPath [simp]: "cec_inv (maySendSetStreamPath P c) = cec_inv c"
  by (simp add: maySendSetStreamPath_def Let_def prop_bool_eq case_prod_unfold cec_inv_frame)

lemma cec_inv_processCecWakeup [simp]: "cec_inv (processCecWakeup P c) = cec_inv c"
  by (simp add: processCecWakeup_def Let_def cec_inv_frame)

lemma para_ok: "para_count (mType msg) \<le> length (mpPara msg) \<Longrightarrow> i < para_count (mType msg) \<Longrightarrow>
    para msg (int i) = Some (mpPara msg ! i)"
  by (simp add: para_def get_at_def)

lemma safe_handleMessage:
  assumes "header_ok P" and "cec_inv c" and "para_count (mType msg) \<le> length (mpPara msg)"
  shows "safe (handleMessage P msg c)"
proof -
  have p: "\<exists>b. para msg i = Some b" if "0 \<le> i" "nat i < para_count (mType msg)" for i
    using para_ok [OF assms(3) that(2)] that(1) by simp
  have t: "safe (transmit P (local_message P c src dst bs) c)" if "length bs < 16" for src dst bs
    using assms that by (simp add: safe_transmit local_message_ok)
  have a: "safe (ask_tv P x c)" for x
    using ask_tv_ok [OF assms(1), of x c] assms(2) by (auto simp: cec_inv_frame)
  have o: "safe (transmit P (osd_name_message P c) c)"
    using assms t unfolding osd_name_message_def by (simp add: header_ok_def)
  show ?thesis
    using p [of 0] p [of 1] p [of 2] p [of 3] assms
    unfolding handleMessage_def para_count_def
    by (auto simp: t a o Let_def cec_consts safe_sendOneTouchPlay split: if_splits)
qed

lemma safe_deliver:
  assumes "header_ok P" and "cec_inv c"
  shows "safe (deliver P c)"
proof -
  obtain ms where ms: "mMsgHandler c = Some ms" "queue_ok ms" using assms(2) by (auto simp: cec_inv_def)
  show ?thesis
  proof (cases ms)
    case (Cons m rest)
    have "pending ty rest \<le> 1" if "ty \<in> set single_types" for ty
    proof -
      have "pending ty ms \<le> 1" using ms(2) that by (simp add: queue_ok_def)
      then show ?thesis using Cons by (simp split: if_splits)
    qed
    then have "queue_ok rest" using ms(2) Cons by (simp add: queue_ok_def by_time_def)
    then show ?thesis using ms Cons assms
      by (simp add: deliver_def safe_handleMessage cec_inv_queue queue_ok_def)
  qed (simp add: deliver_def ms assms)
qed

end
