(* ===== verification/Cec_Start.thy ===== *)
theory Cec_Start
  imports Cec_Lemmas
begin

text \<open>
  The constructor of the HDMI-CEC library establishes the invariant, and with that every sequence
  of calls, kernel events and delayed messages keeps it.
\<close>

section \<open>The constructor establishes the invariant\<close>

lemma parse_types_ok:
  "(\<forall>t \<in> set ts. snd (strtol t) = '''') \<Longrightarrow> 0 \<le> i \<Longrightarrow> nat i + length ts \<le> length (device_types c) \<Longrightarrow>
   (\<forall>k < nat i. device_types c ! k \<noteq> None) \<Longrightarrow>
   \<exists>dt. parse_types ts i c = Some (True, i + int (length ts), c\<lparr>device_types := dt\<rparr>) \<and>
        length dt = length (device_types c) \<and> (\<forall>k < nat i + length ts. dt ! k \<noteq> None)"
proof (induction ts arbitrary: i c)
  case (Cons t ts)
  let ?dt = "(device_types c)[nat i := Some (int_of_long (fst (strtol t)))]"
  have n: "nat (i + 1) = Suc (nat i)" using Cons.prems(2) by simp
  have "\<forall>k < Suc (nat i). ?dt ! k \<noteq> None" using Cons.prems(3,4) by (auto simp: nth_list_update less_Suc_eq)
  then obtain dt where "parse_types ts (i + 1) (c\<lparr>device_types := ?dt\<rparr>) =
      Some (True, i + 1 + int (length ts), c\<lparr>device_types := dt\<rparr>)"
      "length dt = length (device_types c)" "\<forall>k < Suc (nat i) + length ts. dt ! k \<noteq> None"
    using Cons.IH [of "i + 1" "c\<lparr>device_types := ?dt\<rparr>"] Cons.prems n by auto
  then show ?case using Cons.prems by (auto simp: Let_def set_at_ok case_prod_unfold add.assoc)
next
  case Nil
  then show ?case by (intro exI [of _ "device_types c"]) simp
qed

lemma note_types_ok:
  "\<forall>t \<in> set ts. t \<noteq> None \<Longrightarrow>
   \<exists>a b d. note_types ts c = Some (c\<lparr>is_tv := a, is_playback := b, is_audio_system := d\<rparr>)"
proof (induction ts arbitrary: c)
  case Nil
  show ?case by (rule exI [of _ "is_tv c"], rule exI [of _ "is_playback c"], rule exI [of _ "is_audio_system c"]) simp
next
  case (Cons t ts)
  then obtain v where t: "t = Some v" by auto
  have n: "\<exists>a b d. note_type v c = c\<lparr>is_tv := a, is_playback := b, is_audio_system := d\<rparr>"
    unfolding note_type_def
    by (rule exI [of _ "is_tv c \<or> v = DEV_TYPE_TV"], rule exI [of _ "is_playback c \<or> v = DEV_TYPE_PLAYBACK"],
        rule exI [of _ "is_audio_system c \<or> v = DEV_TYPE_AUDIO_SYSTEM"]) (simp add: cec_consts)
  then obtain a b d where n: "note_type v c = c\<lparr>is_tv := a, is_playback := b, is_audio_system := d\<rparr>" by blast
  obtain a' b' d' where "note_types ts (note_type v c) =
      Some ((note_type v c)\<lparr>is_tv := a', is_playback := b', is_audio_system := d'\<rparr>)"
    using Cons.IH [of "note_type v c"] Cons.prems by auto
  then have "note_types (t # ts) c = Some (c\<lparr>is_tv := a', is_playback := b', is_audio_system := d'\<rparr>)"
    by (simp add: t n)
  then show ?case by blast
qed

lemma set_types_ok: "\<forall>t \<in> set ts. t \<noteq> None \<Longrightarrow> \<exists>tr. set_types P ts c = Some (c\<lparr>trace := tr\<rparr>)"
proof (induction ts arbitrary: c)
  case Nil
  show ?case by (rule exI [of _ "trace c"]) simp
next
  case (Cons t ts)
  then obtain v where t: "t = Some v" by auto
  obtain tr where "set_types P ts (ioctl_set P CEC_IOC_SET_DEV_TYPE v c) = Some (c\<lparr>trace := tr\<rparr>)"
    using Cons.IH [of "ioctl_set P CEC_IOC_SET_DEV_TYPE v c"] Cons.prems by auto
  then show ?case using t by auto
qed

text \<open>The state apart from the trace and the connection status.\<close>

definition core :: "HdmiCecControl \<Rightarrow> HdmiCecControl" where
  "core c = c\<lparr>trace := [], cec_connect_status := 0\<rparr>"

lemma core_simps [simp]: "core (c\<lparr>trace := tr\<rparr>) = core c" "core (c\<lparr>cec_connect_status := st\<rparr>) = core c"
  "core (set_prop k v c) = core c"
  by (simp_all add: core_def set_prop_def)

lemma core_fields:
  assumes "core c' = core c"
  shows "mMsgHandler c' = mMsgHandler c" "added_phy_addr c' = added_phy_addr c" "vendor_ids c' = vendor_ids c"
    "device_types c' = device_types c" "port_data c' = port_data c" "total_port c' = total_port c"
    "driver_fd c' = driver_fd c" "mCecEvent c' = mCecEvent c" "is_cec_enabled c' = is_cec_enabled c"
  using arg_cong [OF assms, of mMsgHandler] arg_cong [OF assms, of added_phy_addr] arg_cong [OF assms, of vendor_ids]
    arg_cong [OF assms, of device_types] arg_cong [OF assms, of port_data] arg_cong [OF assms, of total_port]
    arg_cong [OF assms, of driver_fd] arg_cong [OF assms, of mCecEvent] arg_cong [OF assms, of is_cec_enabled]
  by (simp_all add: core_def)

lemma boot_connect_loop_ok:
  "\<forall>p \<in> set ps. 0 \<le> port_id p \<and> port_id p < 32 \<Longrightarrow> \<exists>c'. boot_connect_loop P ps c = Some c' \<and> core c' = core c"
proof (induction ps arbitrary: c)
  case (Cons p ps)
  have IH: "\<exists>c''. boot_connect_loop P ps c' = Some c'' \<and> core c'' = core c" if "core c' = core c" for c'
    using Cons.IH [of c'] Cons.prems that by simp
  show ?case using Cons.prems by (auto simp: Let_def ioctl_eq power_of_port_ok intro!: IH)
qed simp

lemma getBootConnectStatus_ok:
  assumes "ports_known P"
  shows "\<exists>c'. getBootConnectStatus P c = Some c' \<and> core c' = core c"
proof -
  let ?num = "Ioctl CEC_IOC_GET_PORT_NUM 0 # trace c"
  let ?ps = "ports_ans P (Ioctl CEC_IOC_GET_PORT_INFO 0 # ?num)"
  let ?k = "min (unat (word_of_int (snd (ioctl_ans P ?num)) :: u32)) (nat MAX_PORT)"
  have p: "0 \<le> snd (ioctl_ans P ?num)" "snd (ioctl_ans P ?num) < 2 ^ 31"
      "nat (min (snd (ioctl_ans P ?num)) MAX_PORT) \<le> length ?ps" "\<forall>p \<in> set ?ps. 0 \<le> port_id p \<and> port_id p < 32"
    using assms by (auto simp: ports_known_def Let_def)
  have "unat (word_of_int (snd (ioctl_ans P ?num)) :: u32) = nat (snd (ioctl_ans P ?num))"
    using p(1,2) by (simp add: unat_eq_nat_uint uint_word_of_int)
  then have "?k \<le> length ?ps" using p(3) by (simp add: min_def MAX_PORT_def split: if_splits)
  moreover have "\<forall>p \<in> set (take ?k ?ps). 0 \<le> port_id p \<and> port_id p < 32" using p(4) by (meson in_set_takeD)
  ultimately show ?thesis
    using boot_connect_loop_ok [of "take ?k ?ps" P "c\<lparr>trace := Ioctl CEC_IOC_GET_PORT_INFO 0 # ?num, cec_connect_status := 0\<rparr>"]
    by (cases "fst (ioctl_ans P ?num) < 0")
      (auto simp: getBootConnectStatus_def Let_def ioctl_eq assure_def)
qed

text \<open>The property with the device types: one to seven numbers.\<close>

definition types_ok :: "'p platform_scheme \<Rightarrow> bool" where
  "types_ok P \<longleftrightarrow>
     (\<forall>tr. let v = prop_ans P (GetProp PROPERTY_DEVICE_TYPE # tr); ts = tokens (CHR '','') (if v = '''' then ''4'' else v)
          in ts \<noteq> [] \<and> length ts \<le> 7 \<and> (\<forall>t \<in> set ts. snd (strtol t) = ''''))"

definition types_read :: "HdmiCecControl \<Rightarrow> bool" where
  "types_read c \<longleftrightarrow> length (device_types c) = 7 \<and> 0 < total_device c \<and> total_device c \<le> 7 \<and>
     (\<forall>k < nat (total_device c). device_types c ! k \<noteq> None)"

lemma getDeviceTypes_ok:
  assumes "types_ok P"
  shows "\<exists>c'. getDeviceTypes P c = Some c' \<and> types_read c' \<and> port_data c' = port_data c \<and> total_port c' = total_port c"
proof -
  let ?v = "prop_ans P (GetProp PROPERTY_DEVICE_TYPE # trace c)"
  define val where "val = (if ?v = '''' then ''4'' else ?v)"
  define ts where "ts = tokens (CHR '','') val"
  have ps: "prop_string P PROPERTY_DEVICE_TYPE ''4'' (c\<lparr>device_types := dt\<rparr>) =
      (val, c\<lparr>device_types := dt, trace := GetProp PROPERTY_DEVICE_TYPE # trace c\<rparr>)" for dt
    by (simp add: prop_string_eq val_def)
  let ?c = "c\<lparr>device_types := replicate 7 None, trace := GetProp PROPERTY_DEVICE_TYPE # trace c\<rparr>"
  have ts: "ts \<noteq> []" "length ts \<le> 7" "\<forall>t \<in> set ts. snd (strtol t) = ''''"
    using assms by (auto simp: types_ok_def ts_def val_def Let_def)
  obtain dt where dt: "parse_types ts 0 ?c = Some (True, int (length ts), ?c\<lparr>device_types := dt\<rparr>)" "length dt = 7"
      "\<forall>k < length ts. dt ! k \<noteq> None"
    using parse_types_ok [OF ts(3), of 0 ?c] ts(2) by auto
  have "\<forall>t \<in> set (take (length ts) dt). t \<noteq> None"
    using dt(2,3) ts(2) by (metis in_set_conv_nth length_take min.absorb2 nth_take)
  then obtain x y z where "note_types (take (length ts) dt) (?c\<lparr>device_types := dt, total_device := int (length ts)\<rparr>) =
      Some (?c\<lparr>device_types := dt, total_device := int (length ts), is_tv := x, is_playback := y, is_audio_system := z\<rparr>)"
    using note_types_ok by blast
  then have "getDeviceTypes P c =
      Some (?c\<lparr>device_types := dt, total_device := int (length ts), is_tv := x, is_playback := y, is_audio_system := z\<rparr>)"
    using dt(1) ts(1) by (simp add: getDeviceTypes_def ps Let_def ts_def [symmetric] DEV_TYPE_VIDEO_PROCESSOR_def)
  then show ?thesis using dt ts by (simp add: types_read_def Suc_le_eq)
qed

lemma cec_inv_addLogicalAddress [simp]: "cec_inv (snd (addLogicalAddress P a c)) = cec_inv c"
  by (simp add: addLogicalAddress_def Let_def ioctl_eq cec_inv_frame)

lemma cec_inv_in_place [simp]: "cec_inv (getPhysicalAddress_in_place P c) = cec_inv c"
  by (simp add: getPhysicalAddress_in_place_def ioctl_eq cec_inv_frame)

lemma safe_bootOneTouchPlay:
  assumes "cec_inv c"
  shows "safe (bootOneTouchPlay P c)"
proof -
  have r: "safe (queue_replace P (message_of MSG_ONE_TOUCH_PLAY d [x]) c)" if "cec_inv c" for c d x
    using that by (intro safe_queue_replace) (simp_all add: para_count_def single_types_def cec_consts)
  have s: "safe (queue_send P (message_of MSG_REPORT_PHYSICAL_ADDRESS d [x, y]) c)" if "cec_inv c" for c d x y
    using that by (intro safe_queue_send) (simp_all add: para_count_def single_types_def cec_consts)
  show ?thesis using assms unfolding bootOneTouchPlay_def Let_def prop_bool_eq prop_string_eq case_prod_unfold
    by (simp add: cec_inv_frame safe_bind [OF s r])
qed

lemma set_types_core: "\<forall>t \<in> set ts. t \<noteq> None \<Longrightarrow> \<exists>c'. set_types P ts c = Some c' \<and> core c' = core c"
  using set_types_ok [of ts P c] by auto

lemma safe_start_driver:
  assumes "ports_known P" and "types_read c" and "port_data c = None"
    and "length (added_phy_addr c) = 15" and "length (vendor_ids c) = 15"
  shows "safe (start_driver P c)"
proof -
  let ?ts = "take (nat (total_device c)) (device_types c)"
  define c1 where "c1 = (let (debug, c) = prop_bool P PROPERTY_CEC_DEBUG False c
    in if debug then ioctl_set P CEC_IOC_SET_DEBUG_EN 2 c else c)"
  have c1: "core c1 = core c" by (simp add: c1_def prop_bool_eq Let_def)
  have "\<forall>t \<in> set ?ts. t \<noteq> None"
    using assms(2) by (auto simp: types_read_def in_set_conv_nth)
  then obtain c2 where c2: "set_types P ?ts c1 = Some c2" "core c2 = core c1" using set_types_core by blast
  obtain c3 where c3: "getBootConnectStatus P c2 = Some c3" "core c3 = core c2"
    using getBootConnectStatus_ok [OF assms(1)] by blast
  have fields: "core c3 = core c" using c1 c2(2) c3(2) by simp
  have "get_at (device_types c) 0 = Some (device_types c ! 0)" "\<exists>t. device_types c ! 0 = Some t"
    using assms(2) by (auto simp: types_read_def get_at_def)
  then have inv: "cec_inv (c3\<lparr>mMsgHandler := Some []\<rparr>)"
    using core_fields [OF fields] assms(3-5)
    by (simp add: cec_inv_def queue_ok_def by_time_def single_types_def ports_ok_def)
  have "start_driver P c =
      (if is_cec_enabled c3 \<and> mCecEvent c3 AND HDMI_EVENT_CEC_MESSAGE P \<noteq> 0
       then bootOneTouchPlay P (ioctl_set P CEC_IOC_SET_OPTION_ENABLE_CEC 1 (c3\<lparr>mMsgHandler := Some []\<rparr>))
       else Some (c3\<lparr>mMsgHandler := Some []\<rparr>))"
    using c2(1) c3(1) core_fields(4) [OF c1] arg_cong [OF c1, of total_device]
    unfolding start_driver_def c1_def by (simp add: Let_def prop_bool_eq core_def)
  then show ?thesis using inv by (simp add: cec_inv_frame safe_bootOneTouchPlay)
qed

lemma new_HdmiCecControl_ok:
  assumes "header_ok P" and "types_ok P" and "ports_known P"
  shows "\<exists>c. new_HdmiCecControl P event garbage = Some c \<and> (driver_fd c < 0 \<or> cec_inv c)"
proof -
  obtain c where c: "getDeviceTypes P ((initial_control P garbage)\<lparr>mCecEvent := event\<rparr>) = Some c"
      "types_read c" "port_data c = None"
    using getDeviceTypes_ok [OF assms(2), of "(initial_control P garbage)\<lparr>mCecEvent := event\<rparr>"]
    by (auto simp: initial_control_def Let_def prop_bool_eq)
  have start: "\<exists>ca. start_driver P c' = Some ca \<and> (driver_fd ca < 0 \<or> cec_inv ca)"
    if "device_types c' = device_types c" "total_device c' = total_device c"
      "port_data c' = port_data c" "length (added_phy_addr c') = 15" "length (vendor_ids c') = 15" for c'
  proof -
    have "safe (start_driver P c')"
      using that c(2,3) assms(3) by (intro safe_start_driver) (auto simp: types_read_def)
    then show ?thesis by (auto simp: safe_def)
  qed
  show ?thesis using c(1) assms(1)
    by (auto simp: new_HdmiCecControl_def prop_string_eq Let_def header_ok_def intro!: start)
qed

end
