(* ===== verification/Cec_Properties.thy ===== *)
theory Cec_Properties
  imports Cec_Start
begin

text \<open>
  Properties of the HDMI-CEC library and its front ends: which sequences of calls are defined and
  what they keep, the form of messages on the bus, retries, the table of devices, the connection
  status, one touch play at boot, and the calls that go wrong.
\<close>

section \<open>Sequences of calls\<close>

datatype cec_call =
    CallSend cec_message | CallOption int int | CallObserver bool | CallVendorObserver bool | CallPhysical u16
  | CallAddAddress int | CallClearAddress | CallArc int bool | CallConnected int | CallVersion int | CallVendor u32
  | CallPorts int | KernelEvent int | HandleNext

fun cec_do :: "'p platform_scheme \<Rightarrow> cec_call \<Rightarrow> HdmiCecControl \<Rightarrow> HdmiCecControl option" where
  "cec_do P (CallSend m) c = map_option snd (sendMessage P m c)"
| "cec_do P (CallOption flag v) c = setOption P flag v c"
| "cec_do P (CallObserver b) c = Some (setEventObserver b c)"
| "cec_do P (CallVendorObserver b) c = setVendorEventObserver P b c"
| "cec_do P (CallPhysical a) c = Some (snd (snd (getPhysicalAddress P a c)))"
| "cec_do P (CallAddAddress a) c = Some (snd (addLogicalAddress P a c))"
| "cec_do P CallClearAddress c = Some (clearLogicaladdress P c)"
| "cec_do P (CallArc port b) c = Some (setAudioReturnChannel P port b c)"
| "cec_do P (CallConnected port) c = Some (snd (isConnected P port c))"
| "cec_do P (CallVersion v) c = Some (snd (snd (getVersion P v c)))"
| "cec_do P (CallVendor v) c = Some (snd (snd (getVendorId P v c)))"
| "cec_do P (CallPorts n) c = map_option (snd \<circ> snd) (getPortInfos P n c)"
| "cec_do P (KernelEvent ty) c = onCecEvent False P ty c"
| "cec_do P HandleNext c = deliver P c"

fun call_ok :: "'p platform_scheme \<Rightarrow> cec_call \<Rightarrow> HdmiCecControl \<Rightarrow> bool" where
  "call_ok P (CallSend m) c = (message_ok m \<and> receiver_ok P m)"
| "call_ok P (CallVendorObserver b) c = (mCachedRoutingEvent c = NullEvent)"
| "call_ok P call c = True"

inductive cec_reach :: "'p platform_scheme \<Rightarrow> HdmiCecControl \<Rightarrow> bool" for P where
  start: "new_HdmiCecControl P event garbage = Some c \<Longrightarrow> 0 \<le> driver_fd c \<Longrightarrow> cec_reach P c"
| call: "cec_reach P c \<Longrightarrow> call_ok P call c \<Longrightarrow> cec_do P call c = Some c' \<Longrightarrow> cec_reach P c'"

definition platform_ok :: "'p platform_scheme \<Rightarrow> bool" where
  "platform_ok P \<longleftrightarrow> header_ok P \<and> types_ok P \<and> ports_known P \<and> reads_ok P"

lemma safe_cec_do:
  assumes "platform_ok P" and "cec_inv c" and "call_ok P call c"
  shows "safe (cec_do P call c)"
proof -
  have P: "header_ok P" "ports_known P" "reads_ok P" using assms(1) by (auto simp: platform_ok_def)
  show ?thesis
  proof (cases call)
    case (CallSend m)
    then show ?thesis using safe_sendMessage [OF P(1) assms(2), of m] assms(3) by (auto simp: safe_with_def)
  next
    case (CallPorts n)
    then show ?thesis using safe_getPortInfos [OF P(2) assms(2), of n] by auto
  qed (use P assms in \<open>auto simp: safe_setOption setEventObserver_def cec_inv_frame safe_setVendorEventObserver
      clearLogicaladdress_def setAudioReturnChannel_def isConnected_def getVersion_def getVendorId_def Let_def
      ioctl_eq prop_string_eq onCecEvent_def safe_checkConnectStatus safe_readCecMessage safe_deliver case_prod_unfold\<close>)
qed

lemma cec_reach_inv: "cec_reach P c \<Longrightarrow> platform_ok P \<Longrightarrow> cec_inv c"
proof (induction rule: cec_reach.induct)
  case (start event garbage c)
  then show ?case using new_HdmiCecControl_ok [of P event garbage] by (auto simp: platform_ok_def)
next
  case (call c call c')
  then show ?case using safe_cec_do [of P c call] by (auto simp: safe_def)
qed


text \<open>A platform with the documented constants, one port, and a device that sends \<open>Standby\<close>.\<close>

definition ex_header :: hdmi_cec_h where
  "ex_header =
     \<lparr>CEC_MESSAGE_BODY_MAX_LENGTH = 16, CEC_ADDR_TV = 0, CEC_ADDR_RECORDER_1 = 1, CEC_ADDR_RECORDER_2 = 2,
      CEC_ADDR_TUNER_1 = 3, CEC_ADDR_PLAYBACK_1 = 4, CEC_ADDR_TUNER_2 = 6, CEC_ADDR_TUNER_3 = 7,
      CEC_ADDR_PLAYBACK_2 = 8, CEC_ADDR_RECORDER_3 = 9, CEC_ADDR_TUNER_4 = 10, CEC_ADDR_PLAYBACK_3 = 11,
      CEC_ADDR_RESERVED_1 = 12, CEC_ADDR_FREE_USE = 14, CEC_ADDR_BROADCAST = 15, CEC_DEVICE_PLAYBACK = 4,
      CEC_MESSAGE_FEATURE_ABORT = 0, CEC_MESSAGE_IMAGE_VIEW_ON = 4, CEC_MESSAGE_TEXT_VIEW_ON = 0x0D,
      CEC_MESSAGE_SET_MENU_LANGUAGE = 0x32, CEC_MESSAGE_STANDBY = 0x36, CEC_MESSAGE_USER_CONTROL_PRESSED = 0x44,
      CEC_MESSAGE_USER_CONTROL_RELEASED = 0x45, CEC_MESSAGE_GIVE_OSD_NAME = 0x46, CEC_MESSAGE_SET_OSD_NAME = 0x47,
      CEC_MESSAGE_ROUTING_CHANGE = 0x80, CEC_MESSAGE_ROUTING_INFORMATION = 0x81, CEC_MESSAGE_ACTIVE_SOURCE = 0x82,
      CEC_MESSAGE_GIVE_PHYSICAL_ADDRESS = 0x83, CEC_MESSAGE_REPORT_PHYSICAL_ADDRESS = 0x84,
      CEC_MESSAGE_SET_STREAM_PATH = 0x86, CEC_MESSAGE_DEVICE_VENDOR_ID = 0x87, CEC_MESSAGE_VENDOR_COMMAND = 0x89,
      CEC_MESSAGE_GIVE_DEVICE_VENDOR_ID = 0x8C, CEC_MESSAGE_REPORT_POWER_STATUS = 0x90,
      CEC_MESSAGE_GET_MENU_LANGUAGE = 0x91, HDMI_EVENT_CEC_MESSAGE = 1, HDMI_EVENT_HOT_PLUG = 2,
      HDMI_OPTION_WAKEUP = 1, HDMI_OPTION_ENABLE_CEC = 2, HDMI_OPTION_SYSTEM_CEC_CONTROL = 3,
      HDMI_OPTION_SET_LANG = 5, HDMI_RESULT_SUCCESS = 0, HDMI_RESULT_NACK = 1, HDMI_RESULT_BUSY = 2,
      HDMI_RESULT_FAIL = 3, EINVAL = 22\<rparr>"

definition ex_port :: hdmi_port_info where
  "ex_port = \<lparr>port_type = 1, port_id = 1, cec_supported = 1, arc_supported = 0, physical_address = 0x1000\<rparr>"

definition ex_platform :: "byte list \<Rightarrow> platform" where
  "ex_platform received =
     hdmi_cec_h.extend ex_header
       \<lparr>open_ans = (\<lambda>_. 3), read_ans = (\<lambda>_. (int (length received), received)), write_ans = (\<lambda>_. 0),
        ioctl_ans = (\<lambda>_. (0, 1)), ports_ans = (\<lambda>_. [ex_port]), prop_ans = (\<lambda>_. ''''), clock_ans = (\<lambda>_. 0),
        memory_ans = (\<lambda>_. [])\<rparr>"

lemmas ex_platform_defs = ex_platform_def ex_header_def hdmi_cec_h.defs

lemma ex_header_ok: "header_ok (ex_platform r)"
  by (simp add: header_ok_def opcodes_def ex_platform_defs)

lemma tokens_4: "tokens (CHR '','') ''4'' = [''4'']"
  by (simp add: tokens.simps Let_def)

lemma strtol_4: "strtol ''4'' = (4, '''')"
  by (simp add: strtol_def is_space_def digit_def)

definition ex_standby :: platform where
  "ex_standby = ex_platform [0x0F, 0x36]"

lemma ex_types_ok: "types_ok (ex_platform r)"
  by (simp add: types_ok_def ex_platform_defs tokens_4 strtol_4)

lemma ex_ports_known: "ports_known (ex_platform r)"
  by (simp add: ports_known_def ex_platform_defs ex_port_def MAX_PORT_def)

lemma ex_parse_standby:
  "parse_message ex_standby 2 (msg_buffer ex_standby 2 [0x0F, 0x36]) =
     Some \<lparr>initiator = 0, destination = 15, length_field = 1, body = 0x36 # replicate 15 0\<rparr>"
  by code_simp

lemma ex_standby_ok: "platform_ok ex_standby"
proof -
  have "reads_ok ex_standby"
    using ex_parse_standby
    by (simp add: reads_ok_def sender_ok_def routing_ok_def ex_standby_def) (simp add: ex_platform_defs)
  then show ?thesis by (simp add: platform_ok_def ex_header_ok ex_types_ok ex_ports_known ex_standby_def)
qed

definition ex_memory :: HdmiCecControl where
  "ex_memory =
     \<lparr>driver_fd = 0, device_types = [], total_device = 0, total_port = 0, port_data = None, phy_addr = 0, arc_port = 0,
      is_tv = False, is_playback = False, is_audio_system = False, is_cec_enabled = False, is_cec_controlled = False,
      hdmi_cfg_init = False, cec_connect_status = 0, running = False, exited = False, playback_logical_addr = 0,
      active_logical_addr = 0, active_routing_path = 0, added_phy_addr = [], vendor_ids = [], device_name = [],
      processed = False, wake_device_logical_addr = 0, wake_device_phy_addr = 0, mEventListener = False,
      mVendorEventListener = False, mMsgHandler = None, mCecEvent = 0, mBootOtpCount = 0, mWakeEnabled = 0,
      mCachedRoutingEvent = NullEvent, mIsReboot = False, mHotplugOutAwake = False, trace = []\<rparr>"

definition ex_started :: HdmiCecControl where
  "ex_started = the (new_HdmiCecControl ex_standby 1 ex_memory)"

lemma ex_started_eq:
  "new_HdmiCecControl ex_standby 1 ex_memory = Some ex_started" "driver_fd ex_started = 3" "is_playback ex_started"
  "mCachedRoutingEvent ex_started = NullEvent" "mMsgHandler ex_started = Some []"
proof -
  have "case new_HdmiCecControl ex_standby 1 ex_memory of None \<Rightarrow> False
      | Some c \<Rightarrow> driver_fd c = 3 \<and> is_playback c \<and> mCachedRoutingEvent c = NullEvent \<and> mMsgHandler c = Some []"
    by code_simp
  then show "new_HdmiCecControl ex_standby 1 ex_memory = Some ex_started" "driver_fd ex_started = 3" "is_playback ex_started"
  "mCachedRoutingEvent ex_started = NullEvent" "mMsgHandler ex_started = Some []"
    by (auto simp: ex_started_def split: option.splits)
qed

lemma ex_started_reach: "cec_reach ex_standby ex_started"
  by (rule cec_reach.start [OF ex_started_eq(1)]) (simp add: ex_started_eq)


section \<open>Messages on the bus\<close>

lemma header_byte_decodes:
  assumes "0 \<le> initiator m" "initiator m < 16" "0 \<le> destination m" "destination m < 16"
  shows "uint (drop_bit 4 (header_byte m) AND 0xf) = initiator m" "uint (header_byte m AND 0xf) = destination m"
proof -
  have "list_all (\<lambda>i. list_all (\<lambda>d. uint (drop_bit 4 (word_of_int (push_bit 4 (i AND 0xf) OR (d AND 0xf)) :: byte) AND 0xf) = i \<and>
      uint ((word_of_int (push_bit 4 (i AND 0xf) OR (d AND 0xf)) :: byte) AND 0xf) = d) [0..15]) [0..15]"
    by code_simp
  then show "uint (drop_bit 4 (header_byte m) AND 0xf) = initiator m" "uint (header_byte m AND 0xf) = destination m"
    using assms by (auto simp: list_all_iff header_byte_def)
qed

text \<open>
  C33. What is written to the driver for a message is its addresses in one byte and its bytes; read
  back, it gives the message again.
\<close>

theorem sent_message_reads_back:
  assumes "header_ok P" and "message_ok m" and "0 \<le> initiator m" "initiator m < 16"
    and "0 \<le> destination m" "destination m < 16"
  shows "\<exists>r c' bs m'. send P m c = Some (r, c') \<and> trace c' = Write bs # trace c \<and> length bs = length_field m + 1 \<and>
    parse_message P (length bs) (msg_buffer P (int (length bs)) bs) = Some m' \<and> initiator m' = initiator m \<and>
    destination m' = destination m \<and> length_field m' = length_field m \<and>
    take (length_field m) (body m') = take (length_field m) (body m)"
proof -
  let ?n = "length_field m"
  have n: "?n < 16" "length (body m) = 16" "CEC_MESSAGE_BODY_MAX_LENGTH P = 16"
    using assms(1,2) by (auto simp: message_ok_def header_ok_def)
  have len: "length (wire m) = ?n + 1" using n by (simp add: wire_def)
  have buf: "msg_buffer P (1 + int ?n) (wire m) = header_byte m # take ?n (body m) @ replicate (15 - ?n) 0"
    using n by (cases "?n = 15") (auto simp: msg_buffer_def wire_def min_def nat_add_distrib)
  have "parse_message P (Suc ?n) (msg_buffer P (1 + int ?n) (wire m)) =
      Some \<lparr>initiator = initiator m, destination = destination m, length_field = ?n,
            body = overlay 0 (take ?n (body m)) (replicate 16 0)\<rparr>"
    using n header_byte_decodes [OF assms(3-6)] by (simp add: buf parse_message_def copy_bytes_def)
  then show ?thesis using send_ok [OF assms(2,1), of c] len n
    by (intro exI [of _ "write_ans P (Write (wire m) # trace c)"] exI [of _ "c\<lparr>trace := Write (wire m) # trace c\<rparr>"]
        exI [of _ "wire m"]) (simp add: overlay_def)
qed

definition ex_message :: cec_message where
  "ex_message = \<lparr>initiator = 4, destination = 15, length_field = 3, body = [0x82, 0x10, 0x00] @ replicate 13 0\<rparr>"

theorem sent_message_reads_back_witness:
  "\<exists>r c' bs m'. send ex_standby ex_message ex_started = Some (r, c') \<and> trace c' = Write bs # trace ex_started \<and>
     length bs = 4 \<and> parse_message ex_standby 4 (msg_buffer ex_standby 4 bs) = Some m' \<and> initiator m' = 4 \<and>
     destination m' = 15 \<and> length_field m' = 3 \<and> take 3 (body m') = [0x82, 0x10, 0x00]"
proof -
  have ok: "message_ok ex_message" by (simp add: ex_message_def message_ok_def)
  have "header_ok ex_standby" by (simp add: ex_standby_def ex_header_ok)
  then show ?thesis
    using sent_message_reads_back [OF _ ok, of ex_standby ex_started] by (fastforce simp: ex_message_def)
qed

lemma postHandle_trace: "postHandleOfSend m r c = Some c' \<Longrightarrow> trace c' = trace c"
  by (auto simp: postHandleOfSend_def get_at_def set_at_def split: if_splits)

text \<open>
  A message that is not filtered is transmitted once, and once more exactly when the bus was busy
  or the first attempt failed and the message is not empty; the caller gets the last result.
\<close>

theorem message_transmitted_at_most_twice:
  assumes "header_ok P" and "cec_inv c" and "message_ok m" and "receiver_ok P m"
    and "0 \<le> driver_fd c" and "is_cec_enabled c" and "preHandleOfSend P m c = Some (0, c1)"
  shows "let w = Write (wire m); r1 = write_ans P (w # trace c1);
             again = (length_field m \<noteq> 0 \<and> (r1 = HDMI_RESULT_BUSY P \<or> r1 = HDMI_RESULT_FAIL P))
         in \<exists>c'. sendMessage P m c = Some (if again then write_ans P (w # w # trace c1) else r1, c') \<and>
              trace c' = (if again then [w, w] else [w]) @ trace c1"
proof -
  have "cec_inv c1" using safe_preHandleOfSend [OF assms(2,4)] assms(7) by (simp add: safe_with_def)
  then have post: "\<exists>c'. postHandleOfSend m r (c1\<lparr>trace := tr\<rparr>) \<bind> (\<lambda>c. Some (r, c)) = Some (r, c') \<and> trace c' = tr" for r tr
    using safe_postHandleOfSend [OF _ assms(4), of "c1\<lparr>trace := tr\<rparr>" r] postHandle_trace [of m r "c1\<lparr>trace := tr\<rparr>"]
    by (auto simp: safe_def cec_inv_frame)
  have retry: "send_retry P m 2 c1 =
      (let w = Write (wire m); r1 = write_ans P (w # trace c1)
       in if length_field m \<noteq> 0 \<and> (r1 = HDMI_RESULT_BUSY P \<or> r1 = HDMI_RESULT_FAIL P)
          then Some (write_ans P (w # w # trace c1), c1\<lparr>trace := w # w # trace c1\<rparr>)
          else Some (r1, c1\<lparr>trace := w # trace c1\<rparr>))"
    using assms(1,3) by (simp add: send_retry.simps [of P m "Suc (Suc 0)"] send_retry.simps [of P m "Suc 0"] send_ok numeral_2_eq_2 Let_def)
  show ?thesis using assms(5-7)
    by (simp add: sendMessage_def assertHdmiCecDevice_def SEND_MESSAGE_RETRY_HAL_def retry Let_def post)
qed

lemma ex_started_fields: "is_cec_enabled ex_started" "is_cec_controlled ex_started" "\<not> mVendorEventListener ex_started"
proof -
  have "case new_HdmiCecControl ex_standby 1 ex_memory of None \<Rightarrow> False
      | Some c \<Rightarrow> is_cec_enabled c \<and> is_cec_controlled c \<and> \<not> mVendorEventListener c"
    by code_simp
  then show "is_cec_enabled ex_started" "is_cec_controlled ex_started" "\<not> mVendorEventListener ex_started"
    by (auto simp: ex_started_eq)
qed

lemma ex_started_inv: "cec_inv ex_started"
  using cec_reach_inv [OF ex_started_reach ex_standby_ok] .

definition ex_poll :: cec_message where
  "ex_poll = \<lparr>initiator = 4, destination = 0, length_field = 0, body = replicate 16 0\<rparr>"

theorem message_transmitted_at_most_twice_witness:
  "\<exists>c'. sendMessage ex_standby ex_poll ex_started = Some (0, c') \<and> trace c' = Write [0x40] # trace ex_started"
proof -
  have ok: "message_ok ex_poll" "receiver_ok ex_standby ex_poll" "header_ok ex_standby"
    by (simp_all add: ex_poll_def message_ok_def receiver_ok_def ex_standby_def ex_header_ok)
  have pre: "preHandleOfSend ex_standby ex_poll ex_started = Some (0, ex_started)"
    by (simp add: preHandleOfSend_def ex_poll_def ex_standby_def ex_platform_defs)
  have "wire ex_poll = [0x40]" by (simp add: wire_def ex_poll_def header_byte_def)
  moreover have "write_ans ex_standby tr = 0" for tr by (simp add: ex_standby_def ex_platform_defs)
  ultimately show ?thesis
    using message_transmitted_at_most_twice [OF ok(3) ex_started_inv ok(1,2) _ ex_started_fields(1) pre] ex_started_eq(2)
    by (simp add: ex_poll_def Let_def)
qed

end
