(* ===== verification/Cec_Faults.thy ===== *)
theory Cec_Faults
  imports Cec_Properties
begin

text \<open>
  Calls of the HDMI-CEC library that go wrong: messages that make it write outside its tables and
  buffers, an event that is used after its lifetime, an address that is not restored and a
  destructor that does not return.
\<close>

section \<open>Messages that overflow\<close>

lemma messageValidate_bad_vendor:
  assumes "initiator m = 15" and "body m ! 0 = CEC_MESSAGE_DEVICE_VENDOR_ID P" and "length (vendor_ids c) = 15"
  shows "messageValidateAndHandle P (ty, m) c = None"
  using assms by (simp add: messageValidateAndHandle_def validate_any_def Let_def set_at_def)

text \<open>
  C39. A message with a vendor identifier from the address 15, which a device without a logical
  address uses, makes the library write behind the table of vendors.
\<close>

theorem unregistered_sender_overflows:
  assumes "header_ok P" and "cec_inv c" and "read_ans P (Read 16 # trace c) = (r, h # CEC_MESSAGE_DEVICE_VENDOR_ID P # rest)"
    and "1 < r" and "r \<le> 16" and "drop_bit 4 h = 15"
  shows "readCecMessage False P c = None"
proof -
  let ?bs = "h # CEC_MESSAGE_DEVICE_VENDOR_ID P # rest"
  have n: "CEC_MESSAGE_BODY_MAX_LENGTH P = 16" using assms(1) by (simp add: header_ok_def)
  define k where "k = nat r - 2"
  have k: "nat r = Suc (Suc k)" "k \<le> 14" using assms(4,5) by (auto simp: k_def)
  have read: "readMessage P (CEC_MESSAGE_BODY_MAX_LENGTH P) c = (r, ?bs, c\<lparr>trace := Read 16 # trace c\<rparr>)"
    using assms(3,4) n by (simp add: readMessage_def Let_def)
  obtain b where buf: "msg_buffer P r ?bs = h # CEC_MESSAGE_DEVICE_VENDOR_ID P # b" "length b = 14"
    using n k by (auto simp: msg_buffer_def numeral_eq_Suc)
  have "\<exists>m. parse_message P (nat r) (msg_buffer P r ?bs) = Some m \<and> initiator m = 15 \<and>
      body m ! 0 = CEC_MESSAGE_DEVICE_VENDOR_ID P"
    using n k buf assms(6) by (auto simp: parse_message_def copy_bytes_def overlay_def)
  moreover have "\<exists>x. printCecMsgBuf False (msg_buffer P r ?bs) (nat r) = Some x"
    using assms(5) print_bytes_unsigned [of 0 "take (nat r) (msg_buffer P r ?bs)"] by (auto simp: printCecMsgBuf_def)
  ultimately show ?thesis
    using read assms(2,4) messageValidate_bad_vendor [of _ P "c\<lparr>trace := Read 16 # trace c\<rparr>"]
    by (auto simp: readCecMessage_def Let_def cec_inv_def)
qed

theorem unregistered_sender_overflows_witness:
  "readCecMessage False (ex_platform [0xF0, 0x87, 0x00, 0x00, 0xF0]) ex_started = None"
  using unregistered_sender_overflows [of "ex_platform [0xF0, 0x87, 0x00, 0x00, 0xF0]" ex_started 5 "0xF0" "[0x00, 0x00, 0xF0]"]
    ex_started_inv ex_header_ok [of "[0xF0, 0x87, 0x00, 0x00, 0xF0]"]
  by (simp add: ex_platform_defs)

lemma controlled_not_filtered:
  assumes "preHandleOfSend P m c = Some (pre, c')" and "is_cec_controlled c"
  shows "pre = 0"
proof -
  have "is_cec_controlled c1" if "updateActiveState P m False c = Some c1" for c1
    using that assms(2) by (auto simp: updateActiveState_def report_activeness_def Let_def split: if_splits)
  then show ?thesis using assms
    by (auto simp: preHandleOfSend_def Let_def split: if_splits bind_splits)
qed

text \<open>
  The AIDL service lets a client send a message of 16 bytes or more, cut to 16 bytes; with its
  header byte that is one more than the buffer holds from which it is transmitted.
\<close>

theorem full_message_overflows:
  assumes "header_ok P" and "cec_inv (mHdmiCecControl h)" and "0 \<le> driver_fd (mHdmiCecControl h)"
    and "is_cec_enabled (mHdmiCecControl h)" and "is_cec_controlled (mHdmiCecControl h)"
    and "16 \<le> length (msg_body message)" and "0 \<le> msg_destination message" and "msg_destination message < 15"
  shows "aidl_sendMessage P message h = None"
proof -
  let ?c = "mHdmiCecControl h"
  let ?m = "\<lparr>initiator = msg_initiator message, destination = msg_destination message, length_field = 16,
             body = overlay 0 (take 16 (msg_body message)) (uninitialised P (trace ?c))\<rparr>"
  have n: "CEC_MESSAGE_BODY_MAX_LENGTH P = 16" using assms(1) by (simp add: header_ok_def)
  have "receiver_ok P ?m" using assms(7,8) by (simp add: receiver_ok_def)
  then obtain c' where pre: "preHandleOfSend P ?m ?c = Some (0, c')"
    using safe_preHandleOfSend [OF assms(2)] controlled_not_filtered [OF _ assms(5)] by (fastforce simp: safe_with_def)
  have "send_retry P ?m SEND_MESSAGE_RETRY_HAL c' = None"
    using send_too_long [of P ?m c'] n by (simp add: send_retry.simps)
  then have "sendMessage P ?m ?c = None"
    using assms(3,4) pre by (simp add: sendMessage_def assertHdmiCecDevice_def)
  then show ?thesis using assms(6) n by (simp add: aidl_sendMessage_def copy_bytes_def Let_def)
qed

definition ex_service :: HdmiCec where
  "ex_service = \<lparr>mHdmiCecControl = ex_started, mCallbackSize = 0, mCallbackMap = [], mVendorCallback = None, mIsVendorCallback = False\<rparr>"

theorem full_message_overflows_witness:
  "aidl_sendMessage ex_standby \<lparr>msg_initiator = 4, msg_destination = 0, msg_body = replicate 16 0xA0\<rparr> ex_service = None"
  using full_message_overflows [of ex_standby ex_service "\<lparr>msg_initiator = 4, msg_destination = 0, msg_body = replicate 16 0xA0\<rparr>"]
    ex_started_inv ex_started_eq(2) ex_started_fields ex_header_ok [of "[0x0F, 0x36]"]
  by (simp add: ex_service_def ex_standby_def [symmetric])

section \<open>An event after its lifetime\<close>

text \<open>
  When a playback device learns that it is no longer active while no vendor listener is
  registered, the event is remembered by its address on the stack; registering the listener
  afterwards uses it.
\<close>

theorem cached_event_is_dead:
  assumes "is_playback c" and "\<not> mVendorEventListener c" and "body m ! 0 = CEC_MESSAGE_STANDBY P" and "header_ok P"
  shows "\<exists>c'. handleOTPMsg P (ty, m) c = Some c' \<and> mCachedRoutingEvent c' = DeadEvent \<and>
    setVendorEventObserver P listener c' = None"
proof -
  have d: "CEC_MESSAGE_STANDBY P \<notin> {CEC_MESSAGE_SET_STREAM_PATH P, CEC_MESSAGE_ROUTING_CHANGE P, CEC_MESSAGE_ACTIVE_SOURCE P}"
    using assms(4) by (auto simp: header_ok_def opcodes_def)
  then have "received_state P m c' = Some (Some ACTIVENESS_STATE_OFF)" for c'
    using assms(3) by (simp add: received_state_def Let_def)
  moreover have "mVendorEventListener (snd (snd (getPhysicalAddress P a c))) = mVendorEventListener c" for a
    by (simp add: getPhysicalAddress_def ioctl_eq Let_def)
  ultimately show ?thesis using assms(1,2,3) d
    by (simp add: handleOTPMsg_def updateActiveState_def report_activeness_def setVendorEventObserver_def assure_def Let_def)
qed

definition ex_standby_message :: cec_message where
  "ex_standby_message = \<lparr>initiator = 0, destination = 15, length_field = 1, body = 0x36 # replicate 15 0\<rparr>"

theorem cached_event_is_dead_witness:
  "\<exists>c'. handleOTPMsg ex_standby (1, ex_standby_message) ex_started = Some c' \<and> mCachedRoutingEvent c' = DeadEvent \<and>
     setVendorEventObserver ex_standby True c' = None"
  using cached_event_is_dead [OF ex_started_eq(3) ex_started_fields(3), of ex_standby_message ex_standby]
    ex_header_ok [of "[0x0F, 0x36]"]
  by (simp add: ex_standby_message_def ex_standby_def) (simp add: ex_platform_defs)

section \<open>The saved logical address\<close>

text \<open>
  The logical address is saved in hexadecimal and read back in decimal: the addresses 1 to 9
  survive a restart, and the third playback device, 11, comes back as 4.
\<close>

theorem logical_address_not_restored:
  assumes "0 \<le> driver_fd c" and "isSourceDevice P a" and "0 \<le> a" and "a < 16"
  shows "\<exists>s r c'. addLogicalAddress P a c = (r, c') \<and> hd (trace c') = SetProp PROPERTY_LOGICAL_ADDRESS s \<and>
    saved_address s = (if 1 \<le> a \<and> a \<le> 9 then a else 4)"
proof -
  have "list_all (\<lambda>a. saved_address (hex_string a) = (if 1 \<le> a \<and> a \<le> 9 then a else 4)) [0..15]"
    by code_simp
  then have "saved_address (hex_string a) = (if 1 \<le> a \<and> a \<le> 9 then a else 4)"
    using assms(3,4) by (auto simp: list_all_iff)
  then show ?thesis using assms(1,2)
    by (simp add: addLogicalAddress_def assertHdmiCecDevice_def Let_def ioctl_eq set_prop_def setProperty_def)
qed

theorem logical_address_not_restored_witness:
  "\<exists>s r c'. addLogicalAddress ex_standby 11 ex_started = (r, c') \<and> hd (trace c') = SetProp PROPERTY_LOGICAL_ADDRESS s \<and>
     saved_address s = 4"
  using logical_address_not_restored [of ex_started ex_standby 11] ex_started_eq(2)
  by (simp add: isSourceDevice_def ex_standby_def) (simp add: ex_platform_defs)

section \<open>The destructor\<close>

lemma wait_exited_returns:
  assumes "wait_exited others c = Some y"
  shows "(\<forall>c. exited (others c) = exited c) \<longrightarrow> exited c"
  using assms
proof (rule wait_exited.raw_induct [rotated])
  fix w :: "(HdmiCecControl \<Rightarrow> HdmiCecControl) \<Rightarrow> HdmiCecControl \<Rightarrow> HdmiCecControl option" and others c y
  assume IH: "\<And>others c y. w others c = Some y \<Longrightarrow> (\<forall>c. exited (others c) = exited c) \<longrightarrow> exited c"
    and "(if exited c then Some c else w others (others c)) = Some y"
  then show "(\<forall>c. exited (others c) = exited c) \<longrightarrow> exited c" using IH [of others "others c" y] by (cases "exited c") auto
qed

lemma exited_parse_types: "parse_types ts i c = Some (ok, n, c') \<Longrightarrow> exited c' = exited c"
  by (induction ts arbitrary: i c) (auto simp: Let_def case_prod_unfold split: if_splits bind_splits)

lemma exited_note_types: "note_types ts c = Some c' \<Longrightarrow> exited c' = exited c"
  by (induction ts arbitrary: c) (auto simp: note_type_def split: if_splits bind_splits)

lemma exited_set_types: "set_types P ts c = Some c' \<Longrightarrow> exited c' = exited c"
  by (induction ts arbitrary: c) (fastforce split: bind_splits)+

lemma exited_boot_connect_loop: "boot_connect_loop P ps c = Some c' \<Longrightarrow> exited c' = exited c"
  by (induction ps arbitrary: c) (fastforce simp: Let_def ioctl_eq set_prop_def split: if_splits bind_splits)+

lemma exited_queue:
  "queue_send P msg c = Some c' \<Longrightarrow> exited c' = exited c" "queue_replace P msg c = Some c' \<Longrightarrow> exited c' = exited c"
  by (auto simp: queue_send_def queue_replace_def queue_remove_def Let_def split: option.splits)

lemma exited_bootOneTouchPlay: "bootOneTouchPlay P c = Some c' \<Longrightarrow> exited c' = exited c"
  by (auto simp: bootOneTouchPlay_def Let_def outside_eqs getPhysicalAddress_in_place_def addLogicalAddress_def
      dest!: exited_queue split: if_splits bind_splits)

lemma exited_getDeviceTypes: "getDeviceTypes P c = Some c' \<Longrightarrow> exited c' = exited c"
  by (auto simp: getDeviceTypes_def Let_def prop_string_def case_prod_unfold
      dest!: exited_parse_types exited_note_types split: if_splits bind_splits)

lemma exited_getBootConnectStatus: "getBootConnectStatus P c = Some c' \<Longrightarrow> exited c' = exited c"
  by (auto simp: getBootConnectStatus_def Let_def ioctl_eq dest!: exited_boot_connect_loop split: if_splits bind_splits)

lemma exited_start_driver:
  assumes "start_driver P c = Some c'"
  shows "exited c' = exited c"
proof -
  define c0 where "c0 = (if fst (prop_bool P PROPERTY_CEC_DEBUG False c)
    then ioctl_set P CEC_IOC_SET_DEBUG_EN 2 (snd (prop_bool P PROPERTY_CEC_DEBUG False c))
    else snd (prop_bool P PROPERTY_CEC_DEBUG False c))"
  define go where "go c = (let c = c\<lparr>mMsgHandler := Some []\<rparr> in
      if is_cec_enabled c \<and> mCecEvent c AND HDMI_EVENT_CEC_MESSAGE P \<noteq> 0
      then bootOneTouchPlay P (ioctl_set P CEC_IOC_SET_OPTION_ENABLE_CEC 1 c) else Some c)" for c
  have "set_types P (take (nat (total_device c0)) (device_types c0)) c0 \<bind> (\<lambda>c. getBootConnectStatus P c \<bind> go) = Some c'"
    using assms unfolding start_driver_def c0_def go_def Let_def case_prod_unfold .
  then obtain c1 c2 where c: "set_types P (take (nat (total_device c0)) (device_types c0)) c0 = Some c1"
      "getBootConnectStatus P c1 = Some c2" "go c2 = Some c'"
    by (auto simp: bind_eq_Some_conv)
  have "exited c' = exited c2" using c(3) by (auto simp: go_def Let_def dest: exited_bootOneTouchPlay split: if_splits)
  also have "\<dots> = exited c0" using exited_set_types [OF c(1)] exited_getBootConnectStatus [OF c(2)] by simp
  also have "\<dots> = exited c" by (simp add: c0_def prop_bool_eq)
  finally show ?thesis .
qed

lemma exited_new:
  assumes "new_HdmiCecControl P event garbage = Some c"
  shows "\<not> exited c"
proof -
  have i: "\<not> exited (initial_control P garbage)" by (simp add: initial_control_def Let_def prop_bool_eq)
  obtain c1 where c1: "getDeviceTypes P ((initial_control P garbage)\<lparr>mCecEvent := event\<rparr>) = Some c1"
    using assms by (auto simp: new_HdmiCecControl_def split: bind_splits)
  then have "\<not> exited c1" using i exited_getDeviceTypes [OF c1] by simp
  then show ?thesis using assms c1
    by (auto simp: new_HdmiCecControl_def Let_def prop_string_def case_prod_unfold dest!: exited_start_driver split: if_splits)
qed

text \<open>
  The destructor waits for a flag that only a thread sets that is never started: whatever the
  other threads do that leaves the flag alone, it does not return.
\<close>

theorem destructor_never_returns:
  assumes "new_HdmiCecControl P event garbage = Some c" and "\<forall>c. exited (others c) = exited c"
  shows "delete_HdmiCecControl others c = None"
  using exited_new [OF assms(1)] wait_exited_returns [of others "c\<lparr>running := False\<rparr>"] assms(2)
  by (cases "wait_exited others (c\<lparr>running := False\<rparr>)") (auto simp: delete_HdmiCecControl_def)

theorem destructor_never_returns_witness:
  "delete_HdmiCecControl (\<lambda>c. c\<lparr>trace := Clock # trace c\<rparr>) ex_started = None"
  using destructor_never_returns [OF ex_started_eq(1)] by simp

end
