(* ===== verification/Cec_Device_Properties.thy ===== *)
theory Cec_Device_Properties
  imports Cec_Properties
begin

text \<open>
  What the HDMI-CEC library does for a TV and for a playback device: the filter for announced
  addresses, one touch play after a cold start, and the connection status of the ports.
\<close>

section \<open>Announced physical addresses\<close>

definition announced :: "cec_message \<Rightarrow> int" where
  "announced m = uint (body m ! 1) * 2 ^ 8 + uint (body m ! 2)"

definition announcement :: "'p platform_scheme \<Rightarrow> cec_message \<Rightarrow> bool" where
  "announcement P m \<longleftrightarrow> body m ! 0 = CEC_MESSAGE_REPORT_PHYSICAL_ADDRESS P \<and> body m ! 1 \<noteq> 0 \<and> 0 \<le> initiator m \<and> initiator m < 15"

lemma announced_pos: "announcement P m \<Longrightarrow> announced m \<noteq> 0"
proof -
  assume "announcement P m"
  then have "uint (body m ! 1) \<noteq> 0" by (simp add: announcement_def uint_0_iff)
  then show ?thesis by (simp add: announced_def add_nonneg_eq_0_iff)
qed

lemma validate_announcement:
  assumes "header_ok P" and "is_tv c" and "length (added_phy_addr c) = 15" and "announcement P m"
  shows "messageValidateAndHandle P (ty, m) c =
    Some ((if added_phy_addr c ! nat (initiator m) = announced m then 0 else ty, m),
          c\<lparr>added_phy_addr := (added_phy_addr c)[nat (initiator m) := announced m]\<rparr>)"
proof -
  have "CEC_MESSAGE_REPORT_PHYSICAL_ADDRESS P \<noteq> CEC_MESSAGE_DEVICE_VENDOR_ID P"
    "CEC_MESSAGE_REPORT_PHYSICAL_ADDRESS P \<noteq> CEC_MESSAGE_SET_AUDIO_VOLUME_LEVEL"
    using assms(1) by (auto simp: header_ok_def opcodes_def CEC_MESSAGE_SET_AUDIO_VOLUME_LEVEL_def)
  then have "validate_any P (ty, m) c = Some ((ty, m), c)"
    using assms(4) by (simp add: validate_any_def announcement_def Let_def)
  moreover have same: "c\<lparr>added_phy_addr := (added_phy_addr c)[k := v]\<rparr> = c" if "added_phy_addr c ! k = v" for k v
    using that by auto
  ultimately show ?thesis using assms(2-4)
    by (auto simp: same messageValidateAndHandle_def validate_tv_def announcement_def get_at_def set_at_def announced_def Let_def)
qed


definition ex_tv :: HdmiCecControl where
  "ex_tv = ex_started\<lparr>is_tv := True, is_playback := False\<rparr>"

lemma ex_tv_inv: "cec_inv ex_tv"
  using ex_started_inv by (simp add: ex_tv_def cec_inv_def)

definition ex_announcement :: cec_message where
  "ex_announcement = \<lparr>initiator = 4, destination = 15, length_field = 4, body = [0x84, 0x10, 0x00, 4] @ replicate 12 0\<rparr>"

definition ex_question :: cec_message where
  "ex_question = \<lparr>initiator = 0, destination = 4, length_field = 1, body = 0x83 # replicate 15 0\<rparr>"


section \<open>One touch play after a cold start\<close>

primrec deliver_times :: "'p platform_scheme \<Rightarrow> nat \<Rightarrow> HdmiCecControl \<Rightarrow> HdmiCecControl option" where
  "deliver_times P 0 c = Some c"
| "deliver_times P (Suc n) c = deliver P c \<bind> deliver_times P n"

fun announces :: "'p platform_scheme \<Rightarrow> effect \<Rightarrow> bool" where
  "announces P (Write (h # opcode # bs)) = (opcode = CEC_MESSAGE_ACTIVE_SOURCE P)"
| "announces P e = False"

definition otp_pending :: "byte \<Rightarrow> HdmiCecControl \<Rightarrow> bool" where
  "otp_pending a c \<longleftrightarrow> (\<exists>msg. mMsgHandler c = Some [msg] \<and> mType msg = MSG_ONE_TOUCH_PLAY \<and> mpPara msg = [a])"

lemma report_activeness_frame:
  "filter (announces P) (trace (report_activeness P v c)) = filter (announces P) (trace c)"
  "mMsgHandler (report_activeness P v c) = mMsgHandler c" "mBootOtpCount (report_activeness P v c) = mBootOtpCount c"
  by (simp_all add: report_activeness_def Let_def)

lemma updateActiveState_frame:
  assumes "updateActiveState P m False c = Some c'"
  shows "filter (announces P) (trace c') = filter (announces P) (trace c)" "mMsgHandler c' = mMsgHandler c"
    "mBootOtpCount c' = mBootOtpCount c"
  using assms by (auto simp: updateActiveState_def Let_def report_activeness_frame split: if_splits option.splits)

lemma wire_local_message: "wire (local_message P c src dst bs) = header_byte (local_message P c src dst bs) # bs"
  by (simp add: wire_def)

lemma queue_replace_empty:
  "mMsgHandler c = Some [] \<Longrightarrow>
   queue_replace P msg c = Some (c\<lparr>mMsgHandler := Some [msg\<lparr>mWhenMs := getNowMs (clock_ans P (Clock # trace c)) + mDelayMs msg\<rparr>],
     trace := Clock # trace c\<rparr>)"
  by (simp add: queue_replace_def queue_remove_def queue_send_def removeMsg_eq sendMsg_def Let_def)

lemma byte_of_uint [simp]: "byte_of (uint a) = a"
  by (simp add: byte_of_def)

lemma one_touch_play_step:
  assumes "header_ok P" and "otp_pending a c" and "cec_inv c"
  shows "\<exists>c'. deliver P c = Some c' \<and> cec_inv c' \<and> mBootOtpCount c' = mBootOtpCount c + 1 \<and>
    length (filter (announces P) (trace c')) = length (filter (announces P) (trace c)) + 1 \<and>
    (if mBootOtpCount c + 1 < 7 then otp_pending a c' else mMsgHandler c' = Some [])"
proof -
  obtain msg where msg: "mMsgHandler c = Some [msg]" "mType msg = MSG_ONE_TOUCH_PLAY" "mpPara msg = [a]"
    using assms(2) by (auto simp: otp_pending_def)
  define c0 where "c0 = c\<lparr>mMsgHandler := Some []\<rparr>"
  have d: "deliver P c = sendOneTouchPlay P (uint a) c0"
    using msg by (simp add: deliver_def handleMessage_def para_def get_at_def c0_def cec_consts)
  let ?m1 = "local_message P c0 (uint a) (CEC_ADDR_TV P) [CEC_MESSAGE_TEXT_VIEW_ON P]"
  define c1 where "c1 = c0\<lparr>trace := Write (wire ?m1) # trace c0\<rparr>"
  define addr where "addr = (if phy_addr c1 = INVALID_PHYSICAL_ADDRESS \<or> phy_addr c1 = 0 then 0x1000 else phy_addr c1)"
  define m2 where "m2 = local_message P c1 (uint a) (CEC_ADDR_BROADCAST P)
    [CEC_MESSAGE_ACTIVE_SOURCE P, ucast (drop_bit 8 addr), ucast addr, a]"
  define c2 where "c2 = c1\<lparr>trace := Write (wire m2) # trace c1\<rparr>"
  have t: "transmit P ?m1 c0 = Some c1" "transmit P m2 c1 = Some c2"
    unfolding m2_def c1_def c2_def using assms(1) by (simp_all add: transmit_ok local_message_ok)
  have "queue_ok []" by (simp add: queue_ok_def by_time_def)
  then have i: "cec_inv c2" using assms(3) by (simp add: c2_def c1_def c0_def cec_inv_frame cec_inv_queue)
  then obtain c3 where c3: "updateActiveState P m2 False c2 = Some c3" "cec_inv c3"
    using safe_updateActiveState [of c2 False P m2] by (auto simp: safe_def)
  note f = updateActiveState_frame [OF c3(1)]
  have q: "mMsgHandler c3 = Some []" "mBootOtpCount c3 = mBootOtpCount c"
    using f(2,3) by (simp_all add: c2_def c1_def c0_def)
  have n: "length (filter (announces P) (trace c3)) = length (filter (announces P) (trace c)) + 1"
  proof -
    have "CEC_MESSAGE_TEXT_VIEW_ON P \<noteq> CEC_MESSAGE_ACTIVE_SOURCE P" using assms(1) by (auto simp: header_ok_def opcodes_def)
    then show ?thesis using f(1) by (simp add: c2_def c1_def c0_def m2_def wire_local_message)
  qed
  have "deliver P c = (let c = c3\<lparr>mBootOtpCount := mBootOtpCount c3 + 1\<rparr> in
      (if mBootOtpCount c < BOOT_OTP_RETRY_COUNT
       then queue_replace P (message_of MSG_ONE_TOUCH_PLAY DELAY_TRANSMISSION_TIMEOUT [a]) c else Some c) \<bind>
      (\<lambda>c. Some (c\<lparr>active_logical_addr := uint a, active_routing_path := uint addr\<rparr>)))"
    unfolding d sendOneTouchPlay_def using t c3(1) by (simp add: Let_def addr_def [symmetric] m2_def [symmetric])
  then show ?thesis using q n c3(2) \<open>queue_ok []\<close>
    queue_ok_send [of "[]" "message_of MSG_ONE_TOUCH_PLAY DELAY_TRANSMISSION_TIMEOUT [a]"]
    by (auto simp: Let_def queue_replace_empty BOOT_OTP_RETRY_COUNT_def otp_pending_def cec_inv_frame cec_inv_queue
        sendMsg_def para_count_def cec_consts)
qed

lemma one_touch_play_runs:
  "header_ok P \<Longrightarrow> otp_pending a c \<Longrightarrow> cec_inv c \<Longrightarrow> mBootOtpCount c = 6 - int n \<Longrightarrow>
   \<exists>c'. deliver_times P (Suc n) c = Some c' \<and> mMsgHandler c' = Some [] \<and>
     length (filter (announces P) (trace c')) = length (filter (announces P) (trace c)) + Suc n"
proof (induction n arbitrary: c)
  case 0
  then show ?case using one_touch_play_step [of P a c] by fastforce
next
  case (Suc n)
  then obtain c1 where c1: "deliver P c = Some c1" "cec_inv c1" "mBootOtpCount c1 = 6 - int n" "otp_pending a c1"
      "length (filter (announces P) (trace c1)) = length (filter (announces P) (trace c)) + 1"
    using one_touch_play_step [of P a c] by force
  then show ?case using Suc.IH [of c1] Suc.prems(1) by auto
qed


definition ex_otp :: HdmiCecControl where
  "ex_otp = ex_started\<lparr>mMsgHandler := Some [message_of MSG_ONE_TOUCH_PLAY 0 [4]], mBootOtpCount := 0\<rparr>"


section \<open>Connection status\<close>

definition steady :: "'p platform_scheme \<Rightarrow> (int \<Rightarrow> int) \<Rightarrow> bool" where
  "steady P conn \<longleftrightarrow> (\<forall>port tr. ioctl_ans P (Ioctl CEC_IOC_GET_CONNECT_STATUS port # tr) = (0, conn port))"

definition awake :: "'p platform_scheme \<Rightarrow> bool" where
  "awake P \<longleftrightarrow> (\<forall>tr. prop_truth (prop_ans P (GetProp PROPERTY_POWER_STATE # tr)) True)"

definition listening :: "HdmiCecControl \<Rightarrow> bool" where
  "listening c \<longleftrightarrow> mEventListener c \<and> is_cec_enabled c"

lemma events_of_append: "events_of (xs @ ys) = events_of ys @ events_of xs"
  by (simp add: events_of_def)

lemma bits_update:
  fixes st :: u32
  assumes "k < 32"
  shows "(st AND push_bit k 1) XOR (if on then push_bit k 1 else 0) \<noteq> 0 \<longleftrightarrow> bit st k \<noteq> on"
    and "i < 32 \<Longrightarrow> bit ((st AND NOT (st AND push_bit k 1)) OR (if on then push_bit k 1 else 0)) i = (if i = k then on else bit st i)"
proof -
  have "(st AND push_bit k 1) XOR (if on then push_bit k 1 else 0) = (if bit st k \<noteq> on then push_bit k 1 else 0)"
    by (rule bit_word_eqI) (use assms in \<open>auto simp: bit_simps\<close>)
  moreover have "push_bit k 1 \<noteq> (0 :: u32)" using assms by simp
  ultimately show "(st AND push_bit k 1) XOR (if on then push_bit k 1 else 0) \<noteq> 0 \<longleftrightarrow> bit st k \<noteq> on" by simp
  show "i < 32 \<Longrightarrow> bit ((st AND NOT (st AND push_bit k 1)) OR (if on then push_bit k 1 else 0)) i = (if i = k then on else bit st i)"
    by (auto simp: bit_simps)
qed

lemma hotplug_changed_eq:
  "\<exists>new. trace (hotplug_changed P p n c) = new @ trace c \<and>
     (awake P \<and> listening c \<longrightarrow> events_of new = [HotplugEvent (HDMI_EVENT_HOT_PLUG P) n (port_id p)])"
  "total_port (hotplug_changed P p n c) = total_port c" "listening (hotplug_changed P p n c) = listening c"
  by (auto simp: hotplug_changed_def Let_def outside_eqs case_prod_unfold events_of_def awake_def listening_def)

lemma connect_port_eq:
  assumes "steady P conn" and "total_port c \<noteq> 1" and "0 \<le> port_id p" and "port_id p < 32"
  shows "\<exists>st' c' new. connect_port P p st c = Some (st', c') \<and>
    (\<forall>i < 32. bit st' i = (if i = nat (port_id p) then conn (port_id p) \<noteq> 0 else bit st i)) \<and>
    total_port c' = total_port c \<and> listening c' = listening c \<and> trace c' = new @ trace c \<and>
    (awake P \<and> listening c \<longrightarrow> events_of new =
       (if bit st (nat (port_id p)) \<noteq> (conn (port_id p) \<noteq> 0)
        then [HotplugEvent (HDMI_EVENT_HOT_PLUG P) (conn (port_id p)) (port_id p)] else []))"
proof -
  let ?k = "nat (port_id p)"
  let ?c = "c\<lparr>trace := Ioctl CEC_IOC_GET_CONNECT_STATUS (port_id p) # trace c\<rparr>"
  have k: "?k < 32" using assms(4) by simp
  note h = hotplug_changed_eq [of P p "conn (port_id p)" ?c]
  obtain new where new: "trace (hotplug_changed P p (conn (port_id p)) ?c) = new @ trace ?c"
      "awake P \<and> listening ?c \<longrightarrow> events_of new = [HotplugEvent (HDMI_EVENT_HOT_PLUG P) (conn (port_id p)) (port_id p)]"
    using h(1) by blast
  have l: "listening ?c = listening c" by (simp add: listening_def)
  define mask where "mask = push_bit ?k (1 :: u32)"
  have m: "power_of_port (port_id p) = Some mask" using assms(3,4) by (simp only: power_of_port_ok mask_def)
  have eq: "connect_port P p st c =
      (if bit st ?k \<noteq> (conn (port_id p) \<noteq> 0)
       then Some ((st AND NOT (st AND mask)) OR (if conn (port_id p) \<noteq> 0 then mask else 0),
                  hotplug_changed P p (conn (port_id p)) ?c)
       else Some (st, ?c))"
    using assms(1,2) m bits_update(1) [OF k, of st "conn (port_id p) \<noteq> 0", folded mask_def]
    by (cases "conn (port_id p) = 0") (simp_all add: connect_port_def port_number_def ioctl_eq steady_def Let_def)
  show ?thesis
  proof (cases "bit st ?k \<noteq> (conn (port_id p) \<noteq> 0)")
    case True
    then show ?thesis using eq h(2,3) new l bits_update(2) [OF k, folded mask_def]
      by (auto simp: events_of_append events_of_def intro!: exI [of _ "new @ [Ioctl CEC_IOC_GET_CONNECT_STATUS (port_id p)]"])
  next
    case False
    then show ?thesis using eq l by (auto simp: events_of_def)
  qed
qed

definition port_event :: "'p platform_scheme \<Rightarrow> (int \<Rightarrow> int) \<Rightarrow> hdmi_port_info \<Rightarrow> hdmi_cec_event" where
  "port_event P conn p = HotplugEvent (HDMI_EVENT_HOT_PLUG P) (conn (port_id p)) (port_id p)"

definition port_changed :: "(int \<Rightarrow> int) \<Rightarrow> u32 \<Rightarrow> hdmi_port_info \<Rightarrow> bool" where
  "port_changed conn st p \<longleftrightarrow> bit st (nat (port_id p)) \<noteq> (conn (port_id p) \<noteq> 0)"

lemma connect_loop_eq:
  assumes "steady P conn"
  shows "total_port c \<noteq> 1 \<Longrightarrow> \<forall>p \<in> set ps. 0 \<le> port_id p \<and> port_id p < 32 \<Longrightarrow> distinct (map port_id ps) \<Longrightarrow>
    \<exists>st' c' new. connect_loop P ps st c = Some (st', c') \<and>
      (\<forall>i < 32. bit st' i = (if int i \<in> port_id ` set ps then conn (int i) \<noteq> 0 else bit st i)) \<and>
      trace c' = new @ trace c \<and>
      (awake P \<and> listening c \<longrightarrow> events_of new = map (port_event P conn) (filter (port_changed conn st) ps))"
proof (induction ps arbitrary: st c)
  case Nil
  then show ?case by (simp add: events_of_def)
next
  case (Cons p ps)
  have p: "0 \<le> port_id p" "port_id p < 32" using Cons.prems(2) by auto
  obtain st1 c1 new1 where s1: "connect_port P p st c = Some (st1, c1)"
      "\<forall>i < 32. bit st1 i = (if i = nat (port_id p) then conn (port_id p) \<noteq> 0 else bit st i)"
      "total_port c1 = total_port c" "listening c1 = listening c" "trace c1 = new1 @ trace c"
      "awake P \<and> listening c \<longrightarrow> events_of new1 = (if port_changed conn st p then [port_event P conn p] else [])"
    using connect_port_eq [OF assms Cons.prems(1) p, of st] unfolding port_event_def port_changed_def by blast
  obtain st2 c2 new2 where s2: "connect_loop P ps st1 c1 = Some (st2, c2)"
      "\<forall>i < 32. bit st2 i = (if int i \<in> port_id ` set ps then conn (int i) \<noteq> 0 else bit st1 i)"
      "trace c2 = new2 @ trace c1"
      "awake P \<and> listening c1 \<longrightarrow> events_of new2 = map (port_event P conn) (filter (port_changed conn st1) ps)"
    using Cons.IH [of c1 st1] Cons.prems s1(3) by auto
  have "port_changed conn st1 q = port_changed conn st q" if "q \<in> set ps" for q
  proof -
    have "port_id q \<noteq> port_id p" using Cons.prems(3) imageI [OF that, of port_id] by auto
    moreover have "0 \<le> port_id q" "port_id q < 32" using Cons.prems(2) that by auto
    ultimately have "nat (port_id q) \<noteq> nat (port_id p)" "nat (port_id q) < 32" using p(1) by auto
    then show ?thesis using s1(2) by (simp add: port_changed_def)
  qed
  then have "filter (port_changed conn st1) ps = filter (port_changed conn st) ps" by (auto cong: filter_cong)
  moreover have "bit st2 i = (if int i \<in> port_id ` set (p # ps) then conn (int i) \<noteq> 0 else bit st i)" if "i < 32" for i
    using s1(2) s2(2) that p(1) by (auto simp: image_iff)
  ultimately show ?case using s1 s2
    by (intro exI [of _ st2] exI [of _ c2] exI [of _ "new2 @ new1"]) (simp add: events_of_append)
qed

lemma checkConnectStatus_eq:
  assumes "steady P conn" and "cec_inv c" and "port_data c = Some ps" and "total_port c = int (length ps)"
    and "total_port c \<noteq> 1" and "distinct (map port_id ps)"
  shows "\<exists>c'. checkConnectStatus P c = Some c' \<and>
    (\<forall>i < 32. bit (cec_connect_status c') i =
       (if int i \<in> port_id ` set ps then conn (int i) \<noteq> 0 else bit (cec_connect_status c) i)) \<and>
    (awake P \<and> mEventListener c \<and> is_cec_enabled c \<longrightarrow>
     notified (trace c) (trace c') = map (port_event P conn) (filter (port_changed conn (cec_connect_status c)) ps))"
proof -
  have p: "\<forall>p \<in> set ps. 0 \<le> port_id p \<and> port_id p < 32" using assms(2,3) by (simp add: cec_inv_def ports_ok_def)
  obtain st' c' new where "connect_loop P ps (cec_connect_status c) c = Some (st', c')"
      "\<forall>i < 32. bit st' i = (if int i \<in> port_id ` set ps then conn (int i) \<noteq> 0 else bit (cec_connect_status c) i)"
      "trace c' = new @ trace c"
      "awake P \<and> listening c \<longrightarrow> events_of new = map (port_event P conn) (filter (port_changed conn (cec_connect_status c)) ps)"
    using connect_loop_eq [OF assms(1,5) p assms(6)] by blast
  then show ?thesis using assms(3,4)
    by (simp add: checkConnectStatus_def assure_def notified_def listening_def)
qed


definition ex_two_ports :: HdmiCecControl where
  "ex_two_ports = ex_started\<lparr>port_data := Some [ex_port, ex_port\<lparr>port_id := 2\<rparr>], total_port := 2,
     cec_connect_status := 2, mEventListener := True\<rparr>"


end
