(* ===== verification/Hdmi_Connection_Properties.thy ===== *)
theory Hdmi_Connection_Properties
  imports Cec_Device_Properties
begin

text \<open>
  Properties of the HDMI connection service: how it treats hotplug events of the library, and who
  frees the array of ports that it shares with the library.
\<close>

section \<open>Hotplug events\<close>

definition tables_match :: "HdmiConnection \<Rightarrow> bool" where
  "tables_match h \<longleftrightarrow> length (mPortConnectionStatus h) = length (mPortInfos h)"

lemma onEventUpdate_eq:
  assumes "tables_match h" and "mCallback h = Some f" and "ty AND HDMI_EVENT_HOT_PLUG P \<noteq> 0"
  shows "conn_onEventUpdate P (HotplugEvent ty n port) h =
    (if int (length (mPortInfos h)) < port then Some ([], h)
     else if port < 0 \<or> port = int (length (mPortInfos h)) then None
     else Some ([(f, n AND 0xf \<noteq> 0, port)],
       h\<lparr>mPortConnectionStatus := (mPortConnectionStatus h)[nat port := (n AND 0xf \<noteq> 0)]\<rparr>))"
  using assms by (auto simp: conn_onEventUpdate_def set_at_def tables_match_def Let_def)

lemma onEventUpdate_frame:
  assumes "conn_onEventUpdate P ev h = Some (told, h')"
  shows "tables_match h' = tables_match h" "mCallback h' = mCallback h" "mPortInfos h' = mPortInfos h"
  using assms by (auto simp: conn_onEventUpdate_def set_at_def tables_match_def Let_def split: option.splits if_splits)

lemma dispatch_bad_port:
  assumes "HotplugEvent ty n port \<in> set evs" and "ty AND HDMI_EVENT_HOT_PLUG P \<noteq> 0"
    and "tables_match h" and "mCallback h = Some f" and "port = int (length (mPortInfos h))"
  shows "dispatch P evs h = None"
  using assms(1,3-)
proof (induction evs arbitrary: h)
  case (Cons ev evs)
  show ?case
  proof (cases "conn_onEventUpdate P ev h")
    case (Some r)
    then obtain told h' where r: "conn_onEventUpdate P ev h = Some (told, h')" by (cases r) auto
    have "ev \<noteq> HotplugEvent ty n port"
      using r onEventUpdate_eq [OF Cons.prems(2,3) assms(2), of n port] Cons.prems(4) by auto
    then show ?thesis using r onEventUpdate_frame [OF r] Cons.IH [of h'] Cons.prems by simp
  qed simp
qed simp

text \<open>
  A hotplug event of a port whose number is the number of ports, which is the last port when
  they are numbered from one, ends the service with an exception instead of being reported: the
  check of the number lets it pass, and the table of the ports is indexed from zero.
\<close>

theorem last_port_hotplug_throws:
  assumes "steady P conn" and "awake P" and "header_ok P" and "cec_inv (control h)" and "mCecEvent (control h) = 2"
    and "mEventListener (control h)" and "is_cec_enabled (control h)" and "port_data (control h) = Some ps"
    and "total_port (control h) = int (length ps)" and "total_port (control h) \<noteq> 1" and "distinct (map port_id ps)"
    and "tables_match h" and "mCallback h = Some f" and "length (mPortInfos h) = length ps"
    and "p \<in> set ps" and "port_id p = int (length ps)" and "port_changed conn (cec_connect_status (control h)) p"
  shows "conn_hotplug P h = None"
proof -
  have h: "HDMI_EVENT_HOT_PLUG P = 2" using assms(3) by (simp add: header_ok_def)
  obtain c' where c': "checkConnectStatus P (control h) = Some c'"
      "notified (trace (control h)) (trace c') =
         map (port_event P conn) (filter (port_changed conn (cec_connect_status (control h))) ps)"
    using checkConnectStatus_eq [OF assms(1,4,8,9,10,11)] assms(2,6,7) by blast
  have "port_event P conn p \<in> set (notified (trace (control h)) (trace c'))" using assms(15,17) c'(2) by simp
  then have "dispatch P (notified (trace (control h)) (trace c')) (h\<lparr>control := c'\<rparr>) = None"
    using assms(12-14,16) h
    by (intro dispatch_bad_port [where port = "int (length ps)" and f = f]) (auto simp: port_event_def tables_match_def)
  then show ?thesis using c'(1) h assms(5) by (simp add: conn_hotplug_def onCecEvent_def)
qed

definition ex_connection :: HdmiConnection where
  "ex_connection =
     \<lparr>control = ex_two_ports\<lparr>mCecEvent := 2\<rparr>, mCallback = Some 0,
      mPortInfos = map (port_info False) [ex_port, ex_port\<lparr>port_id := 2\<rparr>], mPortConnectionStatus = [False, False],
      mTotalPorts = 2, mHdmiFd = -1, mHpdSignal = [0, 0], mTxHpdSignal = 0, mEarcSupported = False, mHdmiPorts = Block 1,
      control_ports = Block 0, allocated = [1, 0], next_block = 2\<rparr>"

lemma ex_connection_inv: "cec_inv (ex_two_ports\<lparr>mCecEvent := i\<rparr>)"
  using ex_started_inv by (simp add: ex_two_ports_def cec_inv_def ports_ok_def ex_port_def)

theorem last_port_hotplug_throws_witness: "conn_hotplug ex_standby ex_connection = None"
proof (rule last_port_hotplug_throws [where conn = "\<lambda>_. 1" and ps = "[ex_port, ex_port\<lparr>port_id := 2\<rparr>]" and f = 0
      and p = "ex_port\<lparr>port_id := 2\<rparr>"])
  show "steady ex_standby (\<lambda>_. 1)" by (simp add: steady_def ex_standby_def ex_platform_defs)
  show "awake ex_standby" by (simp add: awake_def ex_standby_def ex_platform_defs prop_truth_def)
  show "header_ok ex_standby" by (simp add: ex_standby_def ex_header_ok)
qed (use ex_connection_inv ex_started_fields(1) in
    \<open>simp_all add: ex_connection_def ex_two_ports_def ex_port_def tables_match_def port_changed_def bit_simps\<close>)

section \<open>The shared array of ports\<close>

lemma driver_fd_find_arc_ports: "driver_fd (find_arc_ports ps c) = driver_fd c"
  by (induction ps arbitrary: c) (simp_all add: set_prop_def)

lemma getPortInfos_ports:
  assumes "getPortInfos P n c = Some (ports, k, c')" and "0 \<le> driver_fd c"
  shows "\<exists>ps. ports = Some ps" "driver_fd c' = driver_fd c"
  using assms by (auto simp: getPortInfos_def assertHdmiCecDevice_def Let_def ioctl_eq driver_fd_find_arc_ports split: bind_splits)

lemma delete_array_frame:
  assumes "delete_array p h = Some h'"
  shows "control h' = control h" "control_ports h' = control_ports h" "next_block h' = next_block h"
    "p = Block n \<Longrightarrow> n \<notin> set (allocated h')"
  using assms by (auto simp: delete_array_def split: pointer.splits if_splits)

lemma new_array_frame:
  assumes "new_array k h = Some (p, h')"
  shows "control h' = control h" "control_ports h' = control_ports h" "p = Block (next_block h)"
    "next_block h' = Suc (next_block h)" "allocated h' = next_block h # allocated h"
  using assms by (auto simp: new_array_def split: if_splits)

text \<open>The service and the library hold the same array, which is allocated.\<close>

definition shares :: "HdmiConnection \<Rightarrow> bool" where
  "shares h \<longleftrightarrow> 0 \<le> driver_fd (control h) \<and>
     (\<exists>n. mHdmiPorts h = Block n \<and> control_ports h = Block n \<and> n < next_block h)"

lemma shared_getPortInfos_shares:
  assumes "shared_getPortInfos P h = Some (ports, h')" and "0 \<le> driver_fd (control h)"
  shows "shares h'"
proof -
  obtain ports n c where c: "getPortInfos P (mTotalPorts h) (control h) = Some (ports, n, c)"
    using assms(1) by (auto simp: shared_getPortInfos_def split: bind_splits)
  then obtain ps where ps: "ports = Some ps" "driver_fd c = driver_fd (control h)"
    using getPortInfos_ports [OF c assms(2)] by blast
  let ?h = "h\<lparr>control := c, mTotalPorts := n\<rparr>"
  obtain h1 p h2 where h1: "delete_array (control_ports h) ?h = Some h1" and h2: "new_array n h1 = Some (p, h2)"
      and h': "h' = h2\<lparr>control_ports := p, mHdmiPorts := p\<rparr>"
    using assms(1) c ps(1) by (auto simp: shared_getPortInfos_def Let_def split: bind_splits)
  show ?thesis using delete_array_frame(1,3) [OF h1] new_array_frame [OF h2] ps(2) assms(2)
    by (simp add: shares_def h')
qed

lemma getPortInfo_shares:
  assumes "getPortInfo P h = Some (r, h')" and "0 \<le> driver_fd (control h)"
  shows "shares h'"
proof -
  obtain h1 p h2 ports h3 where h: "delete_array (mHdmiPorts h) h = Some h1" "new_array (mTotalPorts h1) h1 = Some (p, h2)"
      "shared_getPortInfos P (h2\<lparr>mHdmiPorts := p\<rparr>) = Some (ports, h3)"
    using assms(1) by (auto simp: getPortInfo_def Let_def split: bind_splits if_splits)
  have "shares h3"
    using shared_getPortInfos_shares [OF h(3)] delete_array_frame(1) [OF h(1)] new_array_frame(1) [OF h(2)] assms(2) by simp
  then show ?thesis using assms(1) h by (auto simp: getPortInfo_def shares_def Let_def split: if_splits bind_splits)
qed

lemma shares_getPortInfo_fails:
  assumes "shares h"
  shows "getPortInfo P h = None"
proof (rule ccontr)
  assume "getPortInfo P h \<noteq> None"
  then obtain h1 p h2 ports h3 where h: "delete_array (mHdmiPorts h) h = Some h1"
      "new_array (mTotalPorts h1) h1 = Some (p, h2)" "shared_getPortInfos P (h2\<lparr>mHdmiPorts := p\<rparr>) = Some (ports, h3)"
    by (auto simp: getPortInfo_def Let_def split: bind_splits)
  obtain n where n: "mHdmiPorts h = Block n" "control_ports h = Block n" "n < next_block h"
    using assms by (auto simp: shares_def)
  note f = delete_array_frame [OF h(1)] new_array_frame [OF h(2)]
  have gone: "n \<notin> set (allocated h2)" "control_ports h2 = Block n" "0 \<le> driver_fd (control h2)"
    using f(1-3) delete_array_frame(4) [OF h(1), of n] f(5-9) n assms by (auto simp: shares_def)
  have fail: "delete_array (Block n) (h2\<lparr>mHdmiPorts := p, control := c, mTotalPorts := k\<rparr>) = None" for c k
    using gone(1) by (simp add: delete_array_def)
  obtain ports n' c where c: "getPortInfos P (mTotalPorts h2) (control h2) = Some (ports, n', c)"
    using h(3) by (auto simp: shared_getPortInfos_def split: bind_splits)
  then obtain ps where "ports = Some ps" using getPortInfos_ports [OF c gone(3)] by blast
  then show False using h(3) c gone(2) fail by (simp add: shared_getPortInfos_def Let_def)
qed

text \<open>
  Asking the service for its ports a second time frees the same array twice: the pointer of the
  service is the one of the library, and both delete it.
\<close>

theorem ports_freed_twice:
  assumes "getPortInfo P h = Some (r, h')" and "0 \<le> driver_fd (control h)"
  shows "getPortInfo P h' = None"
  using getPortInfo_shares [OF assms] by (rule shares_getPortInfo_fails)

theorem ports_freed_twice_witness:
  "\<exists>r h'. getPortInfo ex_standby ex_connection = Some (r, h') \<and> getPortInfo ex_standby h' = None"
proof -
  have d: "0 \<le> driver_fd (control ex_connection)" using ex_started_eq(2) by (simp add: ex_connection_def ex_two_ports_def)
  have "case getPortInfo ex_standby ex_connection of None \<Rightarrow> False | Some x \<Rightarrow> True" by code_simp
  then have "\<exists>r h'. getPortInfo ex_standby ex_connection = Some (r, h')" by (auto split: option.splits)
  then show ?thesis using ports_freed_twice [OF _ d] by blast
qed

end
