(* ===== verification/Wifi_Ring.thy ===== *)
theory Wifi_Ring
  imports Std_Map "HOL-Library.Product_Lexorder"
begin

text \<open>
  The debug ring buffers of the Wi-Fi service (wifi/ringbuffer.cpp) and their files: the ring
  buffer itself, the map from ring names to buffers of a chip, the callback that feeds it, the
  flush to tombstone files and the removal of old files (wifi/wifi_chip.cpp). Sizes are
  64-bit words, so an overflow of the size would show; a call of front() on an empty list is
  None. What the file system answers is a parameter of the call.
\<close>

section \<open>The ring buffer\<close>

datatype AppendStatus =
  APPEND_SUCCESS | FAIL_GENERIC | FAIL_IP_BUFFER_ZERO | FAIL_IP_BUFFER_EXCEEDED_MAXSIZE
| FAIL_RING_BUFFER_CORRUPTED

record Ringbuffer =
  rb_data :: "byte list list"
  rb_size :: u64
  rb_maxSize :: u64

definition new_Ringbuffer :: "u64 \<Rightarrow> Ringbuffer" where
  "new_Ringbuffer m = \<lparr>rb_data = [], rb_size = 0, rb_maxSize = m\<rparr>"

definition vec_size :: "byte list \<Rightarrow> u64" where
  "vec_size v = of_nat (length v)"

fun evict :: "u64 \<Rightarrow> u64 \<Rightarrow> byte list list \<Rightarrow> (AppendStatus \<times> u64 \<times> byte list list) option" where
  "evict m sz [] = (if m < sz then None else Some (APPEND_SUCCESS, sz, []))"
| "evict m sz (b # bs) =
     (if m < sz
      then if vec_size b \<le> 0 \<or> m < vec_size b then Some (FAIL_RING_BUFFER_CORRUPTED, sz, b # bs)
           else evict m (sz - vec_size b) bs
      else Some (APPEND_SUCCESS, sz, b # bs))"

definition ring_append :: "byte list \<Rightarrow> Ringbuffer \<Rightarrow> (AppendStatus \<times> Ringbuffer) option" where
  "ring_append input r =
     (if vec_size input = 0 then Some (FAIL_IP_BUFFER_ZERO, r)
      else if rb_maxSize r < vec_size input then Some (FAIL_IP_BUFFER_EXCEEDED_MAXSIZE, r)
      else case evict (rb_maxSize r) (rb_size r + vec_size input) (rb_data r @ [input]) of
             None \<Rightarrow> None
           | Some (st, sz, d) \<Rightarrow> Some (st, r\<lparr>rb_data := d, rb_size := sz\<rparr>))"

definition ring_clear :: "Ringbuffer \<Rightarrow> Ringbuffer" where
  "ring_clear r = r\<lparr>rb_data := [], rb_size := 0\<rparr>"

section \<open>Old tombstone files\<close>

definition kMaxRingBufferFileAgeSeconds :: int where "kMaxRingBufferFileAgeSeconds = 60 * 60 * 10"
definition kMaxRingBufferFileNum :: nat where "kMaxRingBufferFileNum = 20"
definition kMaxBufferSizeBytes :: u64 where "kMaxBufferSizeBytes = 1024 * 1024 * 3"
definition kTombstoneFolderPath :: string where
  "kTombstoneFolderPath = ''/data/vendor/tombstones/wifi/''"

record dir_entry =
  d_name :: string
  d_regular :: bool
  d_stat :: "int option"

fun list_files :: "dir_entry list \<Rightarrow> bool \<times> (int \<times> string) list" where
  "list_files [] = (True, [])"
| "list_files (e # es) =
     (let (ok, fs) = list_files es
      in if \<not> d_regular e then (ok, fs)
         else case d_stat e of
                None \<Rightarrow> (False, fs)
              | Some t \<Rightarrow> (ok, (t, kTombstoneFolderPath @ d_name e) # fs))"

fun unlink_loop :: "(string \<Rightarrow> bool) \<Rightarrow> int \<Rightarrow> nat \<Rightarrow> (int \<times> string) list \<Rightarrow> bool \<times> string list" where
  "unlink_loop unlink_ok before n [] = (True, [])"
| "unlink_loop unlink_ok before n (f # fs) =
     (if kMaxRingBufferFileNum < n \<or> fst f < before
      then let (ok, tried) = unlink_loop unlink_ok before (n - 1) fs
           in (unlink_ok (snd f) \<and> ok, snd f # tried)
      else (True, []))"

definition removeOldFilesInternal ::
  "int \<Rightarrow> dir_entry list option \<Rightarrow> (string \<Rightarrow> bool) \<Rightarrow> bool \<times> string list" where
  "removeOldFilesInternal now dir unlink_ok =
     (case dir of
        None \<Rightarrow> (False, [])
      | Some es \<Rightarrow>
          let (listed, fs) = list_files es;
              (removed, tried) =
                unlink_loop unlink_ok (now - kMaxRingBufferFileAgeSeconds) (length fs) (sort fs)
          in (listed \<and> removed, tried))"

section \<open>The ring buffers of a chip\<close>

text \<open>The path of the new file is a template; the six characters that mkstemp fills in are not
  modelled. A failed write is logged and skipped.\<close>

type_synonym ring_map = "(string \<times> Ringbuffer) list"
type_synonym dump_file = "string \<times> byte list list"

record flush_env =
  flush_now :: int
  flush_dir :: "dir_entry list option"
  unlinks :: "string \<Rightarrow> bool"
  mkstemp_ok :: "string \<Rightarrow> bool"
  write_ok :: "byte list \<Rightarrow> bool"

fun write_blocks :: "(byte list \<Rightarrow> bool) \<Rightarrow> byte list list \<Rightarrow> byte list list" where
  "write_blocks ok [] = []"
| "write_blocks ok (b # bs) =
     (if vec_size b \<le> 0 \<or> kMaxBufferSizeBytes < vec_size b then []
      else if ok b then b # write_blocks ok bs else write_blocks ok bs)"

fun write_rings :: "flush_env \<Rightarrow> ring_map \<Rightarrow> bool \<times> ring_map \<times> dump_file list" where
  "write_rings env [] = (True, [], [])"
| "write_rings env ((name, r) # m) =
     (if rb_data r = [] then let (ok, m', fs) = write_rings env m in (ok, (name, r) # m', fs)
      else let path = kTombstoneFolderPath @ name @ ''XXXXXXXXXX''
           in if \<not> mkstemp_ok env path then (False, (name, r) # m, [])
              else let (ok, m', fs) = write_rings env m
                   in (ok, (name, ring_clear r) # m', (path, write_blocks (write_ok env) (rb_data r)) # fs))"

definition writeRingbufferFilesInternal ::
  "flush_env \<Rightarrow> ring_map \<Rightarrow> bool \<times> ring_map \<times> dump_file list" where
  "writeRingbufferFilesInternal env m =
     (if \<not> fst (removeOldFilesInternal (flush_now env) (flush_dir env) (unlinks env))
      then (False, m, []) else write_rings env m)"

text \<open>std::map::insert keeps an existing entry.\<close>

definition add_ring :: "string \<Rightarrow> ring_map \<Rightarrow> ring_map" where
  "add_ring name m =
     (if name \<in> fst ` set m then m else map_put name (new_Ringbuffer kMaxBufferSizeBytes) m)"

definition on_ring_buffer_data ::
  "flush_env \<Rightarrow> bool \<Rightarrow> string \<Rightarrow> byte list \<Rightarrow> ring_map \<Rightarrow> (ring_map \<times> dump_file list) option" where
  "on_ring_buffer_data env valid name d m =
     (if \<not> valid then Some (m, [])
      else case map_of m name of
        None \<Rightarrow> Some (m, [])
      | Some r \<Rightarrow>
          (case ring_append d r of
             None \<Rightarrow> None
           | Some (st, r') \<Rightarrow>
               (let m' = map_put name r' m
                in if st = FAIL_RING_BUFFER_CORRUPTED
                   then let (ok, m'', fs) = writeRingbufferFilesInternal env m' in Some (m'', fs)
                   else Some (m', []))))"

end
