(* ===== verification/Wifi_Ring_Properties.thy ===== *)
theory Wifi_Ring_Properties
  imports Wifi_Ring
begin

text \<open>
  The ring buffer keeps the newest messages that fit, under any sequence of appends; a flush
  writes exactly these and empties the buffers; of the old files the newest twenty stay.
\<close>

section \<open>The newest messages\<close>

definition total_size :: "byte list list \<Rightarrow> nat" where
  "total_size bs = sum_list (map length bs)"

lemma total_size_simps [simp]:
  "total_size [] = 0" "total_size (b # bs) = length b + total_size bs"
  "total_size (bs @ cs) = total_size bs + total_size cs"
  by (simp_all add: total_size_def)

lemma in_total_size: "b \<in> set bs \<Longrightarrow> length b \<le> total_size bs"
  by (induction bs) auto

fun newest :: "nat \<Rightarrow> byte list list \<Rightarrow> byte list list" where
  "newest m [] = []"
| "newest m (b # bs) = (if total_size (b # bs) \<le> m then b # bs else newest m bs)"

lemma total_newest: "total_size (newest m bs) \<le> m"
  by (induction bs) simp_all

lemma newest_fits: "total_size bs \<le> m \<Longrightarrow> newest m bs = bs"
  by (cases bs) simp_all

lemma set_newest: "set (newest m bs) \<subseteq> set bs"
  by (induction bs) auto

lemma newest_longest:
  "\<exists>older. bs = older @ newest m bs \<and> (older \<noteq> [] \<longrightarrow> m < total_size (last older # newest m bs))"
proof (induction bs)
  case (Cons b bs)
  then obtain older where older: "bs = older @ newest m bs"
    "older \<noteq> [] \<longrightarrow> m < total_size (last older # newest m bs)" by auto
  show ?case
  proof (cases "total_size (b # bs) \<le> m")
    case False
    then have eq: "newest m (b # bs) = newest m bs" by simp
    have "m < total_size (last (b # older) # newest m bs)"
    proof (cases older)
      case Nil
      then show ?thesis using older(1) False by simp
    qed (use older(2) in simp)
    then show ?thesis unfolding eq by (intro exI [of _ "b # older"]) (simp flip: older(1))
  qed simp
qed simp

lemma newest_snoc: "newest m (newest m bs @ [c]) = newest m (bs @ [c])"
proof (induction bs)
  case (Cons b bs)
  show ?case
  proof (cases "total_size (b # bs) \<le> m")
    case True
    then have "newest m (b # bs) = b # bs" by simp
    then show ?thesis by simp
  qed (use Cons in simp)
qed simp

section \<open>Appending\<close>

definition ring_ok :: "Ringbuffer \<Rightarrow> bool" where
  "ring_ok r \<longleftrightarrow> unat (rb_maxSize r) < 2 ^ 63 \<and> [] \<notin> set (rb_data r) \<and>
     total_size (rb_data r) \<le> unat (rb_maxSize r) \<and> unat (rb_size r) = total_size (rb_data r)"

definition accepted :: "nat \<Rightarrow> byte list \<Rightarrow> bool" where
  "accepted m x \<longleftrightarrow> x \<noteq> [] \<and> length x \<le> m"

definition append_status :: "nat \<Rightarrow> byte list \<Rightarrow> AppendStatus" where
  "append_status m x = (if x = [] then FAIL_IP_BUFFER_ZERO
     else if m < length x then FAIL_IP_BUFFER_EXCEEDED_MAXSIZE else APPEND_SUCCESS)"

lemma unat_u64: "unat (w :: u64) < 2 ^ 64"
  by (rule order_less_le_trans [OF unsigned_less]) simp

lemma word_unat_eq: "w = of_nat (unat w)"
  by simp

lemma unat_vec_size: "length v < 2 ^ 64 \<Longrightarrow> unat (vec_size v) = length v"
  by (simp add: vec_size_def unat_of_nat take_bit_nat_eq_self)

lemma evict_newest:
  assumes "unat sz = total_size bs" and "[] \<notin> set bs"
    and "\<forall>b\<in>set bs. length b \<le> unat m"
  shows "evict m sz bs =
    Some (APPEND_SUCCESS, of_nat (total_size (newest (unat m) bs)), newest (unat m) bs)"
  using assms
proof (induction bs arbitrary: sz)
  case Nil
  then have "sz = 0" by (simp add: unat_eq_zero)
  then show ?case by simp
next
  case (Cons b bs)
  have b: "unat (vec_size b) = length b"
    using Cons.prems(3) unat_u64 [of m] by (intro unat_vec_size) auto
  show ?case
  proof (cases "m < sz")
    case True
    have "unat (sz - vec_size b) = total_size bs"
      using Cons.prems(1) b by (subst unat_sub) (simp_all add: word_le_nat_alt)
    moreover have "\<not> vec_size b \<le> 0" "\<not> m < vec_size b"
      using Cons.prems b by (auto simp: word_le_nat_alt word_less_nat_alt)
    ultimately show ?thesis
      using True Cons.IH [of "sz - vec_size b"] Cons.prems by (simp add: word_less_nat_alt)
  next
    case False
    then have "total_size (b # bs) \<le> unat m" using Cons.prems(1) by (simp add: word_less_nat_alt)
    moreover have "sz = of_nat (total_size (b # bs))"
      unfolding Cons.prems(1) [symmetric] by (rule word_unat_eq)
    ultimately show ?thesis using False by simp
  qed
qed

lemma ring_append_newest:
  assumes ok: "ring_ok r" and x: "length x < 2 ^ 64"
  defines "m \<equiv> unat (rb_maxSize r)"
  shows "\<exists>r'. ring_append x r = Some (append_status m x, r') \<and> ring_ok r' \<and>
    rb_maxSize r' = rb_maxSize r \<and>
    rb_data r' = (if accepted m x then newest m (rb_data r @ [x]) else rb_data r)"
proof (cases "accepted m x")
  case False
  then show ?thesis
    using ok unat_vec_size [OF x]
    by (auto simp: ring_append_def accepted_def append_status_def m_def word_less_nat_alt vec_size_def
        unat_eq_zero dest: sym)
next
  case True
  let ?n = "newest m (rb_data r @ [x])"
  have small: "total_size ?n \<le> m" by (rule total_newest)
  have "unat (rb_size r + vec_size x) = total_size (rb_data r @ [x])"
    using ok True unat_vec_size [OF x] unfolding ring_ok_def accepted_def m_def
    by (subst unat_add_lem [THEN iffD1]) auto
  moreover have "\<forall>b\<in>set (rb_data r). length b \<le> m"
    using ok in_total_size [of _ "rb_data r"] unfolding ring_ok_def m_def by (meson le_trans)
  ultimately have ev: "evict (rb_maxSize r) (rb_size r + vec_size x) (rb_data r @ [x]) =
      Some (APPEND_SUCCESS, of_nat (total_size ?n), ?n)"
    using ok True by (subst evict_newest) (auto simp: ring_ok_def accepted_def m_def)
  have "vec_size x \<noteq> 0" "\<not> rb_maxSize r < vec_size x"
    using True unat_vec_size [OF x] by (auto simp: accepted_def m_def word_less_nat_alt)
  moreover have "ring_ok (r\<lparr>rb_data := ?n, rb_size := of_nat (total_size ?n)\<rparr>)"
    using ok True small set_newest [of m "rb_data r @ [x]"]
    by (auto simp: ring_ok_def accepted_def m_def unat_of_nat take_bit_nat_eq_self)
  ultimately show ?thesis using True ev by (auto simp: ring_append_def append_status_def accepted_def)
qed

fun ring_feed :: "byte list list \<Rightarrow> Ringbuffer \<Rightarrow> (AppendStatus list \<times> Ringbuffer) option" where
  "ring_feed [] r = Some ([], r)"
| "ring_feed (x # xs) r =
     (case ring_append x r of None \<Rightarrow> None
      | Some (st, r') \<Rightarrow> (case ring_feed xs r' of None \<Rightarrow> None | Some (sts, r'') \<Rightarrow> Some (st # sts, r'')))"

lemma ring_feed_newest:
  assumes "ring_ok r" and "\<forall>x\<in>set xs. length x < 2 ^ 64"
  shows "\<exists>r'. ring_feed xs r = Some (map (append_status (unat (rb_maxSize r))) xs, r') \<and> ring_ok r' \<and>
    rb_maxSize r' = rb_maxSize r \<and>
    rb_data r' = newest (unat (rb_maxSize r)) (rb_data r @ filter (accepted (unat (rb_maxSize r))) xs)"
  using assms
proof (induction xs arbitrary: r)
  case Nil
  then show ?case by (simp add: ring_ok_def newest_fits)
next
  case (Cons x xs)
  define m where "m = unat (rb_maxSize r)"
  obtain r1 where r1: "ring_append x r = Some (append_status m x, r1)" "ring_ok r1"
    "rb_maxSize r1 = rb_maxSize r"
    "rb_data r1 = (if accepted m x then newest m (rb_data r @ [x]) else rb_data r)"
    using ring_append_newest [of r x] Cons.prems unfolding m_def by auto
  obtain r2 where r2: "ring_feed xs r1 = Some (map (append_status m) xs, r2)" "ring_ok r2"
    "rb_maxSize r2 = rb_maxSize r" "rb_data r2 = newest m (rb_data r1 @ filter (accepted m) xs)"
    using Cons.IH [of r1] Cons.prems r1 unfolding m_def by auto
  have absorb: "newest m (newest m bs @ cs) = newest m (bs @ cs)" for bs cs
  proof (induction cs rule: rev_induct)
    case Nil
    then show ?case by (simp add: newest_fits total_newest)
  next
    case (snoc c cs)
    then show ?case by (metis append.assoc newest_snoc)
  qed
  have "rb_data r2 = newest m (rb_data r @ filter (accepted m) (x # xs))"
    using r2(4) r1(4) absorb [of "rb_data r @ [x]" "filter (accepted m) xs"] by simp
  then show ?case using r1 r2 by (auto simp flip: m_def)
qed

text \<open>
  C35. However many messages are appended to a new ring buffer of less than two to the 63 bytes, no
  append fails other than for an empty or an oversized message, the buffer is never found
  corrupted, and it holds exactly the newest accepted messages: dropping the older ones made it
  fit, and the newest of the dropped ones would not fit any more.
\<close>

theorem ring_keeps_newest:
  assumes "unat m < 2 ^ 63" and "\<forall>x\<in>set xs. length x < 2 ^ 64"
  shows "\<exists>r older. ring_feed xs (new_Ringbuffer m) = Some (map (append_status (unat m)) xs, r) \<and>
    filter (accepted (unat m)) xs = older @ rb_data r \<and>
    total_size (rb_data r) \<le> unat m \<and> unat (rb_size r) = total_size (rb_data r) \<and>
    (older \<noteq> [] \<longrightarrow> unat m < total_size (last older # rb_data r))"
proof -
  have "ring_ok (new_Ringbuffer m)" using assms(1) by (simp add: ring_ok_def new_Ringbuffer_def)
  from ring_feed_newest [OF this assms(2)] obtain r where r:
    "ring_feed xs (new_Ringbuffer m) = Some (map (append_status (unat m)) xs, r)" "ring_ok r"
    "rb_maxSize r = m" "rb_data r = newest (unat m) (filter (accepted (unat m)) xs)"
    by (auto simp: new_Ringbuffer_def)
  obtain older where "filter (accepted (unat m)) xs = older @ rb_data r"
    "older \<noteq> [] \<longrightarrow> unat m < total_size (last older # rb_data r)"
    using newest_longest [of "filter (accepted (unat m)) xs" "unat m"] unfolding r(4) by blast
  then show ?thesis using r by (auto simp: ring_ok_def)
qed

theorem ring_keeps_newest_witness:
  "\<exists>r older. ring_feed [[1, 2], [], [3, 4, 5, 6, 7], [8], [9, 10]] (new_Ringbuffer 4) =
      Some (map (append_status (unat (4 :: u64))) [[1, 2], [], [3, 4, 5, 6, 7], [8], [9, 10]], r) \<and>
    filter (accepted (unat (4 :: u64))) [[1, 2], [], [3, 4, 5, 6, 7], [8], [9, 10]] = older @ rb_data r \<and>
    total_size (rb_data r) \<le> unat (4 :: u64) \<and> unat (rb_size r) = total_size (rb_data r) \<and>
    (older \<noteq> [] \<longrightarrow> unat (4 :: u64) < total_size (last older # rb_data r))"
  using ring_keeps_newest [of 4 "[[1, 2], [], [3, 4, 5, 6, 7], [8], [9, 10]]"] by simp

section \<open>Logging and flushing\<close>

fun log_run :: "flush_env \<Rightarrow> (string \<times> byte list) list \<Rightarrow> ring_map \<Rightarrow> (ring_map \<times> dump_file list) option" where
  "log_run env [] m = Some (m, [])"
| "log_run env (e # es) m =
     (case on_ring_buffer_data env True (fst e) (snd e) m of
        None \<Rightarrow> None
      | Some (m', fs) \<Rightarrow> map_option (apsnd (append fs)) (log_run env es m'))"

definition logged :: "string \<Rightarrow> (string \<times> byte list) list \<Rightarrow> byte list list" where
  "logged name es = map snd (filter (\<lambda>e. fst e = name) es)"

definition ring_after :: "byte list list \<Rightarrow> Ringbuffer \<Rightarrow> Ringbuffer" where
  "ring_after xs r = snd (the (ring_feed xs r))"

lemma map_put_present:
  "ordered m \<Longrightarrow> map_of m k = Some v \<Longrightarrow> map_put k w m = map (\<lambda>(n, r). (n, if n = k then w else r)) m"
proof (induction m)
  case (Cons e m)
  obtain a b where e: "e = (a, b)" by (cases e)
  show ?case
  proof (cases "a = k")
    case True
    have "n \<noteq> k" if "(n, r) \<in> set m" for n r using Cons.prems(1) that True by (force simp: e)
    then have "map (\<lambda>(n, r). (n, if n = k then w else r)) m = m" by (intro map_idI) auto
    then show ?thesis using True by (simp add: e)
  next
    case False
    then have "map_of m k = Some v" using Cons.prems(2) by (simp add: e)
    moreover from this have "a < k" using Cons.prems(1) by (force simp: e dest!: map_of_SomeD)
    ultimately show ?thesis using Cons False by (simp add: e)
  qed
qed simp

definition rings_ok :: "ring_map \<Rightarrow> bool" where
  "rings_ok m \<longleftrightarrow> ordered m \<and> (\<forall>(n, r)\<in>set m. ring_ok r \<and> rb_maxSize r = kMaxBufferSizeBytes)"

lemma ring_after_append:
  assumes "ring_ok r" and "length x < 2 ^ 64" and "ring_append x r = Some (st, r')"
    and "\<forall>x\<in>set xs. length x < 2 ^ 64"
  shows "ring_after xs r' = ring_after (x # xs) r"
proof -
  have "ring_ok r'" using ring_append_newest [OF assms(1,2)] assms(3) by auto
  from ring_feed_newest [OF this assms(4)] show ?thesis using assms(3) by (auto simp: ring_after_def)
qed

lemma log_run_rings:
  assumes "rings_ok m" and "\<forall>e\<in>set es. length (snd e) < 2 ^ 64"
  shows "log_run env es m = Some (map (\<lambda>(n, r). (n, ring_after (logged n es) r)) m, [])"
  using assms
proof (induction es arbitrary: m)
  case Nil
  then show ?case by (simp add: logged_def ring_after_def case_prod_unfold)
next
  case (Cons e es)
  obtain k x where e: "e = (k, x)" by (cases e)
  have xs: "\<forall>x\<in>set (logged n es). length x < 2 ^ 64" for n
    using Cons.prems(2) by (auto simp: logged_def)
  show ?case
  proof (cases "map_of m k")
    case None
    then have "k \<notin> fst ` set m" by (simp add: map_of_eq_None_iff)
    then have "map (\<lambda>(n, r). (n, ring_after (logged n es) r)) m = map (\<lambda>(n, r). (n, ring_after (logged n (e # es)) r)) m"
      by (auto simp: logged_def e image_iff)
    then show ?thesis using Cons.IH [OF Cons.prems(1)] Cons.prems(2) None
      by (simp add: on_ring_buffer_data_def e)
  next
    case (Some r)
    then have r: "ring_ok r" "rb_maxSize r = kMaxBufferSizeBytes"
      using Cons.prems(1) by (auto simp: rings_ok_def dest!: map_of_SomeD)
    have x: "length x < 2 ^ 64" using Cons.prems(2) by (simp add: e)
    obtain r' where r': "ring_append x r = Some (append_status (unat kMaxBufferSizeBytes) x, r')"
      "ring_ok r'" "rb_maxSize r' = kMaxBufferSizeBytes"
      using ring_append_newest [OF r(1) x] r(2) by auto
    define m' where "m' = map_put k r' m"
    have m': "m' = map (\<lambda>(n, q). (n, if n = k then r' else q)) m"
      unfolding m'_def using Cons.prems(1) Some by (intro map_put_present) (auto simp: rings_ok_def)
    have ok: "rings_ok m'" using Cons.prems(1) r' unfolding m' rings_ok_def ordered_def
      by (auto simp: case_prod_unfold comp_def)
    have "append_status (unat kMaxBufferSizeBytes) x \<noteq> FAIL_RING_BUFFER_CORRUPTED"
      by (simp add: append_status_def)
    then have step: "on_ring_buffer_data env True k x m = Some (m', [])"
      using Some r'(1) by (simp add: on_ring_buffer_data_def m'_def Let_def)
    have uniq: "(k, q) \<in> set m \<Longrightarrow> q = r" for q
      using Cons.prems(1) Some by (metis map_of_eq_Some_iff option.inject ordered_distinct rings_ok_def)
    have "ring_after (logged n es) (if n = k then r' else q) = ring_after (logged n (e # es)) q"
      if "(n, q) \<in> set m" for n q
      using that uniq ring_after_append [OF r(1) x r'(1) xs [of k]] by (auto simp: logged_def e)
    then have "map (\<lambda>(n, q). (n, ring_after (logged n es) q)) m' =
        map (\<lambda>(n, q). (n, ring_after (logged n (e # es)) q)) m"
      unfolding m' by auto
    then show ?thesis using step Cons.IH [OF ok] Cons.prems(2) by (simp add: e)
  qed
qed

lemma rings_ok_new: "rings_ok (fold add_ring names [])"
proof -
  have "rings_ok (fold add_ring names m)" if "rings_ok m" for m
    using that
  proof (induction names arbitrary: m)
    case (Cons n names)
    have "rings_ok (add_ring n m)"
      using Cons.prems unfolding add_ring_def rings_ok_def
      by (auto simp: ordered_map_put ring_ok_def new_Ringbuffer_def kMaxBufferSizeBytes_def dest!: set_map_put)
    then show ?case using Cons.IH by simp
  qed simp
  from this [of "[]"] show ?thesis by (simp add: rings_ok_def [of "[]"])
qed

lemma rings_new:
  "(n, r) \<in> set (fold add_ring names []) \<Longrightarrow> r = new_Ringbuffer kMaxBufferSizeBytes"
proof -
  have "\<forall>(n, r)\<in>set (fold add_ring names m). r = new_Ringbuffer kMaxBufferSizeBytes"
    if "\<forall>(n, r)\<in>set m. r = new_Ringbuffer kMaxBufferSizeBytes" for m
    using that
  proof (induction names arbitrary: m)
    case (Cons n names)
    have "\<forall>(n, r)\<in>set (add_ring n m). r = new_Ringbuffer kMaxBufferSizeBytes"
      using Cons.prems by (auto simp: add_ring_def dest!: set_map_put)
    then show ?case using Cons.IH by simp
  qed simp
  from this [of "[]"] show "(n, r) \<in> set (fold add_ring names []) \<Longrightarrow> ?thesis" by auto
qed

lemma all_same: "\<forall>(n, r)\<in>set m. r = c \<Longrightarrow> m = map (\<lambda>n. (n, c)) (map fst m)"
  by (induction m) auto

lemma write_blocks_all:
  "\<forall>b\<in>set bs. b \<noteq> [] \<and> length b \<le> unat kMaxBufferSizeBytes \<and> ok b \<Longrightarrow> write_blocks ok bs = bs"
proof (induction bs)
  case (Cons b bs)
  have "unat (vec_size b) = length b"
    using Cons.prems unat_u64 [of kMaxBufferSizeBytes] by (intro unat_vec_size) auto
  then show ?case using Cons by (auto simp: word_le_nat_alt word_less_nat_alt)
qed simp

definition dump_path :: "string \<Rightarrow> string" where
  "dump_path name = kTombstoneFolderPath @ name @ ''XXXXXXXXXX''"

lemma write_rings_all:
  assumes "\<forall>(n, r)\<in>set m. ring_ok r \<and> rb_maxSize r = kMaxBufferSizeBytes"
    and "\<And>p. mkstemp_ok env p" and "\<And>b. write_ok env b"
  shows "write_rings env m =
    (True, map (\<lambda>(n, r). (n, ring_clear r)) m,
     map (\<lambda>(n, r). (dump_path n, rb_data r)) (filter (\<lambda>(n, r). rb_data r \<noteq> []) m))"
  using assms(1)
proof (induction m)
  case (Cons e m)
  obtain n r where e: "e = (n, r)" by (cases e)
  have r: "ring_ok r" "rb_maxSize r = kMaxBufferSizeBytes" using Cons.prems by (auto simp: e)
  show ?case
  proof (cases "rb_data r = []")
    case True
    then have "ring_clear r = r" using r by (cases r) (simp add: ring_clear_def ring_ok_def unat_eq_zero)
    then show ?thesis using Cons True by (simp add: e)
  next
    case False
    have "write_blocks (write_ok env) (rb_data r) = rb_data r"
      using r in_total_size [of _ "rb_data r"] assms(3)
      by (intro write_blocks_all) (auto simp: ring_ok_def intro: le_trans)
    then show ?thesis using Cons False assms(2) by (simp add: e dump_path_def)
  qed
qed simp

lemma ring_after_new:
  assumes "\<forall>x\<in>set xs. length x < 2 ^ 64"
  defines "r \<equiv> ring_after xs (new_Ringbuffer kMaxBufferSizeBytes)"
  shows "ring_ok r" "rb_maxSize r = kMaxBufferSizeBytes"
    "rb_data r = newest (unat kMaxBufferSizeBytes) (filter (accepted (unat kMaxBufferSizeBytes)) xs)"
proof -
  have "ring_ok (new_Ringbuffer kMaxBufferSizeBytes)"
    by (simp add: ring_ok_def new_Ringbuffer_def kMaxBufferSizeBytes_def)
  from ring_feed_newest [OF this assms(1)]
  show "ring_ok r" "rb_maxSize r = kMaxBufferSizeBytes"
    "rb_data r = newest (unat kMaxBufferSizeBytes) (filter (accepted (unat kMaxBufferSizeBytes)) xs)"
    by (auto simp: r_def ring_after_def new_Ringbuffer_def)
qed


definition ex_flush :: flush_env where
  "ex_flush = \<lparr>flush_now = 0, flush_dir = Some [], unlinks = (\<lambda>p. True),
     mkstemp_ok = (\<lambda>p. True), write_ok = (\<lambda>b. True)\<rparr>"


section \<open>Old files\<close>

definition old_count :: "int \<Rightarrow> (int \<times> string) list \<Rightarrow> nat" where
  "old_count before fs = length (filter (\<lambda>f. fst f < before) fs)"

lemma old_count_sort [simp]: "old_count before (sort fs) = old_count before fs"
  by (simp add: old_count_def filter_sort)

lemma unlink_loop_sorted:
  assumes "sorted fs" and "length fs = n"
  shows "unlink_loop ok before n fs =
    (let gone = take (max (n - kMaxRingBufferFileNum) (old_count before fs)) fs
     in (list_all (\<lambda>f. ok (snd f)) gone, map snd gone))"
  using assms
proof (induction fs arbitrary: n)
  case (Cons f fs)
  show ?case
  proof (cases "kMaxRingBufferFileNum < n \<or> fst f < before")
    case True
    have "old_count before (f # fs) = (if fst f < before then Suc (old_count before fs) else 0)"
    proof (cases "fst f < before")
      case False
      have "\<not> fst g < before" if "g \<in> set fs" for g
        using Cons.prems(1) that False by (auto simp: less_eq_prod_def)
      then show ?thesis using False by (simp add: old_count_def filter_empty_conv)
    qed (simp add: old_count_def)
    moreover have "\<not> fst f < before \<Longrightarrow> old_count before fs = 0"
      using Cons.prems(1) by (auto simp: old_count_def filter_empty_conv less_eq_prod_def)
    ultimately have "max (n - kMaxRingBufferFileNum) (old_count before (f # fs)) =
        Suc (max (n - 1 - kMaxRingBufferFileNum) (old_count before fs))"
      using True by (cases "fst f < before") auto
    then show ?thesis using True Cons.IH [of "n - 1"] Cons.prems by (simp add: Let_def)
  next
    case False
    then have "old_count before (f # fs) = 0"
      using Cons.prems(1) by (auto simp: old_count_def filter_empty_conv less_eq_prod_def)
    then show ?thesis using False by simp
  qed
qed simp

text \<open>
  C38. Removing old files takes the files in the order of their times, from the oldest: when the
  directory can be read, the files it tries to remove are the oldest ones, as many as exceed twenty
  or are older than ten hours, whichever is more. It succeeds when all could be examined and removed;
  then at most twenty files are left and none of them is older than ten hours.
\<close>

theorem old_files_removed:
  fixes es :: "dir_entry list" and now :: int
  defines "fs \<equiv> snd (list_files es)" and "limit \<equiv> now - kMaxRingBufferFileAgeSeconds"
  defines "k \<equiv> max (length fs - kMaxRingBufferFileNum) (old_count limit fs)"
  shows "removeOldFilesInternal now (Some es) ok =
      (fst (list_files es) \<and> list_all (\<lambda>f. ok (snd f)) (take k (sort fs)), map snd (take k (sort fs))) \<and>
    length (drop k (sort fs)) \<le> kMaxRingBufferFileNum \<and>
    (\<forall>f\<in>set (drop k (sort fs)). limit \<le> fst f \<and> (\<forall>g\<in>set (take k (sort fs)). g \<le> f))"
proof (intro conjI)
  show "removeOldFilesInternal now (Some es) ok =
      (fst (list_files es) \<and> list_all (\<lambda>f. ok (snd f)) (take k (sort fs)), map snd (take k (sort fs)))"
    unfolding removeOldFilesInternal_def
    using unlink_loop_sorted [of "sort fs" "length fs" ok limit]
    by (simp add: fs_def limit_def k_def Let_def case_prod_unfold)
  show "length (drop k (sort fs)) \<le> kMaxRingBufferFileNum" by (simp add: k_def)
  have sorted: "sorted (take k (sort fs) @ drop k (sort fs))" by simp
  show "\<forall>f\<in>set (drop k (sort fs)). limit \<le> fst f \<and> (\<forall>g\<in>set (take k (sort fs)). g \<le> f)"
  proof (intro ballI conjI)
    fix f assume f: "f \<in> set (drop k (sort fs))"
    show "g \<le> f" if "g \<in> set (take k (sort fs))" for g
      using sorted f that unfolding sorted_append by blast
    show "limit \<le> fst f"
    proof (rule ccontr)
      assume "\<not> limit \<le> fst f"
      then have "\<forall>g\<in>set (take k (sort fs)). fst g < limit"
        using sorted f unfolding sorted_append by (fastforce simp: less_eq_prod_def)
      then have "filter (\<lambda>g. fst g < limit) (take k (sort fs)) = take k (sort fs)" by (simp add: filter_id_conv)
      moreover have "0 < length (filter (\<lambda>g. fst g < limit) (drop k (sort fs)))"
        using f \<open>\<not> limit \<le> fst f\<close> by (force simp: filter_empty_conv not_le)
      ultimately have "min (length fs) k < old_count limit (sort fs)"
        unfolding old_count_def by (subst append_take_drop_id [of k "sort fs", symmetric], subst filter_append) simp
      moreover have "old_count limit fs \<le> k" "old_count limit fs \<le> length fs"
        by (simp_all add: k_def old_count_def)
      ultimately show False by simp
    qed
  qed
qed

definition ex_dir :: "dir_entry list" where
  "ex_dir = [\<lparr>d_name = ''b'', d_regular = True, d_stat = Some 40000\<rparr>,
    \<lparr>d_name = ''sub'', d_regular = False, d_stat = Some 1\<rparr>,
    \<lparr>d_name = ''a'', d_regular = True, d_stat = Some 7\<rparr>]"

theorem old_files_removed_witness:
  "removeOldFilesInternal 50000 (Some ex_dir) (\<lambda>p. True) = (True, [kTombstoneFolderPath @ ''a''])"
proof -
  have fs: "list_files ex_dir = (True, [(40000, kTombstoneFolderPath @ ''b''), (7, kTombstoneFolderPath @ ''a'')])"
    by (simp add: ex_dir_def)
  have "max (length (snd (list_files ex_dir)) - kMaxRingBufferFileNum)
      (old_count (50000 - kMaxRingBufferFileAgeSeconds) (snd (list_files ex_dir))) = 1"
    by (simp add: fs old_count_def kMaxRingBufferFileNum_def kMaxRingBufferFileAgeSeconds_def)
  moreover have "take 1 (sort (snd (list_files ex_dir))) = [(7, kTombstoneFolderPath @ ''a'')]" by (simp add: fs)
  ultimately show ?thesis
    using old_files_removed [of 50000 ex_dir "\<lambda>p. True"] by (simp add: fs)
qed

end
