(* ===== verification/Wifi_Cpio.thy ===== *)
theory Wifi_Cpio
  imports Std_Text
begin

text \<open>
  The cpio archive of the tombstone files that a dump of the Wi-Fi chip writes
  (\<^verbatim>\<open>cpioWriteHeader\<close>, \<^verbatim>\<open>cpioWriteFileContent\<close>, \<^verbatim>\<open>cpioWriteFileTrailer\<close>,
  \<^verbatim>\<open>cpioArchiveFilesInDir\<close> of wifi/wifi_chip.cpp), and a reader of that format as its
  specification. Every call of write and read is answered by a parameter: \<open>wr\<close> gives, for what
  was written before and the bytes of the call, the number of bytes accepted or an error, and
  \<open>rd\<close> the number of bytes delivered when so many bytes are left.
\<close>

section \<open>Numbers and padding\<close>

definition bytes_of :: "string \<Rightarrow> byte list" where
  "bytes_of s = map of_char s"

definition hex_digit :: "u32 \<Rightarrow> byte" where
  "hex_digit d = (if d < 10 then ucast d + 48 else ucast d + 55)"

definition hex8 :: "u32 \<Rightarrow> byte list" where
  "hex8 w = map (\<lambda>i. hex_digit (drop_bit (28 - 4 * i) w AND 15)) [0..<8]"

definition kCpioMagic :: "byte list" where
  "kCpioMagic = bytes_of ''070701''"

record file_stat =
  st_ino :: u64
  st_mode :: u32
  st_uid :: u32
  st_gid :: u32
  st_nlink :: u64
  st_mtime :: int
  st_size :: int
  st_dev :: "u32 \<times> u32"
  st_rdev :: "u32 \<times> u32"

section \<open>Writing an archive\<close>

type_synonym writer = "byte list \<Rightarrow> byte list \<Rightarrow> nat option"

definition write_fd :: "writer \<Rightarrow> byte list \<Rightarrow> byte list \<Rightarrow> byte list option" where
  "write_fd wr bs out = map_option (\<lambda>n. out @ take n bs) (wr out bs)"

definition header_line :: "file_stat \<Rightarrow> nat \<Rightarrow> byte list" where
  "header_line st file_name_len =
     kCpioMagic @ hex8 (ucast (st_ino st)) @ hex8 (st_mode st) @ hex8 (st_uid st) @ hex8 (st_gid st) @
     hex8 (ucast (st_nlink st)) @ hex8 (of_int (st_mtime st)) @ hex8 (of_int (st_size st)) @
     hex8 (fst (st_dev st)) @ hex8 (snd (st_dev st)) @ hex8 (fst (st_rdev st)) @ hex8 (snd (st_rdev st)) @
     hex8 (of_nat file_name_len) @ hex8 0"

definition zero_pad :: "nat \<Rightarrow> byte list" where
  "zero_pad llen = (if llen mod 4 \<noteq> 0 then replicate (4 - llen mod 4) 0 else [])"

definition pad_write :: "writer \<Rightarrow> nat \<Rightarrow> byte list \<Rightarrow> byte list option" where
  "pad_write wr llen out = (if llen mod 4 \<noteq> 0 then write_fd wr (zero_pad llen) out else Some out)"

definition cpioWriteHeader :: "writer \<Rightarrow> file_stat \<Rightarrow> byte list \<Rightarrow> byte list \<Rightarrow> bool \<times> byte list" where
  "cpioWriteHeader wr st file_name out =
     (let len = length file_name + 1; line = header_line st len in
      case write_fd wr line out of
        None \<Rightarrow> (False, out)
      | Some out1 \<Rightarrow>
          (case write_fd wr (file_name @ [0]) out1 of
             None \<Rightarrow> (False, out1)
           | Some out2 \<Rightarrow>
               (case pad_write wr (length line + len) out2 of
                  None \<Rightarrow> (False, out2)
                | Some out3 \<Rightarrow> (True, out3))))"

text \<open>The loop of \<^verbatim>\<open>cpioWriteFileContent\<close>: \<open>llen\<close> is what is left to copy, \<open>rest\<close> what is left of
  the file; the result is the number of errors, whether the function returned from the loop, and the
  output.\<close>

definition CPIO_READ_SIZE :: nat where "CPIO_READ_SIZE = 32 * 1024"

function copy_loop ::
  "(nat \<Rightarrow> nat option) \<Rightarrow> writer \<Rightarrow> int \<Rightarrow> byte list \<Rightarrow> byte list \<Rightarrow> nat \<times> bool \<times> byte list" where
  "copy_loop rd wr llen rest out =
     (if llen \<le> 0 then (0, False, out)
      else case rd (length rest) of
        None \<Rightarrow> (1, True, out)
      | Some n \<Rightarrow>
          (let chunk = take (min n CPIO_READ_SIZE) rest in
           case write_fd wr chunk out of
             None \<Rightarrow> (1, True, out)
           | Some out' \<Rightarrow>
               if chunk = [] then (1, False, out')
               else copy_loop rd wr (llen - int (length chunk)) (drop (length chunk) rest) out'))"
  by auto
termination by (relation "measure (\<lambda>(rd, wr, llen, rest, out). length rest)") auto

declare copy_loop.simps [simp del]

definition cpioWriteFileContent ::
  "(nat \<Rightarrow> nat option) \<Rightarrow> writer \<Rightarrow> file_stat \<Rightarrow> byte list \<Rightarrow> byte list \<Rightarrow> nat \<times> byte list" where
  "cpioWriteFileContent rd wr st content out =
     (let (n_error, returned, out1) = copy_loop rd wr (st_size st) content out in
      if returned then (n_error, out1)
      else case pad_write wr (nat (st_size st)) out1 of
             None \<Rightarrow> (n_error + 1, out1)
           | Some out2 \<Rightarrow> (n_error, out2))"

definition trailer_line :: "byte list" where
  "trailer_line = bytes_of ''070701'' @ replicate 39 48 @ [49] @ replicate 55 48 @ [66] @
     replicate 8 48 @ bytes_of ''TRAILER!!!''"

definition cpioWriteFileTrailer :: "writer \<Rightarrow> byte list \<Rightarrow> bool \<times> byte list" where
  "cpioWriteFileTrailer wr out =
     (case write_fd wr (trailer_line @ replicate 4 0) out of
        None \<Rightarrow> (False, out) | Some out' \<Rightarrow> (True, out'))"

record tomb_file =
  tf_name :: string
  tf_regular :: bool
  tf_stat :: "file_stat option"
  tf_content :: "byte list option"

definition archive_name :: "tomb_file \<Rightarrow> file_stat \<Rightarrow> byte list" where
  "archive_name f st = bytes_of (tf_name f @ ''-'' @ dec_string (st_mtime st))"

fun archive_loop ::
  "(nat \<Rightarrow> nat option) \<Rightarrow> writer \<Rightarrow> tomb_file list \<Rightarrow> nat \<Rightarrow> byte list \<Rightarrow> nat \<times> byte list" where
  "archive_loop rd wr [] n_error out =
     (case cpioWriteFileTrailer wr out of (ok, out') \<Rightarrow> (if ok then n_error else n_error + 1, out'))"
| "archive_loop rd wr (f # fs) n_error out =
     (if \<not> tf_regular f then archive_loop rd wr fs n_error out
      else case tf_stat f of
        None \<Rightarrow> archive_loop rd wr fs (n_error + 1) out
      | Some st \<Rightarrow>
          (case tf_content f of
             None \<Rightarrow> archive_loop rd wr fs (n_error + 1) out
           | Some content \<Rightarrow>
               (case cpioWriteHeader wr st (archive_name f st) out of
                  (False, out1) \<Rightarrow> (n_error + 1, out1)
                | (True, out1) \<Rightarrow>
                    (case cpioWriteFileContent rd wr st content out1 of
                       (write_error, out2) \<Rightarrow>
                         if write_error \<noteq> 0 then (n_error + write_error, out2)
                         else archive_loop rd wr fs n_error out2))))"

definition cpioArchiveFilesInDir ::
  "(nat \<Rightarrow> nat option) \<Rightarrow> writer \<Rightarrow> tomb_file list option \<Rightarrow> byte list \<Rightarrow> nat \<times> byte list" where
  "cpioArchiveFilesInDir rd wr dir out =
     (case dir of None \<Rightarrow> (1, out) | Some fs \<Rightarrow> archive_loop rd wr fs 0 out)"

section \<open>Reading an archive\<close>

text \<open>The format: a magic number, thirteen fields of eight hexadecimal digits, the name with its
  terminating zero, and the content, the latter two padded to a multiple of four bytes.\<close>

definition hex_value :: "byte \<Rightarrow> u32" where
  "hex_value b = (if b < 58 then ucast (b - 48) else ucast (b - 55))"

definition field :: "nat \<Rightarrow> byte list \<Rightarrow> u32" where
  "field i bs = foldl (\<lambda>v b. 16 * v + hex_value b) 0 (take 8 (drop (6 + 8 * i) bs))"

definition pad_len :: "nat \<Rightarrow> nat" where
  "pad_len n = (4 - n mod 4) mod 4"

definition read_entry :: "byte list \<Rightarrow> (byte list \<times> byte list \<times> byte list) option" where
  "read_entry bs =
     (if length bs < 110 \<or> take 6 bs \<noteq> kCpioMagic then None
      else let namesize = unat (field 11 bs); filesize = unat (field 6 bs);
               after_name = drop (110 + namesize + pad_len (110 + namesize)) bs
           in if namesize = 0 \<or> length bs < 110 + namesize \<or> length after_name < filesize then None
              else Some (take (namesize - 1) (drop 110 bs), take filesize after_name,
                         drop (filesize + pad_len filesize) after_name))"

fun read_archive :: "nat \<Rightarrow> byte list \<Rightarrow> (byte list \<times> byte list) list option" where
  "read_archive 0 bs = None"
| "read_archive (Suc k) bs =
     (case read_entry bs of
        None \<Rightarrow> None
      | Some (name, content, rest) \<Rightarrow>
          if name = bytes_of ''TRAILER!!!'' then Some []
          else map_option (Cons (name, content)) (read_archive k rest))"

end
