(* ===== verification/Wifi_Cpio_Properties.thy ===== *)
theory Wifi_Cpio_Properties
  imports Wifi_Cpio
begin

text \<open>
  What the archiver writes is read back by the reader of the format: the names with their times and
  the contents of all regular files, in the order of the directory, for every way in which the reads
  are split.
\<close>

section \<open>Hexadecimal fields\<close>

lemma hex_digit_value: "d < 16 \<Longrightarrow> hex_value (hex_digit d) = d"
proof -
  assume "d < 16"
  then have "unat d < 16" by (simp add: word_less_nat_alt)
  moreover have "\<forall>n\<in>set [0..<16]. hex_value (hex_digit (of_nat n)) = of_nat n" by code_simp
  ultimately have "hex_value (hex_digit (of_nat (unat d))) = of_nat (unat d)" by (metis atLeastLessThan_iff le0 set_upt)
  then show ?thesis by simp
qed

lemma nibble_step: "16 * drop_bit (4 + n) w + (drop_bit n w AND 15) = drop_bit n (w :: u32)"
proof -
  have "push_bit 4 (drop_bit 4 (drop_bit n w)) + take_bit 4 (drop_bit n w) = drop_bit n w"
    by (rule bits_ident)
  moreover have "take_bit 4 (drop_bit n w) = drop_bit n w AND 15"
    by (simp add: take_bit_eq_mask mask_eq_exp_minus_1)
  ultimately show ?thesis by (simp add: push_bit_eq_mult drop_bit_drop_bit mult.commute)
qed

lemma nibble_less: "(v :: u32) AND 15 < 16"
  using word_and_le1 [of v 15] by (simp add: word_le_nat_alt word_less_nat_alt)

lemma hex8_prefix:
  "k \<le> 8 \<Longrightarrow> foldl (\<lambda>v b. 16 * v + hex_value b) 0
     (map (\<lambda>i. hex_digit (drop_bit (28 - 4 * i) w AND 15)) [0..<k]) = drop_bit (32 - 4 * k) (w :: u32)"
proof (induction k)
  case 0
  show ?case by (rule bit_word_eqI) (simp add: bit_drop_bit_eq)
next
  case (Suc k)
  have "32 - 4 * k = 4 + (28 - 4 * k)" "32 - 4 * Suc k = 28 - 4 * k" using Suc.prems by auto
  then show ?case using Suc nibble_step [of "28 - 4 * k" w] by (simp add: hex_digit_value nibble_less)
qed

lemma length_hex8 [simp]: "length (hex8 w) = 8"
  by (simp add: hex8_def)

lemma hex8_value: "foldl (\<lambda>v b. 16 * v + hex_value b) 0 (hex8 w) = w"
  using hex8_prefix [of 8 w] by (simp add: hex8_def)

lemma length_magic [simp]: "length kCpioMagic = 6"
  by (simp add: kCpioMagic_def bytes_of_def)

lemma length_header_line [simp]: "length (header_line st n) = 110"
  by (simp add: header_line_def)

lemma header_fields:
  "field 6 (header_line st n @ rest) = of_int (st_size st)"
  "field 11 (header_line st n @ rest) = of_nat n"
  by (simp_all add: field_def header_line_def hex8_value)

section \<open>One entry\<close>

lemma length_zero_pad [simp]: "length (zero_pad n) = pad_len n"
  by (auto simp: zero_pad_def pad_len_def)

definition entry_bytes :: "file_stat \<Rightarrow> byte list \<Rightarrow> byte list \<Rightarrow> byte list" where
  "entry_bytes st name content =
     header_line st (length name + 1) @ name @ [0] @ zero_pad (110 + (length name + 1)) @
     content @ zero_pad (length content)"

lemma read_entry_bytes:
  assumes "st_size st = int (length content)" and "length content < 2 ^ 32" and "length name + 1 < 2 ^ 32"
  shows "read_entry (entry_bytes st name content @ rest) = Some (name, content, rest)"
proof -
  let ?n = "length name + 1" and ?bs = "entry_bytes st name content @ rest"
  have u: "k < 2 ^ 32 \<Longrightarrow> unat (of_nat k :: u32) = k" for k by (simp add: unat_of_nat take_bit_nat_eq_self)
  have f: "unat (field 6 ?bs) = length content" "unat (field 11 ?bs) = ?n"
    using assms(1) u [OF assms(2)] u [OF assms(3)] unfolding entry_bytes_def append.assoc header_fields
    by simp_all
  have m: "take 6 ?bs = kCpioMagic" by (simp add: entry_bytes_def header_line_def)
  have n: "drop 110 ?bs = name @ [0] @ zero_pad (110 + ?n) @ content @ zero_pad (length content) @ rest"
    by (simp add: entry_bytes_def)
  have "drop (110 + ?n + pad_len (110 + ?n)) ?bs = drop (?n + pad_len (110 + ?n)) (drop 110 ?bs)"
    unfolding drop_drop by (rule arg_cong2 [where f = drop]) simp_all
  also have "\<dots> = content @ zero_pad (length content) @ rest" unfolding n by (simp add: drop_Cons')
  finally have a: "drop (110 + ?n + pad_len (110 + ?n)) ?bs = content @ zero_pad (length content) @ rest" .
  have "length ?bs = 110 + length (drop 110 ?bs)" by (simp add: entry_bytes_def)
  then show ?thesis unfolding read_entry_def Let_def f a unfolding m n by (simp add: n)
qed

section \<open>The archiver\<close>

definition writes_all :: "writer \<Rightarrow> bool" where
  "writes_all wr \<longleftrightarrow> (\<forall>out bs. wr out bs = Some (length bs))"

definition reads_on :: "(nat \<Rightarrow> nat option) \<Rightarrow> bool" where
  "reads_on rd \<longleftrightarrow> (\<forall>left. \<exists>n. rd left = Some n \<and> (0 < left \<longrightarrow> 0 < n))"

lemma write_fd_all: "writes_all wr \<Longrightarrow> write_fd wr bs out = Some (out @ bs)"
  by (simp add: write_fd_def writes_all_def)

lemma pad_write_all: "writes_all wr \<Longrightarrow> pad_write wr n out = Some (out @ zero_pad n)"
  by (simp add: pad_write_def write_fd_all zero_pad_def)

lemma header_all:
  "writes_all wr \<Longrightarrow> cpioWriteHeader wr st name out =
     (True, out @ header_line st (length name + 1) @ name @ [0] @ zero_pad (110 + (length name + 1)))"
  by (simp add: cpioWriteHeader_def Let_def write_fd_all pad_write_all)

lemma copy_all:
  assumes "writes_all wr" and "reads_on rd"
  shows "copy_loop rd wr (int (length content)) content out = (0, False, out @ content)"
proof (induction "length content" arbitrary: content out rule: less_induct)
  case less
  show ?case
  proof (cases "content = []")
    case True
    then show ?thesis by (simp add: copy_loop.simps)
  next
    case False
    obtain n where n: "rd (length content) = Some n" "0 < n"
      using assms(2) False unfolding reads_on_def by (metis length_greater_0_conv)
    define chunk where "chunk = take (min n CPIO_READ_SIZE) content"
    have chunk: "chunk \<noteq> []" "chunk @ drop (length chunk) content = content" "length chunk \<le> length content"
      using n(2) False by (auto simp: chunk_def CPIO_READ_SIZE_def min_def)
    then have smaller: "length (drop (length chunk) content) < length content" by (cases chunk) auto
    have "int (length content) - int (length chunk) = int (length (drop (length chunk) content))"
      using chunk(3) by simp
    then show ?thesis
      using False n chunk less [OF smaller]
      by (subst copy_loop.simps) (simp add: Let_def write_fd_all assms(1) flip: chunk_def)
  qed
qed

lemma content_all:
  "writes_all wr \<Longrightarrow> reads_on rd \<Longrightarrow> st_size st = int (length content) \<Longrightarrow>
   cpioWriteFileContent rd wr st content out = (0, out @ content @ zero_pad (length content))"
  by (simp add: cpioWriteFileContent_def copy_all pad_write_all)

definition tomb_ok :: "tomb_file \<Rightarrow> bool" where
  "tomb_ok f = (\<not> tf_regular f \<or>
     (case (tf_stat f, tf_content f) of
        (Some st, Some c) \<Rightarrow> st_size st = int (length c) \<and> length c < 2 ^ 32 \<and>
                             length (archive_name f st) + 1 < 2 ^ 32
      | _ \<Rightarrow> False))"

definition archived :: "tomb_file list \<Rightarrow> (byte list \<times> byte list) list" where
  "archived fs = map (\<lambda>f. (archive_name f (the (tf_stat f)), the (tf_content f))) (filter tf_regular fs)"

definition archive_bytes :: "tomb_file list \<Rightarrow> byte list" where
  "archive_bytes fs = concat (map (\<lambda>f. entry_bytes (the (tf_stat f)) (archive_name f (the (tf_stat f)))
     (the (tf_content f))) (filter tf_regular fs)) @ trailer_line @ replicate 4 0"

lemma archive_loop_all:
  assumes "writes_all wr" and "reads_on rd"
  shows "list_all tomb_ok fs \<Longrightarrow> archive_loop rd wr fs n out = (n, out @ archive_bytes fs)"
proof (induction fs arbitrary: n out)
  case Nil
  then show ?case using assms by (simp add: cpioWriteFileTrailer_def write_fd_all archive_bytes_def)
next
  case (Cons f fs)
  show ?case
  proof (cases "tf_regular f")
    case True
    then obtain st c where f: "tf_stat f = Some st" "tf_content f = Some c" "st_size st = int (length c)"
      using Cons.prems by (auto simp: tomb_ok_def split: option.splits)
    then show ?thesis
      using Cons True assms
      by (simp add: header_all content_all archive_bytes_def entry_bytes_def)
  qed (use Cons in \<open>simp add: archive_bytes_def\<close>)
qed

lemma no_trailer_name: "archive_name f st \<noteq> bytes_of ''TRAILER!!!''"
proof -
  have "(45 :: byte) \<in> set (archive_name f st)" by (simp add: archive_name_def bytes_of_def)
  moreover have "(45 :: byte) \<notin> set (bytes_of ''TRAILER!!!'')" by code_simp
  ultimately show ?thesis by metis
qed

lemma read_trailer: "read_entry (trailer_line @ replicate 4 0) = Some (bytes_of ''TRAILER!!!'', [], [])"
  by code_simp

lemma read_archive_bytes:
  "list_all tomb_ok fs \<Longrightarrow> length fs < k \<Longrightarrow> read_archive k (archive_bytes fs) = Some (archived fs)"
proof (induction fs arbitrary: k)
  case Nil
  then show ?case by (cases k) (simp_all add: archive_bytes_def archived_def read_trailer)
next
  case (Cons f fs)
  obtain j where k: "k = Suc j" "length fs < j" using Cons.prems(2) by (cases k) auto
  show ?case
  proof (cases "tf_regular f")
    case True
    then obtain st c where f: "tf_stat f = Some st" "tf_content f = Some c" "st_size st = int (length c)"
      "length c < 2 ^ 32" "length (archive_name f st) + 1 < 2 ^ 32"
      using Cons.prems by (auto simp: tomb_ok_def split: option.splits)
    have "archive_bytes (f # fs) = entry_bytes st (archive_name f st) c @ archive_bytes fs"
      using True f by (simp add: archive_bytes_def)
    then show ?thesis
      using Cons.IH [of j] Cons.prems(1) k True f read_entry_bytes [OF f(3-5)]
      by (simp add: archived_def no_trailer_name)
  next
    case False
    then have "archive_bytes (f # fs) = archive_bytes fs" "archived (f # fs) = archived fs"
      by (simp_all add: archive_bytes_def archived_def)
    then show ?thesis using Cons.IH [of k] Cons.prems by simp
  qed
qed

text \<open>
  C36. With an output that accepts everything it is given, and reads that deliver at least one byte
  as long as there is one, in pieces of any size, archiving a directory whose regular files can be
  examined and opened, have the size they report and less than four gigabytes, reports no error and
  appends an archive to the output from which a reader of the format gets back exactly the regular
  files: their names with their times, and their contents, in the order of the directory.
\<close>

theorem archive_reads_back:
  assumes "writes_all wr" and "reads_on rd" and "list_all tomb_ok fs"
  shows "\<exists>ar. cpioArchiveFilesInDir rd wr (Some fs) out = (0, out @ ar) \<and>
    read_archive (Suc (length fs)) ar = Some (archived fs)"
  using archive_loop_all [OF assms(1,2,3)] read_archive_bytes [OF assms(3) lessI]
  by (simp add: cpioArchiveFilesInDir_def del: read_archive.simps)

definition ex_tombs :: "tomb_file list" where
  "ex_tombs =
     [\<lparr>tf_name = ''.'', tf_regular = False, tf_stat = None, tf_content = None\<rparr>,
      \<lparr>tf_name = ''fw'', tf_regular = True,
       tf_stat = Some \<lparr>st_ino = 1, st_mode = 0, st_uid = 0, st_gid = 0, st_nlink = 1, st_mtime = 77,
         st_size = 3, st_dev = (0, 0), st_rdev = (0, 0)\<rparr>,
       tf_content = Some [1, 2, 3]\<rparr>]"

theorem archive_reads_back_witness:
  "\<exists>ar. cpioArchiveFilesInDir (\<lambda>n. Some 2) (\<lambda>out bs. Some (length bs)) (Some ex_tombs) [] = (0, [] @ ar) \<and>
    read_archive (Suc (length ex_tombs)) ar = Some [(bytes_of ''fw-77'', [1, 2, 3])]"
proof -
  have "writes_all (\<lambda>out bs. Some (length bs))" "reads_on (\<lambda>n. Some 2)"
    by (simp_all add: writes_all_def reads_on_def)
  moreover have "list_all tomb_ok ex_tombs"
    by (simp add: ex_tombs_def tomb_ok_def archive_name_def bytes_of_def dec_string_def base_string.simps)
  moreover have "archived ex_tombs = [(bytes_of ''fw-77'', [1, 2, 3])]" by code_simp
  ultimately show ?thesis using archive_reads_back [of "\<lambda>out bs. Some (length bs)" "\<lambda>n. Some 2" ex_tombs "[]"]
    by metis
qed

end
