(* ===== verification/Wifi_Concurrency.thy ===== *)
theory Wifi_Concurrency
  imports Prelude
begin

text \<open>
  Which interfaces may exist together (wifi/wifi_chip.cpp and wifi/aidl_struct_util.cpp): the
  combinations of a chip mode, their expansion into numbers of interfaces per type, and the
  questions asked of the expansion. The arithmetic of the expansion is that of int32_t. A
  division by zero and a vector of negative size have the value None.
\<close>

datatype IfaceConcurrencyType = STA | AP | AP_BRIDGED | P2P | NAN_IFACE

record ChipConcurrencyCombinationLimit =
  types :: "IfaceConcurrencyType list"
  maxIfaces :: int

type_synonym ChipConcurrencyCombination = "ChipConcurrencyCombinationLimit list"

record ChipMode =
  mode_id :: int
  availableCombinations :: "ChipConcurrencyCombination list"

type_synonym combo = "IfaceConcurrencyType \<Rightarrow> nat"

section \<open>The matrix of the driver\<close>

record wifi_iface_limit =
  max_limit :: u32
  iface_mask :: u32

record wifi_iface_combination =
  max_ifaces :: u32
  iface_limits :: "wifi_iface_limit list"

definition convertLegacyIfaceMaskToIfaceConcurrencyType :: "u32 \<Rightarrow> IfaceConcurrencyType list option" where
  "convertLegacyIfaceMaskToIfaceConcurrencyType m =
     (if m = 0 then None
      else Some ((if bit m 0 then [STA] else []) @ (if bit m 1 then [AP] else []) @
                 (if bit m 4 then [AP_BRIDGED] else []) @ (if bit m 2 then [P2P] else []) @
                 (if bit m 3 then [NAN_IFACE] else [])))"

fun convert_limits :: "wifi_iface_limit list \<Rightarrow> ChipConcurrencyCombination option" where
  "convert_limits [] = Some []"
| "convert_limits (l # ls) =
     (case convertLegacyIfaceMaskToIfaceConcurrencyType (iface_mask l) of
        None \<Rightarrow> None
      | Some ts \<Rightarrow> map_option (Cons \<lparr>types = ts, maxIfaces = sint (max_limit l)\<rparr>) (convert_limits ls))"

fun convert_combinations :: "wifi_iface_combination list \<Rightarrow> ChipConcurrencyCombination list option" where
  "convert_combinations [] = Some []"
| "convert_combinations (c # cs) =
     (if iface_limits c = [] then convert_combinations cs
      else case convert_limits (iface_limits c) of
             None \<Rightarrow> None
           | Some ls \<Rightarrow> map_option (Cons ls) (convert_combinations cs))"

definition convertLegacyIfaceCombinationsMatrixToChipMode :: "wifi_iface_combination list \<Rightarrow> ChipMode option" where
  "convertLegacyIfaceCombinationsMatrixToChipMode matrix =
     (if matrix = [] then None
      else map_option (\<lambda>cs. \<lparr>mode_id = 0, availableCombinations = cs\<rparr>) (convert_combinations matrix))"

section \<open>Expansion of a combination\<close>

definition wrap32 :: "int \<Rightarrow> int" where
  "wrap32 v = sint (word_of_int v :: u32)"

fun mult_times :: "nat \<Rightarrow> int \<Rightarrow> int \<Rightarrow> int" where
  "mult_times 0 t n = n"
| "mult_times (Suc i) t n = mult_times i t (wrap32 (n * t))"

fun num_expanded_combos :: "int \<Rightarrow> ChipConcurrencyCombination \<Rightarrow> int" where
  "num_expanded_combos n [] = n"
| "num_expanded_combos n (l # ls) =
     num_expanded_combos (mult_times (nat (maxIfaces l)) (int (length (types l))) n) ls"

definition bump :: "IfaceConcurrencyType \<Rightarrow> combo \<Rightarrow> combo" where
  "bump t c = c(t := c t + 1)"

definition spread :: "IfaceConcurrencyType list \<Rightarrow> int \<Rightarrow> combo list \<Rightarrow> combo list" where
  "spread ts span cs = map (\<lambda>(k, c). bump (ts ! ((k div nat span) mod length ts)) c) (enumerate 0 cs)"

fun fill_limit :: "nat \<Rightarrow> IfaceConcurrencyType list \<Rightarrow> int \<times> combo list \<Rightarrow> (int \<times> combo list) option" where
  "fill_limit 0 ts s = Some s"
| "fill_limit (Suc i) ts (span, cs) =
     (if ts = [] then None
      else let span' = span div int (length ts)
           in if span' = 0 \<and> cs \<noteq> [] then None else fill_limit i ts (span', spread ts span' cs))"

fun fill_limits :: "ChipConcurrencyCombination \<Rightarrow> int \<times> combo list \<Rightarrow> (int \<times> combo list) option" where
  "fill_limits [] s = Some s"
| "fill_limits (l # ls) s = Option.bind (fill_limit (nat (maxIfaces l)) (types l) s) (fill_limits ls)"

definition expandConcurrencyCombinations :: "ChipConcurrencyCombination \<Rightarrow> combo list option" where
  "expandConcurrencyCombinations c =
     (let n = num_expanded_combos 1 c
      in if n < 0 then None
         else map_option snd (fill_limits c (n, replicate (nat n) (\<lambda>t. 0))))"

section \<open>Questions\<close>

definition all_types :: "IfaceConcurrencyType list" where
  "all_types = [AP, AP_BRIDGED, NAN_IFACE, P2P, STA]"

definition canExpandedConcurrencyComboSupportConcurrencyTypeWithCurrentTypes ::
  "combo \<Rightarrow> combo \<Rightarrow> IfaceConcurrencyType \<Rightarrow> bool" where
  "canExpandedConcurrencyComboSupportConcurrencyTypeWithCurrentTypes current_combo expanded_combo requested =
     list_all (\<lambda>t. current_combo t + (if t = requested then 1 else 0) \<le> expanded_combo t) all_types"

definition canExpandedConcurrencyComboSupportConcurrencyCombo ::
  "combo \<Rightarrow> (IfaceConcurrencyType \<rightharpoonup> nat) \<Rightarrow> bool" where
  "canExpandedConcurrencyComboSupportConcurrencyCombo expanded_combo req_combo =
     list_all (\<lambda>t. case req_combo t of None \<Rightarrow> True | Some n \<Rightarrow> n \<le> expanded_combo t) all_types"

fun any_combination :: "(combo \<Rightarrow> bool) \<Rightarrow> ChipConcurrencyCombination list \<Rightarrow> bool option" where
  "any_combination ok [] = Some False"
| "any_combination ok (c # cs) =
     (case expandConcurrencyCombinations c of
        None \<Rightarrow> None
      | Some es \<Rightarrow> if list_ex ok es then Some True else any_combination ok cs)"

section \<open>What a combination allows\<close>

text \<open>
  Specification: a combination offers one place for every interface that a limit allows, each for
  one of the types of the limit. Interfaces may exist together when the places can be given types
  that cover them.
\<close>

definition places :: "ChipConcurrencyCombination \<Rightarrow> IfaceConcurrencyType list list" where
  "places c = concat (map (\<lambda>l. replicate (nat (maxIfaces l)) (types l)) c)"

definition choice :: "IfaceConcurrencyType list \<Rightarrow> IfaceConcurrencyType list list \<Rightarrow> bool" where
  "choice ts ps \<longleftrightarrow> list_all2 (\<lambda>t p. t \<in> set p) ts ps"

definition allows :: "ChipConcurrencyCombination \<Rightarrow> combo \<Rightarrow> bool" where
  "allows c need \<longleftrightarrow> (\<exists>ts. choice ts (places c) \<and> (\<forall>t. need t \<le> count_list ts t))"

definition combination_ok :: "ChipConcurrencyCombination \<Rightarrow> bool" where
  "combination_ok c \<longleftrightarrow> [] \<notin> set (places c) \<and> prod_list (map length (places c)) < 2 ^ 31"

section \<open>Correctness of the expansion\<close>

abbreviation ways :: "IfaceConcurrencyType list list \<Rightarrow> nat" where
  "ways ps \<equiv> prod_list (map length ps)"

fun digits_of :: "IfaceConcurrencyType list list \<Rightarrow> nat \<Rightarrow> IfaceConcurrencyType list" where
  "digits_of [] k = []"
| "digits_of (p # ps) k = p ! ((k div ways ps) mod length p) # digits_of ps k"

lemma ways_pos: "[] \<notin> set ps \<Longrightarrow> 0 < ways ps"
  by (induction ps) auto

lemma digits_of_period: "[] \<notin> set ps \<Longrightarrow> digits_of ps (ways ps * q + k) = digits_of ps k"
proof (induction ps arbitrary: q)
  case (Cons p ps)
  then have pos: "0 < ways ps" using ways_pos by simp
  have "(length p * ways ps * q + k) div ways ps = length p * q + k div ways ps"
    using pos by (simp add: mult.assoc mult.left_commute [of "length p"])
  moreover have "digits_of ps (ways ps * (length p * q) + k) = digits_of ps k" using Cons by simp
  ultimately show ?case by (simp add: ac_simps)
qed simp

lemma choice_digits: "[] \<notin> set ps \<Longrightarrow> choice (digits_of ps k) ps"
  by (induction ps) (auto simp: choice_def)

lemma digits_choice:
  "[] \<notin> set ps \<Longrightarrow> choice ts ps \<Longrightarrow> \<exists>k < ways ps. ts = digits_of ps k"
proof (induction ps arbitrary: ts)
  case (Cons p ps)
  obtain t us where ts: "ts = t # us" "t \<in> set p" "choice us ps"
    using Cons.prems(2) by (auto simp: choice_def list_all2_Cons2)
  obtain j where j: "j < length p" "t = p ! j" using ts(2) by (metis in_set_conv_nth)
  obtain k where k: "k < ways ps" "us = digits_of ps k" using Cons ts(3) by auto
  let ?k = "ways ps * j + k"
  have "?k div ways ps = j" "digits_of ps ?k = digits_of ps k"
    using k(1) digits_of_period Cons.prems(1) by auto
  moreover have "?k < ways (p # ps)"
  proof -
    have "?k < ways ps * Suc j" using k(1) by simp
    also have "\<dots> \<le> ways ps * length p" using j(1) by (intro mult_le_mono) auto
    finally show ?thesis by (simp add: mult.commute)
  qed
  ultimately show ?case using ts j k by (intro exI [of _ ?k]) auto
qed (auto simp: choice_def)

fun fill_places :: "IfaceConcurrencyType list list \<Rightarrow> int \<times> combo list \<Rightarrow> (int \<times> combo list) option" where
  "fill_places [] s = Some s"
| "fill_places (p # ps) s = Option.bind (fill_limit 1 p s) (fill_places ps)"

lemma fill_places_append:
  "fill_places (ps @ qs) s = Option.bind (fill_places ps s) (fill_places qs)"
  by (induction ps arbitrary: s) (auto simp: bind_eq_None_conv split: bind_split)

lemma fill_limit_places: "fill_limit i p s = fill_places (replicate i p) s"
  by (induction i arbitrary: s) (auto simp: Let_def split: prod.splits)

lemma fill_limits_places: "fill_limits c s = fill_places (places c) s"
proof (induction c arbitrary: s)
  case (Cons l c)
  then have "fill_limits c = fill_places (places c)" by blast
  then show ?case by (simp add: places_def fill_places_append fill_limit_places)
qed (simp add: places_def)

lemma length_spread [simp]: "length (spread ts span cs) = length cs"
  by (simp add: spread_def)

lemma nth_spread:
  "k < length cs \<Longrightarrow> spread ts span cs ! k = bump (ts ! ((k div nat span) mod length ts)) (cs ! k)"
  by (simp add: spread_def nth_enumerate_eq)

lemma fill_places_digits:
  "[] \<notin> set ps \<Longrightarrow> \<exists>cs'. fill_places ps (int (ways ps), cs) = Some (1, cs') \<and> length cs' = length cs \<and>
     (\<forall>k < length cs. \<forall>t. (cs' ! k) t = (cs ! k) t + count_list (digits_of ps k) t)"
proof (induction ps arbitrary: cs)
  case (Cons p ps)
  then have pos: "0 < ways ps" "p \<noteq> []" using ways_pos by auto
  define cs1 where "cs1 = spread p (int (ways ps)) cs"
  have span: "int (ways (p # ps)) div int (length p) = int (ways ps)"
    using pos(2) by simp
  have step: "fill_limit 1 p (int (ways (p # ps)), cs) = Some (int (ways ps), cs1)"
    using pos unfolding One_nat_def fill_limit.simps span cs1_def by (simp add: Let_def)
  obtain cs' where cs': "fill_places ps (int (ways ps), cs1) = Some (1, cs')" "length cs' = length cs1"
    "\<forall>k < length cs1. \<forall>t. (cs' ! k) t = (cs1 ! k) t + count_list (digits_of ps k) t"
    using Cons.IH [of cs1] Cons.prems by auto
  have "(cs' ! k) t = (cs ! k) t + count_list (digits_of (p # ps) k) t" if "k < length cs" for k t
    using cs'(3) that by (simp add: cs1_def nth_spread bump_def)
  then show ?case using step cs'(1,2) by (auto simp: cs1_def)
qed simp

lemma wrap32_id: "0 \<le> n \<Longrightarrow> n < 2 ^ 31 \<Longrightarrow> wrap32 n = n"
  by (simp add: wrap32_def signed_of_int signed_take_bit_int_eq_self)

lemma mult_times_eq: "0 < t \<Longrightarrow> n * t ^ i < 2 ^ 31 \<Longrightarrow> mult_times i (int t) (int n) = int (n * t ^ i)"
proof (induction i arbitrary: n)
  case (Suc i)
  have "n * t \<le> n * t * t ^ i" using Suc.prems(1) by simp
  moreover have "n * t * t ^ i < 2 ^ 31" using Suc.prems(2) by (simp add: mult.assoc)
  ultimately have "n * t < 2 ^ 31" by (rule le_less_trans)
  then have "wrap32 (int n * int t) = int (n * t)" by (simp add: wrap32_id flip: of_nat_mult)
  then show ?case using Suc.IH [of "n * t"] Suc.prems by (simp add: mult.assoc)
qed simp

lemma num_expanded_eq:
  "[] \<notin> set (places c) \<Longrightarrow> n * ways (places c) < 2 ^ 31 \<Longrightarrow>
   num_expanded_combos (int n) c = int (n * ways (places c))"
proof (induction c arbitrary: n)
  case (Cons l c)
  let ?i = "nat (maxIfaces l)" and ?t = "length (types l)"
  have w: "ways (places (l # c)) = ?t ^ ?i * ways (places c)" by (simp add: places_def prod_list_replicate)
  have tail: "[] \<notin> set (places c)" using Cons.prems(1) by (simp add: places_def)
  have pos: "0 < ways (places c)" by (rule ways_pos [OF tail])
  have "?i = 0 \<or> 0 < ?t" using Cons.prems(1) by (auto simp: places_def)
  moreover have "n * ?t ^ ?i < 2 ^ 31"
  proof (rule le_less_trans)
    show "n * ?t ^ ?i \<le> n * ?t ^ ?i * ways (places c)" using pos by simp
    show "n * ?t ^ ?i * ways (places c) < 2 ^ 31" using Cons.prems(2) unfolding w by (simp only: mult.assoc)
  qed
  ultimately have "mult_times ?i (int ?t) (int n) = int (n * ?t ^ ?i)" using mult_times_eq [of ?t n ?i] by auto
  then show ?case using Cons.IH [OF tail, of "n * ?t ^ ?i"] Cons.prems(2) by (simp add: w mult.assoc)
qed (simp add: places_def)

lemma expand_enumerates:
  assumes "combination_ok c"
  shows "\<exists>es. expandConcurrencyCombinations c = Some es \<and> length es = ways (places c) \<and>
    set es = {e. \<exists>ts. choice ts (places c) \<and> e = count_list ts}"
proof -
  let ?ps = "places c"
  have ok: "[] \<notin> set ?ps" "ways ?ps < 2 ^ 31" using assms by (auto simp: combination_ok_def)
  have n: "num_expanded_combos 1 c = int (ways ?ps)" using num_expanded_eq [of c 1] ok by simp
  obtain es where es: "fill_places ?ps (int (ways ?ps), replicate (ways ?ps) (\<lambda>t. 0)) = Some (1, es)"
    "length es = ways ?ps"
    "\<forall>k < ways ?ps. \<forall>t. (es ! k) t = count_list (digits_of ?ps k) t"
    using fill_places_digits [OF ok(1), of "replicate (ways ?ps) (\<lambda>t. 0)"] by auto
  have nth: "k < ways ?ps \<Longrightarrow> es ! k = count_list (digits_of ?ps k)" for k using es(3) by (simp add: fun_eq_iff)
  have "set es = {e. \<exists>ts. choice ts ?ps \<and> e = count_list ts}"
  proof (intro set_eqI iffI)
    fix e assume "e \<in> set es"
    then obtain k where "k < ways ?ps" "e = es ! k" using es(2) by (metis in_set_conv_nth)
    then show "e \<in> {e. \<exists>ts. choice ts ?ps \<and> e = count_list ts}" using nth choice_digits [OF ok(1)] by auto
  next
    fix e assume "e \<in> {e. \<exists>ts. choice ts ?ps \<and> e = count_list ts}"
    then obtain k where "k < ways ?ps" "e = count_list (digits_of ?ps k)" using digits_choice [OF ok(1)] by auto
    then show "e \<in> set es" using es(2) nth by (metis nth_mem)
  qed
  then show ?thesis using es n by (auto simp: expandConcurrencyCombinations_def fill_limits_places)
qed

lemma all_types_all: "list_all P all_types \<longleftrightarrow> (\<forall>t. P t)"
  by (auto simp: all_types_def intro: IfaceConcurrencyType.induct)

lemma any_combination_allows:
  assumes "\<forall>c\<in>set cs. combination_ok c" and "\<And>e. ok e \<longleftrightarrow> (\<forall>t. need t \<le> e t)"
  shows "any_combination ok cs = Some (\<exists>c\<in>set cs. allows c need)"
  using assms(1)
proof (induction cs)
  case (Cons c cs)
  then obtain es where es: "expandConcurrencyCombinations c = Some es"
    "set es = {e. \<exists>ts. choice ts (places c) \<and> e = count_list ts}"
    using expand_enumerates [of c] by auto
  have "list_ex ok es \<longleftrightarrow> allows c need"
    unfolding list_ex_iff es(2) allows_def by (auto simp: assms(2))
  then show ?case using Cons es(1) by simp
qed simp

end
