(* ===== verification/Wifi_Legacy.thy ===== *)
theory Wifi_Legacy
  imports Std_Map Std_Text Wifi_Concurrency "HOL-Library.Monad_Syntax"
begin

text \<open>
  The life of the legacy HAL object (wifi/wifi_legacy_hal.cpp): start and stop of the vendor
  library, the interface handles and the virtual interfaces, and the status codes
  (wifi/wifi_status_util.cpp). What the vendor library, the interface tool, the driver tool, the
  property service and the kernel answer are the fields of one record, \<open>wifi_env\<close>; every call to
  them is an entry of a trace, the latest first, and an answer may depend on the whole trace. A
  failed CHECK, which ends the process, has the value None.
\<close>

section \<open>The outside\<close>

datatype IfaceType = T_STA | T_AP | T_P2P | T_NAN_IFACE

datatype WifiStatusCode =
  ERROR_WIFI_CHIP_INVALID | ERROR_WIFI_IFACE_INVALID | ERROR_NOT_AVAILABLE | ERROR_NOT_STARTED
| ERROR_INVALID_ARGS | ERROR_NOT_SUPPORTED | ERROR_BUSY | ERROR_UNKNOWN

datatype notice =
  IfaceAdded IfaceType string | IfaceRemoved IfaceType string
| ChipReconfigured int | ChipReconfigureFailure WifiStatusCode
| HalStarted | HalStopped | HalFailure WifiStatusCode

text \<open>A call to the outside by the name of the function and its arguments, a notice to a
  registered callback, and the invalidation of an interface object that a client may hold.\<close>

datatype wcall = Call string "string list" | Notify nat notice | Invalidated IfaceType string | RttInvalidated string

fun type_name :: "IfaceType \<Rightarrow> string" where
  "type_name T_STA = ''STA''"
| "type_name T_AP = ''AP''"
| "type_name T_P2P = ''P2P''"
| "type_name T_NAN_IFACE = ''NAN''"

type_synonym trace = "wcall list"

text \<open>An answer is asked for with the trace whose first entry is the call.\<close>

record wifi_env =
  status :: "trace \<Rightarrow> int"
  succeeds :: "trace \<Rightarrow> bool"
  ifaces :: "trace \<Rightarrow> (string option \<times> nat) list"
  matrix :: "trace \<Rightarrow> wifi_iface_combination list"
  answer_text :: "trace \<Rightarrow> string"
  stop_completes :: "trace \<Rightarrow> bool"
  loop_ends :: "trace \<Rightarrow> bool"
  if_index :: "trace \<Rightarrow> nat"
  property :: "string \<Rightarrow> trace \<Rightarrow> string"
  dual_interface :: bool

section \<open>Status codes\<close>

definition WIFI_SUCCESS :: int where "WIFI_SUCCESS = 0"
definition WIFI_ERROR_UNKNOWN :: int where "WIFI_ERROR_UNKNOWN = -1"
definition WIFI_ERROR_NOT_SUPPORTED :: int where "WIFI_ERROR_NOT_SUPPORTED = -3"
definition WIFI_ERROR_TIMED_OUT :: int where "WIFI_ERROR_TIMED_OUT = -7"

type_synonym wifi_result = "WifiStatusCode option"

definition createWifiStatusFromLegacyError :: "int \<Rightarrow> wifi_result" where
  "createWifiStatusFromLegacyError e =
     (if e = 0 then None
      else if e = -2 \<or> e = -4 then Some ERROR_NOT_AVAILABLE
      else if e = -3 then Some ERROR_NOT_SUPPORTED
      else if e = -5 \<or> e = -6 then Some ERROR_INVALID_ARGS
      else if e = -10 then Some ERROR_BUSY
      else Some ERROR_UNKNOWN)"

section \<open>The legacy HAL\<close>

record WifiLegacyHal =
  global_handle :: bool
  iface_name_to_handle :: "(string \<times> nat) list"
  awaiting_event_loop_termination :: bool
  is_started :: bool
  is_primary :: bool
  calls :: trace

definition new_WifiLegacyHal :: "bool \<Rightarrow> WifiLegacyHal" where
  "new_WifiLegacyHal primary = \<lparr>global_handle = False, iface_name_to_handle = [],
     awaiting_event_loop_termination = False, is_started = False, is_primary = primary, calls = []\<rparr>"

definition called :: "wcall \<Rightarrow> WifiLegacyHal \<Rightarrow> WifiLegacyHal" where
  "called c h = h\<lparr>calls := c # calls h\<rparr>"

fun add_handles :: "(string option \<times> nat) list \<Rightarrow> (string \<times> nat) list \<Rightarrow> (string \<times> nat) list" where
  "add_handles [] m = m"
| "add_handles ((n, i) # xs) m =
     (case n of None \<Rightarrow> add_handles xs m | Some name \<Rightarrow> add_handles xs (map_put name i m))"

definition retrieveIfaceHandles :: "wifi_env \<Rightarrow> WifiLegacyHal \<Rightarrow> int \<times> WifiLegacyHal" where
  "retrieveIfaceHandles env h =
     (let h1 = called (Call ''wifi_get_ifaces'' []) h; st = status env (calls h1)
      in if st \<noteq> WIFI_SUCCESS then (st, h1)
         else (WIFI_SUCCESS, h1\<lparr>iface_name_to_handle := add_handles (ifaces env (calls h1)) []\<rparr>))"

definition hal_start :: "wifi_env \<Rightarrow> WifiLegacyHal \<Rightarrow> (int \<times> WifiLegacyHal) option" where
  "hal_start env h =
     (if global_handle h \<or> iface_name_to_handle h \<noteq> [] \<or> awaiting_event_loop_termination h then None
      else if is_started h then Some (WIFI_SUCCESS, h)
      else
        let h1 = called (Call ''wifi_wait_for_driver_ready'' []) h; st = status env (calls h1)
        in if st = WIFI_ERROR_TIMED_OUT \<or> st = WIFI_ERROR_UNKNOWN then Some (st, h1)
           else
             let h2 = (if is_primary h
                       then called (Call ''SetWifiUpState'' [''true'']) (called (Call ''property_set'' [''wlan.driver.status'', ''ok'']) h1)
                       else h1)
             in if is_primary h \<and> \<not> succeeds env (calls h2) then Some (WIFI_ERROR_UNKNOWN, h2)
                else
                  let h3 = called (Call ''wifi_initialize'' []) h2; st3 = status env (calls h3);
                      h4 = h3\<lparr>global_handle := succeeds env (calls h3)\<rparr>
                  in if st3 \<noteq> WIFI_SUCCESS \<or> \<not> global_handle h4 then Some (st3, h4)
                     else
                       let (st5, h5) = retrieveIfaceHandles env h4
                       in if st5 \<noteq> WIFI_SUCCESS \<or> iface_name_to_handle h5 = [] then Some (st5, h5)
                          else Some (WIFI_SUCCESS, h5\<lparr>is_started := True\<rparr>))"

definition hal_invalidate :: "WifiLegacyHal \<Rightarrow> WifiLegacyHal" where
  "hal_invalidate h = h\<lparr>global_handle := False, iface_name_to_handle := []\<rparr>"

definition onAsyncStopComplete :: "WifiLegacyHal \<Rightarrow> WifiLegacyHal" where
  "onAsyncStopComplete h =
     (let h1 = hal_invalidate h
      in (if is_primary h then called (Call ''SetWifiUpState'' [''false'']) h1 else h1)\<lparr>is_started := False\<rparr>)"

definition runEventLoop_end :: "WifiLegacyHal \<Rightarrow> WifiLegacyHal option" where
  "runEventLoop_end h =
     (if \<not> awaiting_event_loop_termination h then None
      else Some (h\<lparr>awaiting_event_loop_termination := False\<rparr>))"

definition hal_stop :: "wifi_env \<Rightarrow> WifiLegacyHal \<Rightarrow> (int \<times> WifiLegacyHal) option" where
  "hal_stop env h =
     (if \<not> is_started h then Some (WIFI_SUCCESS, h)
      else
        let h1 = called (Call ''wifi_cleanup'' []) (h\<lparr>awaiting_event_loop_termination := True\<rparr>);
            h2 = (if stop_completes env (calls h1) then onAsyncStopComplete h1 else h1)
        in if loop_ends env (calls h1) then map_option (Pair WIFI_SUCCESS) (runEventLoop_end h2)
           else Some (WIFI_ERROR_UNKNOWN, h2))"

definition handleVirtualInterfaceCreateOrDeleteStatus ::
  "wifi_env \<Rightarrow> string \<Rightarrow> int \<Rightarrow> WifiLegacyHal \<Rightarrow> int \<times> WifiLegacyHal" where
  "handleVirtualInterfaceCreateOrDeleteStatus env ifname st h =
     (if st = WIFI_SUCCESS then retrieveIfaceHandles env h
      else if st = WIFI_ERROR_NOT_SUPPORTED
      then let h1 = called (Call ''if_nametoindex'' [ifname]) h
           in if if_index env (calls h1) \<noteq> 0 then retrieveIfaceHandles env h1 else (st, h1)
      else (st, h))"

definition createVirtualInterface :: "wifi_env \<Rightarrow> string \<Rightarrow> IfaceType \<Rightarrow> WifiLegacyHal \<Rightarrow> int \<times> WifiLegacyHal" where
  "createVirtualInterface env ifname t h =
     (let h1 = called (Call ''wifi_virtual_interface_create'' [ifname, type_name t]) h
      in handleVirtualInterfaceCreateOrDeleteStatus env ifname (status env (calls h1)) h1)"

definition deleteVirtualInterface :: "wifi_env \<Rightarrow> string \<Rightarrow> WifiLegacyHal \<Rightarrow> int \<times> WifiLegacyHal" where
  "deleteVirtualInterface env ifname h =
     (let h1 = called (Call ''wifi_virtual_interface_delete'' [ifname]) h
      in handleVirtualInterfaceCreateOrDeleteStatus env ifname (status env (calls h1)) h1)"

end
