(* ===== verification/Wifi_Chip.thy ===== *)
theory Wifi_Chip
  imports Wifi_Legacy Wifi_Ring
begin

text \<open>
  The chip object of the Wi-Fi service (wifi/wifi_chip.cpp): creation and removal of interfaces
  under the concurrency limits of the mode, their names, bridged access points, configuration and
  invalidation. Interfaces are kept by their names in the order of creation; the interface found
  by a name is the first one with it, and exactly this one is erased. A NAN interface can be a
  null pointer (None in the list). Queries of the property service and of the vendor library that
  change nothing are not entries of the trace. The entry for an invalidated interface stands for
  all that the object does in its own invalidate method. Callbacks are notified in the order of
  their registration; the code keeps them in a set ordered by address. None as the result of an operation stands for a
  failed CHECK, an access through a null pointer or outside a vector, or an exception.
\<close>

section \<open>State\<close>

record ap_iface =
  ap_name :: string
  ap_instances :: "string list"

record WifiChip =
  chip_id :: int
  legacy :: WifiLegacyHal
  ap_ifaces :: "ap_iface list"
  nan_ifaces :: "string option list"
  p2p_ifaces :: "string list"
  sta_ifaces :: "string list"
  rtt_controllers :: "string list"
  ringbuffer_map :: ring_map
  is_valid :: bool
  current_mode_id :: int
  modes :: "ChipMode list"
  debug_ring_buffer_cb_registered :: bool
  using_dynamic_iface_combination :: bool
  event_cbs :: "nat list"
  br_ifaces_ap_instances :: "(string \<times> string list) list"
  active_wlan :: string

definition kV1Sta :: int where "kV1Sta = 0"
definition kV1Ap :: int where "kV1Ap = 1"
definition kV3 :: int where "kV3 = 3"
definition kInvalid :: int where "kInvalid = - 1"
definition kMaxWlanIfaces :: nat where "kMaxWlanIfaces = 5"
definition kApBridgeIfacePrefix :: string where "kApBridgeIfacePrefix = ''ap_br_''"

definition chip_call :: "wcall \<Rightarrow> WifiChip \<Rightarrow> WifiChip" where
  "chip_call c s = s\<lparr>legacy := called c (legacy s)\<rparr>"

definition chip_trace :: "WifiChip \<Rightarrow> trace" where
  "chip_trace s = calls (legacy s)"

definition get_prop :: "wifi_env \<Rightarrow> string \<Rightarrow> WifiChip \<Rightarrow> string" where
  "get_prop env key s = property env key (chip_trace s)"

definition notify_all :: "notice \<Rightarrow> WifiChip \<Rightarrow> WifiChip" where
  "notify_all n s = fold (\<lambda>cb. chip_call (Notify cb n)) (event_cbs s) s"

definition setActiveWlanIfaceNameProperty :: "wifi_env \<Rightarrow> string \<Rightarrow> WifiChip \<Rightarrow> WifiChip" where
  "setActiveWlanIfaceNameProperty env ifname s =
     (let s1 = chip_call (Call ''property_set'' [''wifi.active.interface'', ifname]) s
      in if succeeds env (chip_trace s1) then s1\<lparr>active_wlan := ifname\<rparr> else s1)"

definition new_WifiChip :: "wifi_env \<Rightarrow> int \<Rightarrow> WifiLegacyHal \<Rightarrow> ChipMode list \<Rightarrow> string \<Rightarrow> WifiChip" where
  "new_WifiChip env i h ms active =
     setActiveWlanIfaceNameProperty env ''''
       \<lparr>chip_id = i, legacy = h, ap_ifaces = [], nan_ifaces = [], p2p_ifaces = [], sta_ifaces = [],
        rtt_controllers = [], ringbuffer_map = [], is_valid = True, current_mode_id = kInvalid, modes = ms,
        debug_ring_buffer_cb_registered = False, using_dynamic_iface_combination = False, event_cbs = [],
        br_ifaces_ap_instances = [], active_wlan = active\<rparr>"

section \<open>Modes and combinations\<close>

definition isValidModeId :: "int \<Rightarrow> WifiChip \<Rightarrow> bool" where
  "isValidModeId i s = list_ex (\<lambda>m. mode_id m = i) (modes s)"

definition getCurrentModeConcurrencyCombinations :: "WifiChip \<Rightarrow> ChipConcurrencyCombination list" where
  "getCurrentModeConcurrencyCombinations s =
     (case find (\<lambda>m. mode_id m = current_mode_id s) (modes s) of
        None \<Rightarrow> [] | Some m \<Rightarrow> availableCombinations m)"

definition is_bridged :: "WifiChip \<Rightarrow> ap_iface \<Rightarrow> bool" where
  "is_bridged s a = (case map_of (br_ifaces_ap_instances s) (ap_name a) of
                       None \<Rightarrow> False | Some instances \<Rightarrow> 1 < length instances)"

definition getCurrentConcurrencyCombination :: "WifiChip \<Rightarrow> combo" where
  "getCurrentConcurrencyCombination s t =
     (case t of
        AP \<Rightarrow> length (filter (\<lambda>a. \<not> is_bridged s a) (ap_ifaces s))
      | AP_BRIDGED \<Rightarrow> length (filter (is_bridged s) (ap_ifaces s))
      | NAN_IFACE \<Rightarrow> length (nan_ifaces s)
      | P2P \<Rightarrow> length (p2p_ifaces s)
      | STA \<Rightarrow> length (sta_ifaces s))"

definition canCurrentModeSupportConcurrencyTypeWithCurrentTypes ::
  "IfaceConcurrencyType \<Rightarrow> WifiChip \<Rightarrow> bool option" where
  "canCurrentModeSupportConcurrencyTypeWithCurrentTypes t s =
     (if \<not> isValidModeId (current_mode_id s) s then Some False
      else any_combination
             (\<lambda>e. canExpandedConcurrencyComboSupportConcurrencyTypeWithCurrentTypes
                    (getCurrentConcurrencyCombination s) e t)
             (getCurrentModeConcurrencyCombinations s))"

definition canCurrentModeSupportConcurrencyCombo ::
  "(IfaceConcurrencyType \<rightharpoonup> nat) \<Rightarrow> WifiChip \<Rightarrow> bool option" where
  "canCurrentModeSupportConcurrencyCombo req s =
     (if \<not> isValidModeId (current_mode_id s) s then Some False
      else any_combination (\<lambda>e. canExpandedConcurrencyComboSupportConcurrencyCombo e req)
             (getCurrentModeConcurrencyCombinations s))"

definition canCurrentModeSupportConcurrencyType :: "IfaceConcurrencyType \<Rightarrow> WifiChip \<Rightarrow> bool option" where
  "canCurrentModeSupportConcurrencyType t s = canCurrentModeSupportConcurrencyCombo [t \<mapsto> 1] s"

definition isStaApConcurrencyAllowedInCurrentMode :: "WifiChip \<Rightarrow> bool option" where
  "isStaApConcurrencyAllowedInCurrentMode s = canCurrentModeSupportConcurrencyCombo [STA \<mapsto> 1, AP \<mapsto> 1] s"

definition isDualStaConcurrencyAllowedInCurrentMode :: "WifiChip \<Rightarrow> bool option" where
  "isDualStaConcurrencyAllowedInCurrentMode s = canCurrentModeSupportConcurrencyCombo [STA \<mapsto> 2] s"

section \<open>Names\<close>

definition getWlanIfaceName :: "wifi_env \<Rightarrow> nat \<Rightarrow> WifiChip \<Rightarrow> string option" where
  "getWlanIfaceName env idx s =
     (if kMaxWlanIfaces \<le> idx then None
      else let alt = (if idx = 0 then get_prop env ''wifi.interface'' s
                      else if idx = 1 then get_prop env ''wifi.concurrent.interface'' s else []);
               own = get_prop env (''wifi.interface.'' @ dec_string (int idx)) s
           in Some (if alt \<noteq> [] then alt else if own \<noteq> [] then own else ''wlan'' @ dec_string (int idx)))"

definition getWlanIfaceNameWithType :: "wifi_env \<Rightarrow> IfaceType \<Rightarrow> nat \<Rightarrow> WifiChip \<Rightarrow> string option" where
  "getWlanIfaceNameWithType env t idx s =
     (let ask = Call ''wifi_get_supported_iface_name'' [type_name t] # chip_trace s
      in if status env ask = WIFI_SUCCESS then Some (answer_text env ask) else getWlanIfaceName env idx s)"

definition getFirstActiveWlanIfaceName :: "wifi_env \<Rightarrow> WifiChip \<Rightarrow> string option" where
  "getFirstActiveWlanIfaceName env s =
     (case sta_ifaces s of
        n # _ \<Rightarrow> Some n
      | [] \<Rightarrow>
          (case ap_ifaces s of
             a # _ \<Rightarrow>
               (case map_of (br_ifaces_ap_instances s) (ap_name a) of
                  None \<Rightarrow> Some (ap_name a)
                | Some [] \<Rightarrow> None
                | Some (i # _) \<Rightarrow> Some i)
           | [] \<Rightarrow> getWlanIfaceNameWithType env T_STA 0 s))"

definition findUsingNameFromBridgedApInstances :: "string \<Rightarrow> WifiChip \<Rightarrow> bool" where
  "findUsingNameFromBridgedApInstances name s =
     list_ex (\<lambda>(b, is). b = name \<or> list_ex (\<lambda>i. i = name) is) (br_ifaces_ap_instances s)"

fun first_free :: "wifi_env \<Rightarrow> IfaceType \<Rightarrow> WifiChip \<Rightarrow> nat list \<Rightarrow> string option" where
  "first_free env t s [] = None"
| "first_free env t s (i # is) =
     (case getWlanIfaceNameWithType env t i s of
        None \<Rightarrow> None
      | Some ifname \<Rightarrow>
          if findUsingNameFromBridgedApInstances ifname s \<or> ifname \<in> ap_name ` set (ap_ifaces s) \<or>
             ifname \<in> set (sta_ifaces s)
          then first_free env t s is else Some ifname)"

definition allocateApOrStaIfaceName :: "wifi_env \<Rightarrow> IfaceType \<Rightarrow> nat \<Rightarrow> WifiChip \<Rightarrow> string option" where
  "allocateApOrStaIfaceName env t start s = first_free env t s [start..<kMaxWlanIfaces]"

definition startIdxOfApIface :: "WifiChip \<Rightarrow> nat option" where
  "startIdxOfApIface s = do {
     dual \<leftarrow> isDualStaConcurrencyAllowedInCurrentMode s;
     sta_ap \<leftarrow> (if dual then Some False else isStaApConcurrencyAllowedInCurrentMode s);
     Some (if dual then 2 else if sta_ap then 1 else 0) }"

definition getPredefinedApIfaceNames :: "wifi_env \<Rightarrow> bool \<Rightarrow> WifiChip \<Rightarrow> string list" where
  "getPredefinedApIfaceNames env bridged s =
     (let a = get_prop env ''ro.vendor.wifi.sap.interface'' s;
          b = get_prop env ''ro.vendor.wifi.sap.concurrent.iface'' s
      in if a = [] then [] else if bridged \<and> b \<noteq> [] then [a, b] else [a])"

definition allocateApIfaceName :: "wifi_env \<Rightarrow> WifiChip \<Rightarrow> string option" where
  "allocateApIfaceName env s =
     (case find (\<lambda>n. n \<notin> ap_name ` set (ap_ifaces s)) (getPredefinedApIfaceNames env True s) of
        Some n \<Rightarrow> Some n
      | None \<Rightarrow> do { start \<leftarrow> startIdxOfApIface s; allocateApOrStaIfaceName env T_AP start s })"

fun more_instances :: "wifi_env \<Rightarrow> WifiChip \<Rightarrow> nat list \<Rightarrow> string list option" where
  "more_instances env s [] = Some []"
| "more_instances env s (i # is) = do {
     start \<leftarrow> startIdxOfApIface s;
     n \<leftarrow> allocateApOrStaIfaceName env T_AP (start + i) s;
     rest \<leftarrow> more_instances env s is;
     Some (if n = [] then rest else n # rest) }"

definition allocateBridgedApInstanceNames :: "wifi_env \<Rightarrow> WifiChip \<Rightarrow> string list option" where
  "allocateBridgedApInstanceNames env s =
     (let instances = getPredefinedApIfaceNames env True s
      in if length instances = 2 then Some instances
         else map_option (append instances) (more_instances env s [0..<2 - length instances]))"

definition allocateStaIfaceName :: "wifi_env \<Rightarrow> WifiChip \<Rightarrow> string option" where
  "allocateStaIfaceName env s = allocateApOrStaIfaceName env T_STA 0 s"

text \<open>The parent name is copied with room for one character less than it has.\<close>

definition P2P_MGMT_DEVICE_PREFIX :: string where "P2P_MGMT_DEVICE_PREFIX = ''p2p-dev-''"

definition getPredefinedP2pIfaceName :: "wifi_env \<Rightarrow> WifiChip \<Rightarrow> string" where
  "getPredefinedP2pIfaceName env s =
     (let p = get_prop env ''wifi.direct.interface'' s; buffer = (if p = [] then ''p2p0'' else p);
          k = length buffer - length P2P_MGMT_DEVICE_PREFIX;
          parent = take (k - 1) (drop (length P2P_MGMT_DEVICE_PREFIX) buffer)
      in if take (length P2P_MGMT_DEVICE_PREFIX) buffer \<noteq> P2P_MGMT_DEVICE_PREFIX then buffer
         else if active_wlan s = [] then buffer
         else if k \<noteq> 0 \<and> parent \<noteq> take k (active_wlan s) then P2P_MGMT_DEVICE_PREFIX @ active_wlan s
         else buffer)"

definition getPredefinedNanIfaceName :: "wifi_env \<Rightarrow> WifiChip \<Rightarrow> string" where
  "getPredefinedNanIfaceName env s = get_prop env ''wifi.aware.interface'' s"

section \<open>Bridges\<close>

definition hal_do :: "(WifiLegacyHal \<Rightarrow> int \<times> WifiLegacyHal) \<Rightarrow> WifiChip \<Rightarrow> int \<times> WifiChip" where
  "hal_do f s = (let (st, h) = f (legacy s) in (st, s\<lparr>legacy := h\<rparr>))"

text \<open>A boolean answer of the interface tool.\<close>

definition tool :: "wifi_env \<Rightarrow> string \<Rightarrow> string list \<Rightarrow> WifiChip \<Rightarrow> bool \<times> WifiChip" where
  "tool env f args s = (let s1 = chip_call (Call f args) s in (succeeds env (chip_trace s1), s1))"

definition createBridge :: "wifi_env \<Rightarrow> string \<Rightarrow> WifiChip \<Rightarrow> bool \<times> WifiChip" where
  "createBridge env br s =
     (let (ok, s1) = tool env ''createBridge'' [br] s
      in if \<not> ok then (False, s1) else (True, snd (tool env ''SetUpState'' [br, ''true''] s1)))"

definition deleteBridge :: "wifi_env \<Rightarrow> string \<Rightarrow> WifiChip \<Rightarrow> bool \<times> WifiChip" where
  "deleteBridge env br s = tool env ''deleteBridge'' [br] (snd (tool env ''SetUpState'' [br, ''false''] s))"

definition drop_instance :: "wifi_env \<Rightarrow> string \<Rightarrow> string \<Rightarrow> WifiChip \<Rightarrow> WifiChip" where
  "drop_instance env br i s =
     snd (hal_do (deleteVirtualInterface env i) (snd (tool env ''removeIfaceFromBridge'' [br, i] s)))"

definition invalidateAndClearBridgedAp :: "wifi_env \<Rightarrow> string \<Rightarrow> WifiChip \<Rightarrow> WifiChip" where
  "invalidateAndClearBridgedAp env br s =
     (if br = [] then s
      else case map_of (br_ifaces_ap_instances s) br of
             None \<Rightarrow> s
           | Some instances \<Rightarrow>
               (let s1 = snd (deleteBridge env br (fold (drop_instance env br) instances s))
                in s1\<lparr>br_ifaces_ap_instances := map_erase br (br_ifaces_ap_instances s1)\<rparr>))"

definition invalidateAndClearBridgedApAll :: "wifi_env \<Rightarrow> WifiChip \<Rightarrow> WifiChip" where
  "invalidateAndClearBridgedApAll env s =
     (fold (\<lambda>(br, instances) s. snd (deleteBridge env br (fold (drop_instance env br) instances s)))
        (br_ifaces_ap_instances s) s)\<lparr>br_ifaces_ap_instances := []\<rparr>"

section \<open>Removal\<close>

definition invalidate_each :: "IfaceType \<Rightarrow> string list \<Rightarrow> WifiChip \<Rightarrow> WifiChip" where
  "invalidate_each t ns s = fold (\<lambda>n. chip_call (Invalidated t n)) ns s"

text \<open>Every entry of the NAN list is dereferenced, so a null pointer in it ends the call.\<close>

definition nan_names :: "WifiChip \<Rightarrow> string list option" where
  "nan_names s = those (nan_ifaces s)"

definition invalidateAndRemoveAllIfaces :: "wifi_env \<Rightarrow> WifiChip \<Rightarrow> WifiChip option" where
  "invalidateAndRemoveAllIfaces env s = do {
     let s1 = invalidate_each T_AP (map ap_name (ap_ifaces s)) (invalidateAndClearBridgedApAll env s);
     nans \<leftarrow> nan_names s;
     let s2 = invalidate_each T_STA (sta_ifaces s)
                (invalidate_each T_P2P (p2p_ifaces s) (invalidate_each T_NAN_IFACE nans s1));
     let s3 = fold (\<lambda>n. chip_call (RttInvalidated n)) (rtt_controllers s) s2;
     Some (s3\<lparr>ap_ifaces := [], nan_ifaces := [], p2p_ifaces := [], sta_ifaces := [], rtt_controllers := []\<rparr>) }"

definition invalidateAndRemoveDependencies :: "string \<Rightarrow> WifiChip \<Rightarrow> WifiChip option" where
  "invalidateAndRemoveDependencies removed s = do {
     nans \<leftarrow> nan_names s;
     let s1 = fold (\<lambda>n s. notify_all (IfaceRemoved T_NAN_IFACE n) (chip_call (Invalidated T_NAN_IFACE n) s))
                (filter (\<lambda>n. n = removed) nans) s;
     let s2 = fold (\<lambda>n. chip_call (RttInvalidated n)) (filter (\<lambda>n. n = removed) (rtt_controllers s)) s1;
     Some (s2\<lparr>nan_ifaces := filter (\<lambda>n. n \<noteq> Some removed) (nan_ifaces s),
              rtt_controllers := filter (\<lambda>n. n \<noteq> removed) (rtt_controllers s)\<rparr>) }"

definition set_active :: "wifi_env \<Rightarrow> WifiChip \<Rightarrow> WifiChip option" where
  "set_active env s = map_option (\<lambda>n. setActiveWlanIfaceNameProperty env n s) (getFirstActiveWlanIfaceName env s)"

fun erase_ap :: "string \<Rightarrow> ap_iface list \<Rightarrow> ap_iface list" where
  "erase_ap n [] = []"
| "erase_ap n (a # as) = (if ap_name a = n then as else a # erase_ap n as)"

type_synonym chip_result = "(wifi_result \<times> WifiChip) option"

definition removeApIfaceInternal :: "wifi_env \<Rightarrow> string \<Rightarrow> WifiChip \<Rightarrow> chip_result" where
  "removeApIfaceInternal env ifname s =
     (if ifname \<notin> ap_name ` set (ap_ifaces s) then Some (Some ERROR_INVALID_ARGS, s)
      else do {
        s1 \<leftarrow> invalidateAndRemoveDependencies ifname s;
        let s2 = chip_call (Invalidated T_AP ifname) (invalidateAndClearBridgedAp env ifname s1);
        let s3 = notify_all (IfaceRemoved T_AP ifname) (s2\<lparr>ap_ifaces := erase_ap ifname (ap_ifaces s2)\<rparr>);
        s4 \<leftarrow> set_active env s3;
        Some (None, s4) })"

fun remove_instance_of :: "string \<Rightarrow> string \<Rightarrow> ap_iface list \<Rightarrow> ap_iface list" where
  "remove_instance_of n i [] = []"
| "remove_instance_of n i (a # as) =
     (if ap_name a = n then a\<lparr>ap_instances := removeAll i (ap_instances a)\<rparr> # as else a # remove_instance_of n i as)"

definition removeIfaceInstanceFromBridgedApIfaceInternal ::
  "wifi_env \<Rightarrow> string \<Rightarrow> string \<Rightarrow> WifiChip \<Rightarrow> chip_result" where
  "removeIfaceInstanceFromBridgedApIfaceInternal env ifname i s =
     (if ifname \<notin> ap_name ` set (ap_ifaces s) \<or> i = [] then Some (Some ERROR_INVALID_ARGS, s)
      else
        let (res, s1) =
          (case map_of (br_ifaces_ap_instances s) ifname of
             None \<Rightarrow> (None, s)
           | Some instances \<Rightarrow>
               if i \<notin> set instances then (None, s)
               else let (ok, s1) = tool env ''removeIfaceFromBridge'' [ifname, i] s
                    in if \<not> ok then (Some ERROR_NOT_AVAILABLE, s1)
                       else let (st, s2) = hal_do (deleteVirtualInterface env i) s1
                            in if st \<noteq> WIFI_SUCCESS then (createWifiStatusFromLegacyError st, s2)
                               else (None, s2\<lparr>br_ifaces_ap_instances :=
                                       map_put ifname (removeAll i instances) (br_ifaces_ap_instances s2)\<rparr>))
        in if res \<noteq> None then Some (res, s1)
           else do {
             s2 \<leftarrow> set_active env (s1\<lparr>ap_ifaces := remove_instance_of ifname i (ap_ifaces s1)\<rparr>);
             Some (None, s2) })"

definition removeNanIfaceInternal :: "string \<Rightarrow> WifiChip \<Rightarrow> chip_result" where
  "removeNanIfaceInternal ifname s =
     (let (before, rest) = (takeWhile (\<lambda>n. n \<noteq> Some ifname) (nan_ifaces s), dropWhile (\<lambda>n. n \<noteq> Some ifname) (nan_ifaces s))
      in if None \<in> set before then None
         else if rest = [] then Some (Some ERROR_INVALID_ARGS, s)
         else Some (None, notify_all (IfaceRemoved T_NAN_IFACE ifname)
                            (chip_call (Invalidated T_NAN_IFACE ifname) (s\<lparr>nan_ifaces := before @ tl rest\<rparr>))))"

definition removeP2pIfaceInternal :: "string \<Rightarrow> WifiChip \<Rightarrow> chip_result" where
  "removeP2pIfaceInternal ifname s =
     (if ifname \<notin> set (p2p_ifaces s) then Some (Some ERROR_INVALID_ARGS, s)
      else Some (None, notify_all (IfaceRemoved T_P2P ifname)
                         (chip_call (Invalidated T_P2P ifname) (s\<lparr>p2p_ifaces := remove1 ifname (p2p_ifaces s)\<rparr>))))"

definition removeStaIfaceInternal :: "wifi_env \<Rightarrow> string \<Rightarrow> WifiChip \<Rightarrow> chip_result" where
  "removeStaIfaceInternal env ifname s =
     (if ifname \<notin> set (sta_ifaces s) then Some (Some ERROR_INVALID_ARGS, s)
      else do {
        s1 \<leftarrow> invalidateAndRemoveDependencies ifname s;
        let s2 = snd (hal_do (deleteVirtualInterface env ifname) s1);
        let s3 = chip_call (Invalidated T_STA ifname) (s2\<lparr>sta_ifaces := remove1 ifname (sta_ifaces s2)\<rparr>);
        s4 \<leftarrow> set_active env (notify_all (IfaceRemoved T_STA ifname) s3);
        Some (None, s4) })"

section \<open>Creation\<close>

definition createVirtualApInterface :: "wifi_env \<Rightarrow> string \<Rightarrow> WifiChip \<Rightarrow> wifi_result \<times> WifiChip" where
  "createVirtualApInterface env n s =
     (let (st, s1) = hal_do (createVirtualInterface env n T_AP) s in (createWifiStatusFromLegacyError st, s1))"

definition newWifiApIface :: "wifi_env \<Rightarrow> string \<Rightarrow> WifiChip \<Rightarrow> WifiChip option" where
  "newWifiApIface env ifname s =
     (let instances = (case map_of (br_ifaces_ap_instances s) ifname of None \<Rightarrow> [] | Some is \<Rightarrow> is)
      in set_active env (notify_all (IfaceAdded T_AP ifname)
           (s\<lparr>ap_ifaces := ap_ifaces s @ [\<lparr>ap_name = ifname, ap_instances = instances\<rparr>]\<rparr>)))"

definition dual_ap_name :: "wifi_env \<Rightarrow> WifiChip \<Rightarrow> string" where
  "dual_ap_name env s =
     (let vendor = take 3 (get_prop env ''vendor.wifi_name'' s)
      in if vendor = ''rtl'' \<or> vendor = ''qca'' then ''p2p0''
         else if vendor = ''mtk'' \<or> vendor = ''aml'' then ''ap0'' else ''wlan1'')"

definition createApIfaceInternal :: "wifi_env \<Rightarrow> WifiChip \<Rightarrow> chip_result" where
  "createApIfaceInternal env s = do {
     can \<leftarrow> canCurrentModeSupportConcurrencyTypeWithCurrentTypes AP s;
     if \<not> can then Some (Some ERROR_NOT_AVAILABLE, s)
     else do {
       let s1 = (if dual_interface env then chip_call (Call ''property_set'' [''vendor.w1_wifi_type'', ''ap'']) s else s);
       ifname \<leftarrow> (if dual_interface env then Some (dual_ap_name env s) else allocateApIfaceName env s);
       let (st, s2) = createVirtualApInterface env ifname s1;
       if st \<noteq> None then Some (st, s2)
       else map_option (Pair None) (newWifiApIface env ifname s2) } }"

fun bridge_all :: "wifi_env \<Rightarrow> string \<Rightarrow> string list \<Rightarrow> WifiChip \<Rightarrow> bool \<times> WifiChip" where
  "bridge_all env br [] s = (True, s)"
| "bridge_all env br (i # is) s =
     (let (ok, s1) = tool env ''addIfaceToBridge'' [br, i] s
      in if ok then bridge_all env br is s1 else (False, s1))"

definition createBridgedApIfaceInternal :: "wifi_env \<Rightarrow> WifiChip \<Rightarrow> chip_result" where
  "createBridgedApIfaceInternal env s = do {
     can \<leftarrow> canCurrentModeSupportConcurrencyTypeWithCurrentTypes AP_BRIDGED s;
     if \<not> can then Some (Some ERROR_NOT_AVAILABLE, s)
     else do {
       is \<leftarrow> allocateBridgedApInstanceNames env s;
       if length is < 2 then Some (Some ERROR_NOT_AVAILABLE, s)
       else do {
         let br = kApBridgeIfacePrefix @ is ! 0;
         let (st1, s1) = createVirtualApInterface env (is ! 0) s;
         if st1 \<noteq> None then Some (st1, s1)
         else do {
           let (st2, s2) = createVirtualApInterface env (is ! 1) s1;
           if st2 \<noteq> None then Some (st2, snd (hal_do (deleteVirtualInterface env (is ! 0)) s2))
           else do {
             let (ok, s3) = createBridge env br (s2\<lparr>br_ifaces_ap_instances := map_put br is (br_ifaces_ap_instances s2)\<rparr>);
             if \<not> ok then Some (Some ERROR_NOT_AVAILABLE, invalidateAndClearBridgedAp env br s3)
             else do {
               let (added, s4) = bridge_all env br is s3;
               if \<not> added then Some (Some ERROR_NOT_AVAILABLE, invalidateAndClearBridgedAp env br s4)
               else map_option (Pair None) (newWifiApIface env br s4) } } } } } }"

definition createNanIfaceInternal :: "wifi_env \<Rightarrow> WifiChip \<Rightarrow> chip_result" where
  "createNanIfaceInternal env s = do {
     can \<leftarrow> canCurrentModeSupportConcurrencyTypeWithCurrentTypes NAN_IFACE s;
     if \<not> can then Some (Some ERROR_NOT_AVAILABLE, s)
     else do {
       let own = getPredefinedNanIfaceName env s;
       let dedicated = (own \<noteq> [] \<and> if_index env (Call ''if_nametoindex'' [own] # chip_trace s) \<noteq> 0);
       ifname \<leftarrow> (if dedicated then Some own else getFirstActiveWlanIfaceName env s);
       let (up, s1) = (if dedicated then tool env ''SetUpState'' [ifname, ''true''] s else (True, s));
       let s2 = chip_call (if up then Call ''nan_register_handler'' [ifname] else Invalidated T_NAN_IFACE ifname) s1;
       Some (None, notify_all (IfaceAdded T_NAN_IFACE ifname)
                     (s2\<lparr>nan_ifaces := nan_ifaces s2 @ [if up then Some ifname else None]\<rparr>)) } }"

definition createP2pIfaceInternal :: "wifi_env \<Rightarrow> WifiChip \<Rightarrow> chip_result" where
  "createP2pIfaceInternal env s = do {
     can \<leftarrow> canCurrentModeSupportConcurrencyTypeWithCurrentTypes P2P s;
     if \<not> can then Some (Some ERROR_NOT_AVAILABLE, s)
     else do {
       let ifname = getPredefinedP2pIfaceName env s;
       Some (None, notify_all (IfaceAdded T_P2P ifname) (s\<lparr>p2p_ifaces := p2p_ifaces s @ [ifname]\<rparr>)) } }"

definition createStaIfaceInternal :: "wifi_env \<Rightarrow> WifiChip \<Rightarrow> chip_result" where
  "createStaIfaceInternal env s = do {
     can \<leftarrow> canCurrentModeSupportConcurrencyTypeWithCurrentTypes STA s;
     if \<not> can then Some (Some ERROR_NOT_AVAILABLE, s)
     else do {
       ifname \<leftarrow> allocateStaIfaceName env s;
       let (st, s1) = hal_do (createVirtualInterface env ifname T_STA) s;
       if st \<noteq> WIFI_SUCCESS then Some (createWifiStatusFromLegacyError st, s1)
       else do {
         let s2 = chip_call (Call ''wifi_set_nodfs_flag'' [ifname, ''0'']) s1;
         map_option (Pair None)
           (set_active env (notify_all (IfaceAdded T_STA ifname) (s2\<lparr>sta_ifaces := sta_ifaces s2 @ [ifname]\<rparr>))) } } }"

definition createRttControllerInternal :: "wifi_env \<Rightarrow> WifiChip \<Rightarrow> chip_result" where
  "createRttControllerInternal env s = do {
     can \<leftarrow> (if sta_ifaces s = [] then canCurrentModeSupportConcurrencyTypeWithCurrentTypes STA s else Some True);
     if \<not> can then Some (Some ERROR_NOT_AVAILABLE, s)
     else do {
       ifname \<leftarrow> getFirstActiveWlanIfaceName env s;
       Some (None, s\<lparr>rtt_controllers := rtt_controllers s @ [ifname]\<rparr>) } }"

section \<open>Configuration\<close>

definition retrieveDynamicIfaceCombination :: "wifi_env \<Rightarrow> WifiChip \<Rightarrow> WifiChip" where
  "retrieveDynamicIfaceCombination env s =
     (if using_dynamic_iface_combination s then s
      else
        let s1 = chip_call (Call ''wifi_get_supported_iface_concurrency_matrix'' []) s
        in if status env (chip_trace s1) \<noteq> WIFI_SUCCESS then s1
           else case convertLegacyIfaceCombinationsMatrixToChipMode (matrix env (chip_trace s1)) of
                  None \<Rightarrow> s1
                | Some m \<Rightarrow> s1\<lparr>modes := [m\<lparr>mode_id := kV3\<rparr>], using_dynamic_iface_combination := True\<rparr>)"

definition requestChipDebugInfoInternal :: "wifi_env \<Rightarrow> WifiChip \<Rightarrow> ((string \<times> string) option \<times> WifiChip) option" where
  "requestChipDebugInfoInternal env s = do {
     ifname \<leftarrow> getFirstActiveWlanIfaceName env s;
     let s1 = chip_call (Call ''wifi_get_driver_version'' [ifname]) s;
     if status env (chip_trace s1) \<noteq> WIFI_SUCCESS then Some (None, s1)
     else do {
       let driver = answer_text env (chip_trace s1);
       let s2 = chip_call (Call ''wifi_get_firmware_version'' [ifname]) s1;
       if status env (chip_trace s2) \<noteq> WIFI_SUCCESS then Some (None, s2)
       else Some (Some (driver, answer_text env (chip_trace s2)), s2) } }"

definition changeFirmwareMode :: "wifi_env \<Rightarrow> IfaceType \<Rightarrow> WifiChip \<Rightarrow> bool \<times> WifiChip" where
  "changeFirmwareMode env t s = tool env ''ChangeFirmwareMode'' [type_name t] s"

definition handleChipConfiguration :: "wifi_env \<Rightarrow> int \<Rightarrow> WifiChip \<Rightarrow> chip_result" where
  "handleChipConfiguration env i s = do {
     (stopped, s1) \<leftarrow>
       (if isValidModeId (current_mode_id s) s
        then do {
          s1 \<leftarrow> invalidateAndRemoveAllIfaces env s;
          (st, h) \<leftarrow> hal_stop env (legacy s1);
          Some (st, s1\<lparr>legacy := h\<rparr>) }
        else Some (WIFI_SUCCESS, s));
     if stopped \<noteq> WIFI_SUCCESS then Some (createWifiStatusFromLegacyError stopped, s1)
     else do {
       let (changed, s2) = (if i = kV1Sta then changeFirmwareMode env T_STA s1
                            else if i = kV1Ap then changeFirmwareMode env T_AP s1 else (True, s1));
       if \<not> changed then Some (Some ERROR_UNKNOWN, s2)
       else do {
         (st, h) \<leftarrow> hal_start env (legacy s2);
         let s3 = s2\<lparr>legacy := h\<rparr>;
         if st \<noteq> WIFI_SUCCESS then Some (createWifiStatusFromLegacyError st, s3)
         else do {
           ifname \<leftarrow> getFirstActiveWlanIfaceName env s3;
           let s4 = chip_call (Call ''wifi_set_radio_mode_change_handler'' [ifname]) s3;
           (info, s5) \<leftarrow> requestChipDebugInfoInternal env s4;
           let s6 = (case info of None \<Rightarrow> s5
                     | Some (driver, firmware) \<Rightarrow>
                         chip_call (Call ''property_set'' [''vendor.wlan.driver.version'', driver])
                           (chip_call (Call ''property_set'' [''vendor.wlan.firmware.version'', firmware]) s5));
           Some (None, retrieveDynamicIfaceCombination env s6) } } } }"

definition configureChipInternal :: "wifi_env \<Rightarrow> int \<Rightarrow> WifiChip \<Rightarrow> chip_result" where
  "configureChipInternal env i s =
     (if \<not> isValidModeId i s then Some (Some ERROR_INVALID_ARGS, s)
      else if i = current_mode_id s then Some (None, s)
      else do {
        (res, s1) \<leftarrow> handleChipConfiguration env i s;
        case res of
          Some e \<Rightarrow> Some (Some e, notify_all (ChipReconfigureFailure e) s1)
        | None \<Rightarrow> do {
            s2 \<leftarrow> set_active env ((notify_all (ChipReconfigured i) s1)\<lparr>current_mode_id := i\<rparr>);
            Some (None, chip_call (Call ''wifi_set_subsystem_restart_handler'' []) s2) } })"

definition getModeInternal :: "WifiChip \<Rightarrow> wifi_result \<times> int" where
  "getModeInternal s =
     (if \<not> isValidModeId (current_mode_id s) s then Some ERROR_NOT_AVAILABLE else None, current_mode_id s)"

definition addCallback :: "wifi_env \<Rightarrow> nat \<Rightarrow> WifiChip \<Rightarrow> bool \<times> WifiChip" where
  "addCallback env cb s =
     (if cb \<in> set (event_cbs s) then (True, s)
      else let (ok, s1) = tool env ''AIBinder_linkToDeath'' [] s
           in if \<not> ok then (False, s1) else (True, s1\<lparr>event_cbs := event_cbs s1 @ [cb]\<rparr>))"

definition registerEventCallbackInternal :: "wifi_env \<Rightarrow> nat \<Rightarrow> WifiChip \<Rightarrow> chip_result" where
  "registerEventCallbackInternal env cb s =
     (let (ok, s1) = addCallback env cb s in Some (if ok then None else Some ERROR_UNKNOWN, s1))"

definition handleCallbackDeath :: "nat \<Rightarrow> WifiChip \<Rightarrow> WifiChip" where
  "handleCallbackDeath cb s = s\<lparr>event_cbs := removeAll cb (event_cbs s)\<rparr>"

section \<open>Debug rings and the end of a chip\<close>

definition registerDebugRingBufferCallback :: "wifi_env \<Rightarrow> WifiChip \<Rightarrow> chip_result" where
  "registerDebugRingBufferCallback env s =
     (if debug_ring_buffer_cb_registered s then Some (None, s)
      else do {
        ifname \<leftarrow> getFirstActiveWlanIfaceName env s;
        let s1 = chip_call (Call ''wifi_set_log_handler'' [ifname]) s;
        let st = status env (chip_trace s1);
        Some (createWifiStatusFromLegacyError st,
              if st = WIFI_SUCCESS then s1\<lparr>debug_ring_buffer_cb_registered := True\<rparr> else s1) })"

definition startLoggingToDebugRingBufferInternal :: "wifi_env \<Rightarrow> string \<Rightarrow> WifiChip \<Rightarrow> chip_result" where
  "startLoggingToDebugRingBufferInternal env ring s = do {
     (res, s1) \<leftarrow> registerDebugRingBufferCallback env s;
     if res \<noteq> None then Some (res, s1)
     else do {
       ifname \<leftarrow> getFirstActiveWlanIfaceName env s1;
       let s2 = chip_call (Call ''wifi_start_logging'' [ifname, ring]) s1;
       Some (createWifiStatusFromLegacyError (status env (chip_trace s2)),
             s2\<lparr>ringbuffer_map := add_ring ring (ringbuffer_map s2)\<rparr>) } }"

definition stopLoggingToDebugRingBufferInternal :: "wifi_env \<Rightarrow> WifiChip \<Rightarrow> chip_result" where
  "stopLoggingToDebugRingBufferInternal env s = do {
     ifname \<leftarrow> getFirstActiveWlanIfaceName env s;
     let s1 = chip_call (Call ''wifi_reset_log_handler'' [ifname]) s;
     let st = status env (chip_trace s1);
     Some (createWifiStatusFromLegacyError st,
           if st = WIFI_SUCCESS then s1\<lparr>debug_ring_buffer_cb_registered := False\<rparr> else s1) }"

definition flushRingBufferToFileInternal :: "flush_env \<Rightarrow> WifiChip \<Rightarrow> (wifi_result \<times> dump_file list \<times> WifiChip)" where
  "flushRingBufferToFileInternal fe s =
     (let (ok, m, fs) = writeRingbufferFilesInternal fe (ringbuffer_map s)
      in (if ok then None else Some ERROR_UNKNOWN, fs, s\<lparr>ringbuffer_map := m\<rparr>))"

definition chip_invalidate :: "wifi_env \<Rightarrow> flush_env \<Rightarrow> WifiChip \<Rightarrow> WifiChip option" where
  "chip_invalidate env fe s = do {
     let (ok, m, fs) = writeRingbufferFilesInternal fe (ringbuffer_map s);
     s1 \<leftarrow> invalidateAndRemoveAllIfaces env (s\<lparr>ringbuffer_map := m\<rparr>);
     Some ((setActiveWlanIfaceNameProperty env '''' s1)\<lparr>event_cbs := [], is_valid := False\<rparr>) }"

text \<open>What every method of the interface does first.\<close>

definition validateAndCall :: "(WifiChip \<Rightarrow> chip_result) \<Rightarrow> WifiChip \<Rightarrow> chip_result" where
  "validateAndCall work s = (if is_valid s then work s else Some (Some ERROR_WIFI_CHIP_INVALID, s))"

end
