(* ===== verification/Wifi_Service.thy ===== *)
theory Wifi_Service
  imports Wifi_Chip
begin

text \<open>
  The root object of the Wi-Fi service (wifi/wifi.cpp) with the modes it gives to its chips
  (wifi/wifi_feature_flags.cpp). The legacy HAL objects are made once by the factory and live on
  across stop and start; while the service runs each of them belongs to its chip. The combinations
  that the build configures for the device are a parameter.
\<close>

section \<open>Chip modes\<close>

definition limit :: "IfaceConcurrencyType list \<Rightarrow> int \<Rightarrow> ChipConcurrencyCombinationLimit" where
  "limit ts n = \<lparr>types = ts, maxIfaces = n\<rparr>"

definition kDebugChipModes :: "int \<Rightarrow> (string \<times> ChipMode list) list" where
  "kDebugChipModes main =
     [(''No STA/AP Concurrency'', [\<lparr>mode_id = main, availableCombinations =
         [[limit [AP] 1], [limit [STA] 1, limit [P2P, NAN_IFACE] 1]]\<rparr>]),
      (''STA + AP Concurrency'', [\<lparr>mode_id = main, availableCombinations =
         [[limit [STA] 1, limit [AP] 1], [limit [STA] 1, limit [P2P, NAN_IFACE] 1]]\<rparr>]),
      (''Dual STA Concurrency'', [\<lparr>mode_id = main, availableCombinations =
         [[limit [STA] 1, limit [AP] 1], [limit [STA] 2, limit [P2P, NAN_IFACE] 1]]\<rparr>]),
      (''Dual AP Concurrency'', [\<lparr>mode_id = main, availableCombinations =
         [[limit [STA] 1, limit [AP] 2], [limit [STA] 1, limit [P2P, NAN_IFACE] 1]]\<rparr>]),
      (''Dual STA & Dual AP Concurrency'', [\<lparr>mode_id = main, availableCombinations =
         [[limit [STA] 1, limit [AP] 2], [limit [STA] 2, limit [P2P, NAN_IFACE] 1]]\<rparr>]),
      (''Dual STA or STA plus single other interface'', [\<lparr>mode_id = main, availableCombinations =
         [[limit [STA] 1, limit [P2P, NAN_IFACE, AP, AP_BRIDGED] 1], [limit [STA] 2]]\<rparr>])]"

definition getChipModesForPrimary :: "int \<Rightarrow> ChipMode list \<Rightarrow> string \<Rightarrow> ChipMode list option" where
  "getChipModesForPrimary main kChipModesPrimary debug =
     (if debug = [] then Some kChipModesPrimary
      else map_option (\<lambda>idx. if length (kDebugChipModes main) \<le> idx then kChipModesPrimary
                              else snd (kDebugChipModes main ! idx)) (stoul debug))"

record mode_config =
  main_mode :: int
  primary_modes :: "ChipMode list"
  secondary_modes :: "ChipMode list"
  debug_preset :: string

definition getChipModes :: "mode_config \<Rightarrow> bool \<Rightarrow> ChipMode list option" where
  "getChipModes cfg primary =
     (if primary then getChipModesForPrimary (main_mode cfg) (primary_modes cfg) (debug_preset cfg)
      else Some (secondary_modes cfg))"

section \<open>Start and stop\<close>

datatype RunState = STOPPED | STARTED | STOPPING

record Wifi =
  run_state :: RunState
  legacy_hals :: "WifiLegacyHal list"
  chips :: "WifiChip list"
  wifi_cbs :: "nat list"
  wifi_trace :: trace

definition new_Wifi :: Wifi where
  "new_Wifi = \<lparr>run_state = STOPPED, legacy_hals = [], chips = [], wifi_cbs = [], wifi_trace = []\<rparr>"

definition wifi_call :: "wcall \<Rightarrow> Wifi \<Rightarrow> Wifi" where
  "wifi_call c w = w\<lparr>wifi_trace := c # wifi_trace w\<rparr>"

definition wifi_notify :: "notice \<Rightarrow> Wifi \<Rightarrow> Wifi" where
  "wifi_notify n w = fold (\<lambda>cb. wifi_call (Notify cb n)) (wifi_cbs w) w"

definition wifi_registerEventCallbackInternal :: "wifi_env \<Rightarrow> nat \<Rightarrow> Wifi \<Rightarrow> wifi_result \<times> Wifi" where
  "wifi_registerEventCallbackInternal env cb w =
     (if cb \<in> set (wifi_cbs w) then (None, w)
      else let w1 = wifi_call (Call ''AIBinder_linkToDeath'' []) w
           in if succeeds env (wifi_trace w1) then (None, w1\<lparr>wifi_cbs := wifi_cbs w1 @ [cb]\<rparr>) else (Some ERROR_UNKNOWN, w1))"

definition initializeModeControllerAndLegacyHal :: "wifi_env \<Rightarrow> bool list \<Rightarrow> Wifi \<Rightarrow> wifi_result \<times> Wifi" where
  "initializeModeControllerAndLegacyHal env primaries w =
     (let w1 = wifi_call (Call ''LoadDriver'' []) w
      in if \<not> succeeds env (wifi_trace w1) then (Some ERROR_UNKNOWN, w1)
         else let w2 = w1\<lparr>legacy_hals := (if legacy_hals w1 = [] then map new_WifiLegacyHal primaries else legacy_hals w1)\<rparr>
              in if legacy_hals w2 = [] then (Some ERROR_UNKNOWN, w2) else (None, w2))"

fun create_chips :: "wifi_env \<Rightarrow> mode_config \<Rightarrow> int \<Rightarrow> WifiLegacyHal list \<Rightarrow> WifiChip list option" where
  "create_chips env cfg i [] = Some []"
| "create_chips env cfg i (h # hs) = do {
     ms \<leftarrow> getChipModes cfg (i = 0);
     cs \<leftarrow> create_chips env cfg (i + 1) hs;
     Some (new_WifiChip env i h ms '''' # cs) }"

definition startInternal :: "wifi_env \<Rightarrow> mode_config \<Rightarrow> bool list \<Rightarrow> Wifi \<Rightarrow> (wifi_result \<times> Wifi) option" where
  "startInternal env cfg primaries w =
     (case run_state w of
        STARTED \<Rightarrow> Some (None, w)
      | STOPPING \<Rightarrow> Some (Some ERROR_NOT_AVAILABLE, w)
      | STOPPED \<Rightarrow>
          (case initializeModeControllerAndLegacyHal env primaries w of
             (Some e, w1) \<Rightarrow> Some (Some e, (wifi_notify (HalFailure e) w1)\<lparr>wifi_cbs := []\<rparr>)
           | (None, w1) \<Rightarrow> do {
               cs \<leftarrow> create_chips env cfg 0 (legacy_hals w1);
               Some (None, wifi_notify HalStarted (w1\<lparr>chips := cs, legacy_hals := [], run_state := STARTED\<rparr>)) }))"

fun invalidate_chips :: "wifi_env \<Rightarrow> flush_env \<Rightarrow> WifiChip list \<Rightarrow> WifiLegacyHal list option" where
  "invalidate_chips env fe [] = Some []"
| "invalidate_chips env fe (c # cs) = do {
     c' \<leftarrow> chip_invalidate env fe c;
     hs \<leftarrow> invalidate_chips env fe cs;
     Some (legacy c' # hs) }"

fun stop_hals :: "wifi_env \<Rightarrow> int \<Rightarrow> WifiLegacyHal list \<Rightarrow> (int \<times> WifiLegacyHal list) option" where
  "stop_hals env st [] = Some (st, [])"
| "stop_hals env st (h # hs) = do {
     (tmp, h') \<leftarrow> hal_stop env h;
     (st', hs') \<leftarrow> stop_hals env (if tmp \<noteq> WIFI_SUCCESS then tmp else st) hs;
     Some (st', h' # hs') }"

definition stopLegacyHalAndDeinitializeModeController :: "wifi_env \<Rightarrow> Wifi \<Rightarrow> (wifi_result \<times> Wifi) option" where
  "stopLegacyHalAndDeinitializeModeController env w = do {
     (st, hs) \<leftarrow> stop_hals env WIFI_SUCCESS (legacy_hals w);
     let w1 = w\<lparr>legacy_hals := hs, run_state := STOPPED\<rparr>;
     if st \<noteq> WIFI_SUCCESS then Some (createWifiStatusFromLegacyError st, w1)
     else do {
       let w2 = wifi_call (Call ''UnloadDriver'' []) w1;
       Some (if succeeds env (wifi_trace w2) then None else Some ERROR_UNKNOWN, w2) } }"

text \<open>The lock is released while the legacy HALs stop, in the state STOPPING.\<close>

definition stop_begin :: "wifi_env \<Rightarrow> flush_env \<Rightarrow> Wifi \<Rightarrow> Wifi option" where
  "stop_begin env fe w = do {
     hs \<leftarrow> invalidate_chips env fe (chips w);
     Some (w\<lparr>chips := [], legacy_hals := hs, run_state := STOPPING\<rparr>) }"

definition stop_finish :: "wifi_env \<Rightarrow> Wifi \<Rightarrow> (wifi_result \<times> Wifi) option" where
  "stop_finish env w = do {
     (res, w1) \<leftarrow> stopLegacyHalAndDeinitializeModeController env w;
     Some (res, (wifi_notify (case res of None \<Rightarrow> HalStopped | Some e \<Rightarrow> HalFailure e) w1)\<lparr>wifi_cbs := []\<rparr>) }"

definition stopInternal :: "wifi_env \<Rightarrow> flush_env \<Rightarrow> Wifi \<Rightarrow> (wifi_result \<times> Wifi) option" where
  "stopInternal env fe w =
     (case run_state w of
        STOPPED \<Rightarrow> Some (None, w)
      | STOPPING \<Rightarrow> Some (Some ERROR_NOT_AVAILABLE, w)
      | STARTED \<Rightarrow> Option.bind (stop_begin env fe w) (stop_finish env))"

definition isStarted :: "Wifi \<Rightarrow> bool" where
  "isStarted w = (run_state w \<noteq> STOPPED)"

definition getChipIdsInternal :: "Wifi \<Rightarrow> int list" where
  "getChipIdsInternal w = map chip_id (filter is_valid (chips w))"

definition getChipInternal :: "int \<Rightarrow> Wifi \<Rightarrow> wifi_result \<times> nat option" where
  "getChipInternal i w =
     (case find (\<lambda>k. is_valid (chips w ! k) \<and> chip_id (chips w ! k) = i) [0..<length (chips w)] of
        Some k \<Rightarrow> (None, Some k)
      | None \<Rightarrow> (Some ERROR_INVALID_ARGS, None))"

end
