(* ===== verification/Wifi_Chip_Lemmas.thy ===== *)
theory Wifi_Chip_Lemmas
  imports Wifi_Service
begin

text \<open>
  What the helpers of the Wi-Fi chip leave alone, and what a combination of interfaces allows
  when interfaces go away, change or arrive.
\<close>

section \<open>Frames\<close>

lemma fold_frame: "(\<And>x s. f (g x s) = f s) \<Longrightarrow> f (fold g xs s) = f s"
  by (induction xs arbitrary: s) auto

lemma chip_call_frame [simp]:
  "chip_id (chip_call c s) = chip_id s"
  "ap_ifaces (chip_call c s) = ap_ifaces s"
  "nan_ifaces (chip_call c s) = nan_ifaces s"
  "p2p_ifaces (chip_call c s) = p2p_ifaces s"
  "sta_ifaces (chip_call c s) = sta_ifaces s"
  "rtt_controllers (chip_call c s) = rtt_controllers s"
  "ringbuffer_map (chip_call c s) = ringbuffer_map s"
  "is_valid (chip_call c s) = is_valid s"
  "current_mode_id (chip_call c s) = current_mode_id s"
  "modes (chip_call c s) = modes s"
  "debug_ring_buffer_cb_registered (chip_call c s) = debug_ring_buffer_cb_registered s"
  "using_dynamic_iface_combination (chip_call c s) = using_dynamic_iface_combination s"
  "event_cbs (chip_call c s) = event_cbs s"
  "br_ifaces_ap_instances (chip_call c s) = br_ifaces_ap_instances s"
  by (simp_all add: chip_call_def)

lemma notify_frame [simp]:
  "chip_id (notify_all n s) = chip_id s"
  "ap_ifaces (notify_all n s) = ap_ifaces s"
  "nan_ifaces (notify_all n s) = nan_ifaces s"
  "p2p_ifaces (notify_all n s) = p2p_ifaces s"
  "sta_ifaces (notify_all n s) = sta_ifaces s"
  "rtt_controllers (notify_all n s) = rtt_controllers s"
  "ringbuffer_map (notify_all n s) = ringbuffer_map s"
  "is_valid (notify_all n s) = is_valid s"
  "current_mode_id (notify_all n s) = current_mode_id s"
  "modes (notify_all n s) = modes s"
  "debug_ring_buffer_cb_registered (notify_all n s) = debug_ring_buffer_cb_registered s"
  "using_dynamic_iface_combination (notify_all n s) = using_dynamic_iface_combination s"
  "event_cbs (notify_all n s) = event_cbs s"
  "br_ifaces_ap_instances (notify_all n s) = br_ifaces_ap_instances s"
  by (simp_all add: notify_all_def fold_frame)

lemma tool_frame [simp]:
  "chip_id (snd (tool env f a s)) = chip_id s"
  "ap_ifaces (snd (tool env f a s)) = ap_ifaces s"
  "nan_ifaces (snd (tool env f a s)) = nan_ifaces s"
  "p2p_ifaces (snd (tool env f a s)) = p2p_ifaces s"
  "sta_ifaces (snd (tool env f a s)) = sta_ifaces s"
  "rtt_controllers (snd (tool env f a s)) = rtt_controllers s"
  "ringbuffer_map (snd (tool env f a s)) = ringbuffer_map s"
  "is_valid (snd (tool env f a s)) = is_valid s"
  "current_mode_id (snd (tool env f a s)) = current_mode_id s"
  "modes (snd (tool env f a s)) = modes s"
  "debug_ring_buffer_cb_registered (snd (tool env f a s)) = debug_ring_buffer_cb_registered s"
  "using_dynamic_iface_combination (snd (tool env f a s)) = using_dynamic_iface_combination s"
  "event_cbs (snd (tool env f a s)) = event_cbs s"
  "br_ifaces_ap_instances (snd (tool env f a s)) = br_ifaces_ap_instances s"
  by (simp_all add: tool_def Let_def)

lemma hal_do_frame [simp]:
  "chip_id (snd (hal_do f s)) = chip_id s"
  "ap_ifaces (snd (hal_do f s)) = ap_ifaces s"
  "nan_ifaces (snd (hal_do f s)) = nan_ifaces s"
  "p2p_ifaces (snd (hal_do f s)) = p2p_ifaces s"
  "sta_ifaces (snd (hal_do f s)) = sta_ifaces s"
  "rtt_controllers (snd (hal_do f s)) = rtt_controllers s"
  "ringbuffer_map (snd (hal_do f s)) = ringbuffer_map s"
  "is_valid (snd (hal_do f s)) = is_valid s"
  "current_mode_id (snd (hal_do f s)) = current_mode_id s"
  "modes (snd (hal_do f s)) = modes s"
  "debug_ring_buffer_cb_registered (snd (hal_do f s)) = debug_ring_buffer_cb_registered s"
  "using_dynamic_iface_combination (snd (hal_do f s)) = using_dynamic_iface_combination s"
  "event_cbs (snd (hal_do f s)) = event_cbs s"
  "br_ifaces_ap_instances (snd (hal_do f s)) = br_ifaces_ap_instances s"
  by (simp_all add: hal_do_def split: prod.splits)

lemma set_prop_frame [simp]:
  "chip_id (setActiveWlanIfaceNameProperty env n s) = chip_id s"
  "ap_ifaces (setActiveWlanIfaceNameProperty env n s) = ap_ifaces s"
  "nan_ifaces (setActiveWlanIfaceNameProperty env n s) = nan_ifaces s"
  "p2p_ifaces (setActiveWlanIfaceNameProperty env n s) = p2p_ifaces s"
  "sta_ifaces (setActiveWlanIfaceNameProperty env n s) = sta_ifaces s"
  "rtt_controllers (setActiveWlanIfaceNameProperty env n s) = rtt_controllers s"
  "ringbuffer_map (setActiveWlanIfaceNameProperty env n s) = ringbuffer_map s"
  "is_valid (setActiveWlanIfaceNameProperty env n s) = is_valid s"
  "current_mode_id (setActiveWlanIfaceNameProperty env n s) = current_mode_id s"
  "modes (setActiveWlanIfaceNameProperty env n s) = modes s"
  "debug_ring_buffer_cb_registered (setActiveWlanIfaceNameProperty env n s) = debug_ring_buffer_cb_registered s"
  "using_dynamic_iface_combination (setActiveWlanIfaceNameProperty env n s) = using_dynamic_iface_combination s"
  "event_cbs (setActiveWlanIfaceNameProperty env n s) = event_cbs s"
  "br_ifaces_ap_instances (setActiveWlanIfaceNameProperty env n s) = br_ifaces_ap_instances s"
  by (simp_all add: setActiveWlanIfaceNameProperty_def Let_def)

lemma createBridge_frame [simp]:
  "chip_id (snd (createBridge env br s)) = chip_id s"
  "ap_ifaces (snd (createBridge env br s)) = ap_ifaces s"
  "nan_ifaces (snd (createBridge env br s)) = nan_ifaces s"
  "p2p_ifaces (snd (createBridge env br s)) = p2p_ifaces s"
  "sta_ifaces (snd (createBridge env br s)) = sta_ifaces s"
  "rtt_controllers (snd (createBridge env br s)) = rtt_controllers s"
  "ringbuffer_map (snd (createBridge env br s)) = ringbuffer_map s"
  "is_valid (snd (createBridge env br s)) = is_valid s"
  "current_mode_id (snd (createBridge env br s)) = current_mode_id s"
  "modes (snd (createBridge env br s)) = modes s"
  "debug_ring_buffer_cb_registered (snd (createBridge env br s)) = debug_ring_buffer_cb_registered s"
  "using_dynamic_iface_combination (snd (createBridge env br s)) = using_dynamic_iface_combination s"
  "event_cbs (snd (createBridge env br s)) = event_cbs s"
  "br_ifaces_ap_instances (snd (createBridge env br s)) = br_ifaces_ap_instances s"
  by (simp_all add: createBridge_def Let_def split: prod.splits) (metis snd_conv tool_frame)+

lemma deleteBridge_frame [simp]:
  "chip_id (snd (deleteBridge env br s)) = chip_id s"
  "ap_ifaces (snd (deleteBridge env br s)) = ap_ifaces s"
  "nan_ifaces (snd (deleteBridge env br s)) = nan_ifaces s"
  "p2p_ifaces (snd (deleteBridge env br s)) = p2p_ifaces s"
  "sta_ifaces (snd (deleteBridge env br s)) = sta_ifaces s"
  "rtt_controllers (snd (deleteBridge env br s)) = rtt_controllers s"
  "ringbuffer_map (snd (deleteBridge env br s)) = ringbuffer_map s"
  "is_valid (snd (deleteBridge env br s)) = is_valid s"
  "current_mode_id (snd (deleteBridge env br s)) = current_mode_id s"
  "modes (snd (deleteBridge env br s)) = modes s"
  "debug_ring_buffer_cb_registered (snd (deleteBridge env br s)) = debug_ring_buffer_cb_registered s"
  "using_dynamic_iface_combination (snd (deleteBridge env br s)) = using_dynamic_iface_combination s"
  "event_cbs (snd (deleteBridge env br s)) = event_cbs s"
  "br_ifaces_ap_instances (snd (deleteBridge env br s)) = br_ifaces_ap_instances s"
  by (simp_all add: deleteBridge_def)

lemma drop_instance_frame [simp]:
  "chip_id (drop_instance env br i s) = chip_id s"
  "ap_ifaces (drop_instance env br i s) = ap_ifaces s"
  "nan_ifaces (drop_instance env br i s) = nan_ifaces s"
  "p2p_ifaces (drop_instance env br i s) = p2p_ifaces s"
  "sta_ifaces (drop_instance env br i s) = sta_ifaces s"
  "rtt_controllers (drop_instance env br i s) = rtt_controllers s"
  "ringbuffer_map (drop_instance env br i s) = ringbuffer_map s"
  "is_valid (drop_instance env br i s) = is_valid s"
  "current_mode_id (drop_instance env br i s) = current_mode_id s"
  "modes (drop_instance env br i s) = modes s"
  "debug_ring_buffer_cb_registered (drop_instance env br i s) = debug_ring_buffer_cb_registered s"
  "using_dynamic_iface_combination (drop_instance env br i s) = using_dynamic_iface_combination s"
  "event_cbs (drop_instance env br i s) = event_cbs s"
  "br_ifaces_ap_instances (drop_instance env br i s) = br_ifaces_ap_instances s"
  by (simp_all add: drop_instance_def)

lemma invalidate_each_frame [simp]:
  "chip_id (invalidate_each t ns s) = chip_id s"
  "ap_ifaces (invalidate_each t ns s) = ap_ifaces s"
  "nan_ifaces (invalidate_each t ns s) = nan_ifaces s"
  "p2p_ifaces (invalidate_each t ns s) = p2p_ifaces s"
  "sta_ifaces (invalidate_each t ns s) = sta_ifaces s"
  "rtt_controllers (invalidate_each t ns s) = rtt_controllers s"
  "ringbuffer_map (invalidate_each t ns s) = ringbuffer_map s"
  "is_valid (invalidate_each t ns s) = is_valid s"
  "current_mode_id (invalidate_each t ns s) = current_mode_id s"
  "modes (invalidate_each t ns s) = modes s"
  "debug_ring_buffer_cb_registered (invalidate_each t ns s) = debug_ring_buffer_cb_registered s"
  "using_dynamic_iface_combination (invalidate_each t ns s) = using_dynamic_iface_combination s"
  "event_cbs (invalidate_each t ns s) = event_cbs s"
  "br_ifaces_ap_instances (invalidate_each t ns s) = br_ifaces_ap_instances s"
  by (simp_all add: invalidate_each_def fold_frame)

lemma createVirtualAp_frame [simp]:
  "chip_id (snd (createVirtualApInterface env n s)) = chip_id s"
  "ap_ifaces (snd (createVirtualApInterface env n s)) = ap_ifaces s"
  "nan_ifaces (snd (createVirtualApInterface env n s)) = nan_ifaces s"
  "p2p_ifaces (snd (createVirtualApInterface env n s)) = p2p_ifaces s"
  "sta_ifaces (snd (createVirtualApInterface env n s)) = sta_ifaces s"
  "rtt_controllers (snd (createVirtualApInterface env n s)) = rtt_controllers s"
  "ringbuffer_map (snd (createVirtualApInterface env n s)) = ringbuffer_map s"
  "is_valid (snd (createVirtualApInterface env n s)) = is_valid s"
  "current_mode_id (snd (createVirtualApInterface env n s)) = current_mode_id s"
  "modes (snd (createVirtualApInterface env n s)) = modes s"
  "debug_ring_buffer_cb_registered (snd (createVirtualApInterface env n s)) = debug_ring_buffer_cb_registered s"
  "using_dynamic_iface_combination (snd (createVirtualApInterface env n s)) = using_dynamic_iface_combination s"
  "event_cbs (snd (createVirtualApInterface env n s)) = event_cbs s"
  "br_ifaces_ap_instances (snd (createVirtualApInterface env n s)) = br_ifaces_ap_instances s"
  by (simp_all add: createVirtualApInterface_def Let_def split: prod.splits) (metis snd_conv hal_do_frame)+

lemma bridge_all_frame [simp]:
  "chip_id (snd (bridge_all env br is s)) = chip_id s"
  "ap_ifaces (snd (bridge_all env br is s)) = ap_ifaces s"
  "nan_ifaces (snd (bridge_all env br is s)) = nan_ifaces s"
  "p2p_ifaces (snd (bridge_all env br is s)) = p2p_ifaces s"
  "sta_ifaces (snd (bridge_all env br is s)) = sta_ifaces s"
  "rtt_controllers (snd (bridge_all env br is s)) = rtt_controllers s"
  "ringbuffer_map (snd (bridge_all env br is s)) = ringbuffer_map s"
  "is_valid (snd (bridge_all env br is s)) = is_valid s"
  "current_mode_id (snd (bridge_all env br is s)) = current_mode_id s"
  "modes (snd (bridge_all env br is s)) = modes s"
  "debug_ring_buffer_cb_registered (snd (bridge_all env br is s)) = debug_ring_buffer_cb_registered s"
  "using_dynamic_iface_combination (snd (bridge_all env br is s)) = using_dynamic_iface_combination s"
  "event_cbs (snd (bridge_all env br is s)) = event_cbs s"
  "br_ifaces_ap_instances (snd (bridge_all env br is s)) = br_ifaces_ap_instances s"
  by (induction "is" arbitrary: s) (simp_all add: Let_def case_prod_beta)

section \<open>Frames of the legacy HAL\<close>

lemma called_frame [simp]:
  "global_handle (called c h) = global_handle h"
  "awaiting_event_loop_termination (called c h) = awaiting_event_loop_termination h"
  "is_started (called c h) = is_started h"
  "is_primary (called c h) = is_primary h"
  "iface_name_to_handle (called c h) = iface_name_to_handle h"
  by (simp_all add: called_def)

lemma fold_hal: "(\<And>x s. f (legacy (g x s)) = f (legacy s)) \<Longrightarrow> f (legacy (fold g xs s)) = f (legacy s)"
  by (rule fold_frame [of "\<lambda>s. f (legacy s)"])

lemma retrieve_frame [simp]:
  "global_handle (snd (retrieveIfaceHandles env h)) = global_handle h"
  "awaiting_event_loop_termination (snd (retrieveIfaceHandles env h)) = awaiting_event_loop_termination h"
  "is_started (snd (retrieveIfaceHandles env h)) = is_started h"
  by (simp_all add: retrieveIfaceHandles_def Let_def)

lemma handle_status_frame [simp]:
  "global_handle (snd (handleVirtualInterfaceCreateOrDeleteStatus env n st h)) = global_handle h"
  "awaiting_event_loop_termination (snd (handleVirtualInterfaceCreateOrDeleteStatus env n st h)) =
     awaiting_event_loop_termination h"
  "is_started (snd (handleVirtualInterfaceCreateOrDeleteStatus env n st h)) = is_started h"
  by (simp_all add: handleVirtualInterfaceCreateOrDeleteStatus_def Let_def)

lemma virtual_frame [simp]:
  "global_handle (legacy (snd (hal_do (createVirtualInterface env n t) s))) = global_handle (legacy s)"
  "awaiting_event_loop_termination (legacy (snd (hal_do (createVirtualInterface env n t) s))) =
     awaiting_event_loop_termination (legacy s)"
  "is_started (legacy (snd (hal_do (createVirtualInterface env n t) s))) = is_started (legacy s)"
  "global_handle (legacy (snd (hal_do (deleteVirtualInterface env n) s))) = global_handle (legacy s)"
  "awaiting_event_loop_termination (legacy (snd (hal_do (deleteVirtualInterface env n) s))) =
     awaiting_event_loop_termination (legacy s)"
  "is_started (legacy (snd (hal_do (deleteVirtualInterface env n) s))) = is_started (legacy s)"
  by (simp_all add: hal_do_def createVirtualInterface_def deleteVirtualInterface_def Let_def case_prod_beta)

lemma chip_call_hal [simp]:
  "global_handle (legacy (chip_call c s)) = global_handle (legacy s)"
  "awaiting_event_loop_termination (legacy (chip_call c s)) = awaiting_event_loop_termination (legacy s)"
  "is_started (legacy (chip_call c s)) = is_started (legacy s)"
  "iface_name_to_handle (legacy (chip_call c s)) = iface_name_to_handle (legacy s)"
  by (simp_all add: chip_call_def)

lemma notify_hal [simp]:
  "global_handle (legacy (notify_all n s)) = global_handle (legacy s)"
  "awaiting_event_loop_termination (legacy (notify_all n s)) = awaiting_event_loop_termination (legacy s)"
  "is_started (legacy (notify_all n s)) = is_started (legacy s)"
  "iface_name_to_handle (legacy (notify_all n s)) = iface_name_to_handle (legacy s)"
  by (simp_all add: notify_all_def fold_hal)

lemma tool_hal [simp]:
  "global_handle (legacy (snd (tool env f a s))) = global_handle (legacy s)"
  "awaiting_event_loop_termination (legacy (snd (tool env f a s))) = awaiting_event_loop_termination (legacy s)"
  "is_started (legacy (snd (tool env f a s))) = is_started (legacy s)"
  "iface_name_to_handle (legacy (snd (tool env f a s))) = iface_name_to_handle (legacy s)"
  by (simp_all add: tool_def Let_def)

lemma set_prop_hal [simp]:
  "global_handle (legacy (setActiveWlanIfaceNameProperty env n s)) = global_handle (legacy s)"
  "awaiting_event_loop_termination (legacy (setActiveWlanIfaceNameProperty env n s)) = awaiting_event_loop_termination (legacy s)"
  "is_started (legacy (setActiveWlanIfaceNameProperty env n s)) = is_started (legacy s)"
  "iface_name_to_handle (legacy (setActiveWlanIfaceNameProperty env n s)) = iface_name_to_handle (legacy s)"
  by (simp_all add: setActiveWlanIfaceNameProperty_def Let_def)

lemma createBridge_hal [simp]:
  "global_handle (legacy (snd (createBridge env br s))) = global_handle (legacy s)"
  "awaiting_event_loop_termination (legacy (snd (createBridge env br s))) = awaiting_event_loop_termination (legacy s)"
  "is_started (legacy (snd (createBridge env br s))) = is_started (legacy s)"
  "iface_name_to_handle (legacy (snd (createBridge env br s))) = iface_name_to_handle (legacy s)"
  by (simp_all add: createBridge_def Let_def case_prod_beta)

lemma deleteBridge_hal [simp]:
  "global_handle (legacy (snd (deleteBridge env br s))) = global_handle (legacy s)"
  "awaiting_event_loop_termination (legacy (snd (deleteBridge env br s))) = awaiting_event_loop_termination (legacy s)"
  "is_started (legacy (snd (deleteBridge env br s))) = is_started (legacy s)"
  "iface_name_to_handle (legacy (snd (deleteBridge env br s))) = iface_name_to_handle (legacy s)"
  by (simp_all add: deleteBridge_def)

lemma invalidate_each_hal [simp]:
  "global_handle (legacy (invalidate_each t ns s)) = global_handle (legacy s)"
  "awaiting_event_loop_termination (legacy (invalidate_each t ns s)) = awaiting_event_loop_termination (legacy s)"
  "is_started (legacy (invalidate_each t ns s)) = is_started (legacy s)"
  "iface_name_to_handle (legacy (invalidate_each t ns s)) = iface_name_to_handle (legacy s)"
  by (simp_all add: invalidate_each_def fold_hal)

lemma drop_instance_hal [simp]:
  "global_handle (legacy (drop_instance env br i s)) = global_handle (legacy s)"
  "awaiting_event_loop_termination (legacy (drop_instance env br i s)) = awaiting_event_loop_termination (legacy s)"
  "is_started (legacy (drop_instance env br i s)) = is_started (legacy s)"
  by (simp_all add: drop_instance_def)

lemma createVirtualAp_hal [simp]:
  "global_handle (legacy (snd (createVirtualApInterface env n s))) = global_handle (legacy s)"
  "awaiting_event_loop_termination (legacy (snd (createVirtualApInterface env n s))) = awaiting_event_loop_termination (legacy s)"
  "is_started (legacy (snd (createVirtualApInterface env n s))) = is_started (legacy s)"
  by (simp_all add: createVirtualApInterface_def Let_def case_prod_beta)

lemma bridge_all_hal [simp]:
  "global_handle (legacy (snd (bridge_all env br is s))) = global_handle (legacy s)"
  "awaiting_event_loop_termination (legacy (snd (bridge_all env br is s))) = awaiting_event_loop_termination (legacy s)"
  "is_started (legacy (snd (bridge_all env br is s))) = is_started (legacy s)"
  "iface_name_to_handle (legacy (snd (bridge_all env br is s))) = iface_name_to_handle (legacy s)"
  by (induction "is" arbitrary: s) (simp_all add: Let_def case_prod_beta)

section \<open>What a combination allows\<close>

text \<open>
  A place for a bridged access point can also be used by a plain one, and no other place is for
  an access point.
\<close>

definition bridge_ok :: "ChipConcurrencyCombination \<Rightarrow> bool" where
  "bridge_ok c \<longleftrightarrow> (\<forall>p\<in>set (places c). AP_BRIDGED \<in> set p \<longrightarrow>
     AP \<in> set p \<and> length (filter (\<lambda>q. AP \<in> set q \<or> AP_BRIDGED \<in> set q) (places c)) \<le> 1)"

definition modes_ok :: "ChipMode list \<Rightarrow> bool" where
  "modes_ok ms \<longleftrightarrow> (\<forall>m\<in>set ms. \<forall>c\<in>set (availableCombinations m). combination_ok c \<and> bridge_ok c)"

lemma allows_mono: "allows c need \<Longrightarrow> (\<And>t. need' t \<le> need t) \<Longrightarrow> allows c need'"
  unfolding allows_def by (meson order_trans)

lemma choice_downgrade:
  "choice ts ps \<Longrightarrow> (\<forall>p\<in>set ps. AP_BRIDGED \<in> set p \<longrightarrow> AP \<in> set p) \<Longrightarrow> b \<le> count_list ts AP_BRIDGED \<Longrightarrow>
   \<exists>us. choice us ps \<and> count_list us AP_BRIDGED = b \<and>
     count_list us AP + b = count_list ts AP + count_list ts AP_BRIDGED \<and>
     (\<forall>t. t \<noteq> AP \<longrightarrow> t \<noteq> AP_BRIDGED \<longrightarrow> count_list us t = count_list ts t)"
proof (induction ts arbitrary: ps b)
  case Nil
  then show ?case by (auto simp: choice_def)
next
  case (Cons t ts)
  obtain p qs where ps: "ps = p # qs" "t \<in> set p" "choice ts qs"
    using Cons.prems(1) by (auto simp: choice_def list_all2_Cons1)
  have low: "\<forall>p\<in>set qs. AP_BRIDGED \<in> set p \<longrightarrow> AP \<in> set p" using Cons.prems(2) ps(1) by simp
  define keep where "keep \<longleftrightarrow> t \<noteq> AP_BRIDGED \<or> 0 < b"
  define b' where "b' = (if t = AP_BRIDGED then b - 1 else b)"
  have "b' \<le> count_list ts AP_BRIDGED" using Cons.prems(3) by (auto simp: b'_def split: if_splits)
  then obtain us where us: "choice us qs" "count_list us AP_BRIDGED = b'"
    "count_list us AP + b' = count_list ts AP + count_list ts AP_BRIDGED"
    "\<forall>t. t \<noteq> AP \<longrightarrow> t \<noteq> AP_BRIDGED \<longrightarrow> count_list us t = count_list ts t"
    using Cons.IH [OF ps(3) low] by blast
  let ?us = "(if keep then t else AP) # us"
  have "choice ?us ps" using us(1) ps Cons.prems(2) by (auto simp: choice_def keep_def)
  then show ?case using us(2,3,4) by (intro exI [of _ ?us]) (auto simp: keep_def b'_def)
qed

lemma allows_downgrade:
  assumes "allows c need" "bridge_ok c" "need' AP_BRIDGED \<le> need AP_BRIDGED"
    and "need' AP + need' AP_BRIDGED \<le> need AP + need AP_BRIDGED"
    and "\<And>t. t \<noteq> AP \<Longrightarrow> t \<noteq> AP_BRIDGED \<Longrightarrow> need' t \<le> need t"
  shows "allows c need'"
proof -
  obtain ts where ts: "choice ts (places c)" "\<forall>t. need t \<le> count_list ts t" using assms(1) by (auto simp: allows_def)
  then have "need' AP_BRIDGED \<le> count_list ts AP_BRIDGED" using assms(3) le_trans by blast
  then obtain us where us: "choice us (places c)" "count_list us AP_BRIDGED = need' AP_BRIDGED"
    "count_list us AP + need' AP_BRIDGED = count_list ts AP + count_list ts AP_BRIDGED"
    "\<forall>t. t \<noteq> AP \<longrightarrow> t \<noteq> AP_BRIDGED \<longrightarrow> count_list us t = count_list ts t"
    using choice_downgrade [OF ts(1)] assms(2) unfolding bridge_ok_def by blast
  have "need' t \<le> count_list us t" for t
  proof (cases "t = AP \<or> t = AP_BRIDGED")
    case True
    moreover have "need AP + need AP_BRIDGED \<le> count_list ts AP + count_list ts AP_BRIDGED"
      using ts(2) by (simp add: add_mono)
    ultimately show ?thesis using us(2,3) assms(4) by auto
  next
    case False
    then show ?thesis using us(4) ts(2) assms(5) le_trans by fastforce
  qed
  then show ?thesis using us(1) by (auto simp: allows_def)
qed

lemma choice_access_points:
  "choice ts ps \<Longrightarrow> count_list ts AP + count_list ts AP_BRIDGED \<le> length (filter (\<lambda>q. AP \<in> set q \<or> AP_BRIDGED \<in> set q) ps)"
proof (induction ts arbitrary: ps)
  case (Cons t ts)
  then obtain p qs where ps: "ps = p # qs" "t \<in> set p" "choice ts qs" by (auto simp: choice_def list_all2_Cons1)
  then show ?case using Cons.IH [of qs] by auto
qed simp

lemma choice_mem: "choice ts ps \<Longrightarrow> t \<in> set ts \<Longrightarrow> \<exists>p\<in>set ps. t \<in> set p"
  unfolding choice_def by (metis in_set_conv_nth list_all2_conv_all_nth)

lemma bridged_alone:
  assumes "allows c need" "bridge_ok c" "0 < need AP_BRIDGED"
  shows "need AP + need AP_BRIDGED = 1"
proof -
  obtain ts where ts: "choice ts (places c)" "\<forall>t. need t \<le> count_list ts t" using assms(1) by (auto simp: allows_def)
  have "AP_BRIDGED \<in> set ts" using ts(2) assms(3) by (metis count_notin leD)
  then have "length (filter (\<lambda>q. AP \<in> set q \<or> AP_BRIDGED \<in> set q) (places c)) \<le> 1"
    using choice_mem [OF ts(1)] assms(2) unfolding bridge_ok_def by blast
  then have "count_list ts AP + count_list ts AP_BRIDGED \<le> 1" using choice_access_points [OF ts(1)] by linarith
  moreover have "need AP + need AP_BRIDGED \<le> count_list ts AP + count_list ts AP_BRIDGED"
    using ts(2) by (simp add: add_mono)
  ultimately show ?thesis using assms(3) by linarith
qed

section \<open>Asking the mode\<close>

abbreviation plus_one :: "IfaceConcurrencyType \<Rightarrow> combo \<Rightarrow> combo" where
  "plus_one t n \<equiv> (\<lambda>u. n u + (if u = t then 1 else 0))"

lemma combinations_ok:
  "modes_ok (modes s) \<Longrightarrow> c \<in> set (getCurrentModeConcurrencyCombinations s) \<Longrightarrow> combination_ok c \<and> bridge_ok c"
  by (auto simp: getCurrentModeConcurrencyCombinations_def modes_ok_def find_Some_iff find_Some_iff2 split: option.splits)

lemma can_create:
  assumes "modes_ok (modes s)"
  shows "canCurrentModeSupportConcurrencyTypeWithCurrentTypes t s =
    Some (isValidModeId (current_mode_id s) s \<and>
      (\<exists>c\<in>set (getCurrentModeConcurrencyCombinations s). allows c (plus_one t (getCurrentConcurrencyCombination s))))"
proof -
  have "any_combination (\<lambda>e. canExpandedConcurrencyComboSupportConcurrencyTypeWithCurrentTypes
      (getCurrentConcurrencyCombination s) e t) (getCurrentModeConcurrencyCombinations s) =
    Some (\<exists>c\<in>set (getCurrentModeConcurrencyCombinations s). allows c (plus_one t (getCurrentConcurrencyCombination s)))"
    using combinations_ok [OF assms]
    by (intro any_combination_allows)
       (auto simp: canExpandedConcurrencyComboSupportConcurrencyTypeWithCurrentTypes_def all_types_all)
  then show ?thesis by (simp add: canCurrentModeSupportConcurrencyTypeWithCurrentTypes_def)
qed

lemma can_combo:
  assumes "modes_ok (modes s)"
  shows "canCurrentModeSupportConcurrencyCombo req s =
    Some (isValidModeId (current_mode_id s) s \<and>
      (\<exists>c\<in>set (getCurrentModeConcurrencyCombinations s). allows c (\<lambda>t. case req t of None \<Rightarrow> 0 | Some n \<Rightarrow> n)))"
proof -
  have "any_combination (\<lambda>e. canExpandedConcurrencyComboSupportConcurrencyCombo e req) (getCurrentModeConcurrencyCombinations s) =
    Some (\<exists>c\<in>set (getCurrentModeConcurrencyCombinations s). allows c (\<lambda>t. case req t of None \<Rightarrow> 0 | Some n \<Rightarrow> n))"
    using combinations_ok [OF assms]
    by (intro any_combination_allows)
       (auto simp: canExpandedConcurrencyComboSupportConcurrencyCombo_def all_types_all split: option.splits)
  then show ?thesis by (simp add: canCurrentModeSupportConcurrencyCombo_def)
qed

end
