(* ===== verification/Wifi_Reach.thy ===== *)
theory Wifi_Reach
  imports Wifi_Chip_Lemmas
begin

text \<open>
  The states a Wi-Fi chip can reach by the calls of its interface, in any order and with any
  answers of the outside, and the invariant of these states: the interfaces that exist are
  allowed by the mode, every bridge belongs to an access point, and stations have different names.
\<close>

section \<open>Calls\<close>

datatype chip_op =
  RegisterCallback nat | CallbackDeath nat | Configure int | DebugInfo
| CreateAp | CreateBridgedAp | RemoveAp string | RemoveInstance string string
| CreateNan | RemoveNan string | CreateP2p | RemoveP2p string | CreateSta | RemoveSta string | CreateRtt
| StartLogging string | StopLogging | FlushRings | RingData string "byte list"

fun chip_work :: "wifi_env \<Rightarrow> flush_env \<Rightarrow> chip_op \<Rightarrow> WifiChip \<Rightarrow> chip_result" where
  "chip_work env fe (RegisterCallback cb) s = registerEventCallbackInternal env cb s"
| "chip_work env fe (CallbackDeath cb) s = Some (None, handleCallbackDeath cb s)"
| "chip_work env fe (Configure i) s = configureChipInternal env i s"
| "chip_work env fe DebugInfo s = map_option (\<lambda>(r, s). (None, s)) (requestChipDebugInfoInternal env s)"
| "chip_work env fe CreateAp s = createApIfaceInternal env s"
| "chip_work env fe CreateBridgedAp s = createBridgedApIfaceInternal env s"
| "chip_work env fe (RemoveAp n) s = removeApIfaceInternal env n s"
| "chip_work env fe (RemoveInstance n i) s = removeIfaceInstanceFromBridgedApIfaceInternal env n i s"
| "chip_work env fe CreateNan s = createNanIfaceInternal env s"
| "chip_work env fe (RemoveNan n) s = removeNanIfaceInternal n s"
| "chip_work env fe CreateP2p s = createP2pIfaceInternal env s"
| "chip_work env fe (RemoveP2p n) s = removeP2pIfaceInternal n s"
| "chip_work env fe CreateSta s = createStaIfaceInternal env s"
| "chip_work env fe (RemoveSta n) s = removeStaIfaceInternal env n s"
| "chip_work env fe CreateRtt s = createRttControllerInternal env s"
| "chip_work env fe (StartLogging r) s = startLoggingToDebugRingBufferInternal env r s"
| "chip_work env fe StopLogging s = stopLoggingToDebugRingBufferInternal env s"
| "chip_work env fe FlushRings s = (let (r, fs, s') = flushRingBufferToFileInternal fe s in Some (r, s'))"
| "chip_work env fe (RingData n d) s =
     map_option (\<lambda>(m, fs). (None, s\<lparr>ringbuffer_map := m\<rparr>)) (on_ring_buffer_data fe (is_valid s) n d (ringbuffer_map s))"

definition chip_perform :: "wifi_env \<Rightarrow> flush_env \<Rightarrow> chip_op \<Rightarrow> WifiChip \<Rightarrow> chip_result" where
  "chip_perform env fe op s = validateAndCall (chip_work env fe op) s"

inductive chip_reach :: "wifi_env \<Rightarrow> WifiChip \<Rightarrow> WifiChip \<Rightarrow> bool" for env s0 where
  init: "chip_reach env s0 s0"
| step: "chip_reach env s0 s \<Longrightarrow> chip_perform env fe op s = Some (r, s') \<Longrightarrow> chip_reach env s0 s'"

section \<open>Invariant\<close>

definition allowed :: "ChipMode list \<Rightarrow> int \<Rightarrow> combo \<Rightarrow> bool" where
  "allowed ms i need \<longleftrightarrow>
     (\<exists>m. find (\<lambda>m. mode_id m = i) ms = Some m \<and> (\<exists>c\<in>set (availableCombinations m). allows c need))"

definition interfaces_ok :: "WifiChip \<Rightarrow> bool" where
  "interfaces_ok s \<longleftrightarrow> getCurrentConcurrencyCombination s = (\<lambda>t. 0) \<or>
     allowed (modes s) (current_mode_id s) (getCurrentConcurrencyCombination s)"

definition bridges_ok :: "WifiChip \<Rightarrow> bool" where
  "bridges_ok s \<longleftrightarrow> ordered (br_ifaces_ap_instances s) \<and>
     (\<forall>k\<in>fst ` set (br_ifaces_ap_instances s). k \<in> ap_name ` set (ap_ifaces s) \<and> take 6 k = kApBridgeIfacePrefix)"

definition chip_inv :: "WifiChip \<Rightarrow> bool" where
  "chip_inv s \<longleftrightarrow> modes_ok (modes s) \<and> bridges_ok s \<and> interfaces_ok s \<and> distinct (sta_ifaces s)"

text \<open>What the driver reports is a set of combinations as the code expects them.\<close>

definition matrix_ok :: "wifi_env \<Rightarrow> bool" where
  "matrix_ok env \<longleftrightarrow>
     (\<forall>tr m. convertLegacyIfaceCombinationsMatrixToChipMode (matrix env tr) = Some m \<longrightarrow> modes_ok [m])"

definition no_interface :: "WifiChip \<Rightarrow> bool" where
  "no_interface s \<longleftrightarrow> ap_ifaces s = [] \<and> nan_ifaces s = [] \<and> p2p_ifaces s = [] \<and> sta_ifaces s = []"

lemma valid_find: "isValidModeId i s \<longleftrightarrow> (\<exists>m. find (\<lambda>m. mode_id m = i) (modes s) = Some m)"
  by (auto simp: isValidModeId_def list_ex_iff find_None_iff simp flip: not_None_eq)

lemma allowed_combinations:
  "allowed (modes s) (current_mode_id s) need \<longleftrightarrow> isValidModeId (current_mode_id s) s \<and>
     (\<exists>c\<in>set (getCurrentModeConcurrencyCombinations s). allows c need)"
  by (auto simp: allowed_def valid_find getCurrentModeConcurrencyCombinations_def)

lemma can_allowed:
  "modes_ok (modes s) \<Longrightarrow> canCurrentModeSupportConcurrencyTypeWithCurrentTypes t s =
     Some (allowed (modes s) (current_mode_id s) (plus_one t (getCurrentConcurrencyCombination s)))"
  by (simp add: can_create allowed_combinations)

lemma no_interface_combo: "no_interface s \<longleftrightarrow> getCurrentConcurrencyCombination s = (\<lambda>t. 0)"
proof
  assume z: "getCurrentConcurrencyCombination s = (\<lambda>t. 0)"
  have ap: "length (ap_ifaces s) = 0"
    using sum_length_filter_compl [of "is_bridged s" "ap_ifaces s"] fun_cong [OF z, of AP] fun_cong [OF z, of AP_BRIDGED]
    by (simp add: getCurrentConcurrencyCombination_def)
  then show "no_interface s" using fun_cong [OF z, of NAN_IFACE] fun_cong [OF z, of P2P] fun_cong [OF z, of STA]
    by (simp add: no_interface_def getCurrentConcurrencyCombination_def)
qed (auto simp: no_interface_def getCurrentConcurrencyCombination_def fun_eq_iff split: IfaceConcurrencyType.splits)

lemma invalid_mode_no_interface: "chip_inv s \<Longrightarrow> \<not> isValidModeId (current_mode_id s) s \<Longrightarrow> no_interface s"
  by (auto simp: chip_inv_def interfaces_ok_def allowed_combinations no_interface_combo)

lemma no_interface_inv:
  "modes_ok (modes s) \<Longrightarrow> br_ifaces_ap_instances s = [] \<Longrightarrow> no_interface s \<Longrightarrow> chip_inv s"
  by (simp add: chip_inv_def bridges_ok_def interfaces_ok_def no_interface_combo) (simp add: no_interface_def no_interface_combo [symmetric])

lemma no_interface_no_bridge: "chip_inv s \<Longrightarrow> ap_ifaces s = [] \<Longrightarrow> br_ifaces_ap_instances s = []"
  by (auto simp: chip_inv_def bridges_ok_def)

text \<open>The invariant reads these fields only.\<close>

lemma chip_inv_cong:
  assumes "ap_ifaces s' = ap_ifaces s" "br_ifaces_ap_instances s' = br_ifaces_ap_instances s"
    "nan_ifaces s' = nan_ifaces s" "p2p_ifaces s' = p2p_ifaces s" "sta_ifaces s' = sta_ifaces s"
    "modes s' = modes s" "current_mode_id s' = current_mode_id s"
  shows "chip_inv s' = chip_inv s"
proof -
  have "is_bridged s' = is_bridged s" using assms by (simp add: is_bridged_def fun_eq_iff)
  then have "getCurrentConcurrencyCombination s' = getCurrentConcurrencyCombination s"
    using assms by (intro ext) (simp add: getCurrentConcurrencyCombination_def split: IfaceConcurrencyType.splits)
  then show ?thesis using assms by (simp add: chip_inv_def bridges_ok_def interfaces_ok_def)
qed

lemma allowed_fewer:
  assumes "modes_ok ms" "allowed ms i need" "need' AP_BRIDGED \<le> need AP_BRIDGED"
    and "need' AP + need' AP_BRIDGED \<le> need AP + need AP_BRIDGED"
    and "\<And>t. t \<noteq> AP \<Longrightarrow> t \<noteq> AP_BRIDGED \<Longrightarrow> need' t \<le> need t"
  shows "allowed ms i need'"
proof -
  obtain m c where m: "find (\<lambda>m. mode_id m = i) ms = Some m" "c \<in> set (availableCombinations m)" "allows c need"
    using assms(2) by (auto simp: allowed_def)
  then have "bridge_ok c" using assms(1) by (auto simp: modes_ok_def find_Some_iff)
  then have "allows c need'" using allows_downgrade [OF m(3)] assms(3-5) by blast
  then show ?thesis using m by (auto simp: allowed_def)
qed

text \<open>Interfaces may go away, and a bridged access point may become a plain one.\<close>

lemma interfaces_fewer:
  assumes "chip_inv s" "modes s' = modes s" "current_mode_id s' = current_mode_id s"
    and "length (filter (is_bridged s') (ap_ifaces s')) \<le> length (filter (is_bridged s) (ap_ifaces s))"
    and "length (ap_ifaces s') \<le> length (ap_ifaces s)" "length (nan_ifaces s') \<le> length (nan_ifaces s)"
    and "length (p2p_ifaces s') \<le> length (p2p_ifaces s)" "length (sta_ifaces s') \<le> length (sta_ifaces s)"
  shows "interfaces_ok s'"
proof (cases "no_interface s")
  case True
  then have "no_interface s'" using assms(5-8) by (auto simp: no_interface_def)
  then show ?thesis by (simp add: interfaces_ok_def no_interface_combo)
next
  case False
  then have a: "allowed (modes s) (current_mode_id s) (getCurrentConcurrencyCombination s)"
    using assms(1) by (auto simp: chip_inv_def interfaces_ok_def no_interface_combo)
  have sum: "getCurrentConcurrencyCombination u AP + getCurrentConcurrencyCombination u AP_BRIDGED = length (ap_ifaces u)" for u
    using sum_length_filter_compl [of "is_bridged u" "ap_ifaces u"] by (simp add: getCurrentConcurrencyCombination_def)
  have "allowed (modes s) (current_mode_id s) (getCurrentConcurrencyCombination s')"
  proof (rule allowed_fewer [OF _ a])
    show "modes_ok (modes s)" using assms(1) by (simp add: chip_inv_def)
    fix t assume "t \<noteq> AP" "t \<noteq> AP_BRIDGED"
    then show "getCurrentConcurrencyCombination s' t \<le> getCurrentConcurrencyCombination s t"
      using assms(6-8) by (cases t) (simp_all add: getCurrentConcurrencyCombination_def)
  qed (use assms(4,5) sum in \<open>auto simp: getCurrentConcurrencyCombination_def\<close>)
  then show ?thesis using assms(2,3) by (simp add: interfaces_ok_def)
qed

end
