(* ===== verification/Wifi_Invariant.thy ===== *)
theory Wifi_Invariant
  imports Wifi_Reach
begin

text \<open>Every call of the chip's interface keeps the invariant of the chip.\<close>

section \<open>Removal\<close>

lemma set_activeE:
  assumes "set_active env s = Some s'"
  obtains n where "s' = setActiveWlanIfaceNameProperty env n s"
  using assms by (auto simp: set_active_def)

lemma set_active_inv: "set_active env s = Some s' \<Longrightarrow> chip_inv s' = chip_inv s"
  by (elim set_activeE, hypsubst, rule chip_inv_cong) simp_all

lemma notify_inv [simp]: "chip_inv (notify_all n s) = chip_inv s"
  by (rule chip_inv_cong) simp_all

lemma chip_call_inv [simp]: "chip_inv (chip_call c s) = chip_inv s"
  by (rule chip_inv_cong) simp_all

lemma hal_do_inv [simp]: "chip_inv (snd (hal_do f s)) = chip_inv s"
  by (rule chip_inv_cong) simp_all

lemma dependencies_frame:
  assumes "invalidateAndRemoveDependencies n s = Some s'"
  shows "ap_ifaces s' = ap_ifaces s" "br_ifaces_ap_instances s' = br_ifaces_ap_instances s"
    "nan_ifaces s' = filter (\<lambda>m. m \<noteq> Some n) (nan_ifaces s)" "p2p_ifaces s' = p2p_ifaces s"
    "sta_ifaces s' = sta_ifaces s" "modes s' = modes s" "current_mode_id s' = current_mode_id s"
    "is_valid s' = is_valid s"
  using assms by (auto simp: invalidateAndRemoveDependencies_def Option.bind_eq_Some_conv Let_def fold_frame)

lemma is_bridged_cong: "br_ifaces_ap_instances s' = br_ifaces_ap_instances s \<Longrightarrow> is_bridged s' = is_bridged s"
  by (simp add: is_bridged_def fun_eq_iff)

lemma fewer_inv:
  assumes "chip_inv s" "modes s' = modes s" "current_mode_id s' = current_mode_id s"
    and "ap_ifaces s' = ap_ifaces s" "br_ifaces_ap_instances s' = br_ifaces_ap_instances s"
    and "length (nan_ifaces s') \<le> length (nan_ifaces s)" "length (p2p_ifaces s') \<le> length (p2p_ifaces s)"
    and "length (sta_ifaces s') \<le> length (sta_ifaces s)" "distinct (sta_ifaces s')"
  shows "chip_inv s'"
proof -
  have "interfaces_ok s'"
    by (rule interfaces_fewer [OF assms(1-3)]) (use assms is_bridged_cong [OF assms(5)] in simp_all)
  then show ?thesis using assms by (simp add: chip_inv_def bridges_ok_def)
qed

lemma removeSta_inv:
  assumes "chip_inv s" "removeStaIfaceInternal env n s = Some (r, s')"
  shows "chip_inv s'"
proof (cases "n \<in> set (sta_ifaces s)")
  case True
  then obtain s1 s3 where s1: "invalidateAndRemoveDependencies n s = Some s1"
    and s3: "s3 = (snd (hal_do (deleteVirtualInterface env n) s1))\<lparr>sta_ifaces := remove1 n (sta_ifaces s1)\<rparr>"
    and s': "set_active env (notify_all (IfaceRemoved T_STA n) (chip_call (Invalidated T_STA n) s3)) = Some s'"
    using assms(2) by (auto simp: removeStaIfaceInternal_def Let_def Option.bind_eq_Some_conv)
  have "chip_inv s3"
    by (rule fewer_inv [OF assms(1)])
       (use dependencies_frame [OF s1] assms(1) in \<open>auto simp: s3 chip_inv_def length_remove1\<close>)
  then show ?thesis using set_active_inv [OF s'] by simp
next
  case False
  then show ?thesis using assms by (simp add: removeStaIfaceInternal_def)
qed

lemma removeP2p_inv:
  assumes "chip_inv s" "removeP2pIfaceInternal n s = Some (r, s')"
  shows "chip_inv s'"
proof (cases "n \<in> set (p2p_ifaces s)")
  case True
  have "chip_inv (s\<lparr>p2p_ifaces := remove1 n (p2p_ifaces s)\<rparr>)"
    by (rule fewer_inv [OF assms(1)]) (use assms(1) in \<open>auto simp: chip_inv_def length_remove1\<close>)
  then show ?thesis using assms(2) True by (auto simp: removeP2pIfaceInternal_def)
qed (use assms in \<open>simp add: removeP2pIfaceInternal_def\<close>)

lemma length_before: "length (takeWhile P xs @ tl (dropWhile P xs)) \<le> length xs"
  by (metis add_left_mono diff_le_self length_append length_tl takeWhile_dropWhile_id)

lemma removeNan_inv:
  assumes "chip_inv s" "removeNanIfaceInternal n s = Some (r, s')"
  shows "chip_inv s'"
proof -
  let ?ns = "takeWhile (\<lambda>m. m \<noteq> Some n) (nan_ifaces s) @ tl (dropWhile (\<lambda>m. m \<noteq> Some n) (nan_ifaces s))"
  have "chip_inv (s\<lparr>nan_ifaces := ?ns\<rparr>)"
    by (rule fewer_inv [OF assms(1)])
       (use assms(1) length_before [of "\<lambda>m. m \<noteq> Some n" "nan_ifaces s"] in \<open>simp_all add: chip_inv_def\<close>)
  then show ?thesis using assms by (auto simp: removeNanIfaceInternal_def Let_def split: if_splits)
qed

section \<open>Bridged access points\<close>

lemma clear_bridged_frame:
  "ap_ifaces (invalidateAndClearBridgedAp env br s) = ap_ifaces s"
  "nan_ifaces (invalidateAndClearBridgedAp env br s) = nan_ifaces s"
  "p2p_ifaces (invalidateAndClearBridgedAp env br s) = p2p_ifaces s"
  "sta_ifaces (invalidateAndClearBridgedAp env br s) = sta_ifaces s"
  "modes (invalidateAndClearBridgedAp env br s) = modes s"
  "current_mode_id (invalidateAndClearBridgedAp env br s) = current_mode_id s"
  by (auto simp: invalidateAndClearBridgedAp_def Let_def fold_frame split: option.splits)

lemma map_erase_absent: "k \<notin> fst ` set m \<Longrightarrow> map_erase k m = m"
  by (auto simp: map_erase_def filter_id_conv)

lemma clear_bridged_map:
  "br \<noteq> [] \<Longrightarrow> br_ifaces_ap_instances (invalidateAndClearBridgedAp env br s) = map_erase br (br_ifaces_ap_instances s)"
  by (auto simp: invalidateAndClearBridgedAp_def Let_def fold_frame map_of_eq_None_iff map_erase_absent split: option.splits)

lemma erase_ap_length: "length (erase_ap n as) \<le> length as"
  by (induction as) auto

lemma erase_ap_names: "k \<noteq> n \<Longrightarrow> k \<in> ap_name ` set as \<Longrightarrow> k \<in> ap_name ` set (erase_ap n as)"
  by (induction as) auto

lemma erase_ap_filter: "length (filter P (erase_ap n as)) \<le> length (filter P as)"
  by (induction as) auto

lemma filter_length_mono: "(\<And>x. P x \<Longrightarrow> Q x) \<Longrightarrow> length (filter P xs) \<le> length (filter Q xs)"
  by (induction xs) auto

lemma keys_map_erase: "fst ` set (map_erase k m) = fst ` set m - {k}"
  by (force simp: map_erase_def)

lemma remove_ap_core_inv:
  assumes "chip_inv s" "modes s' = modes s" "current_mode_id s' = current_mode_id s"
    and "ap_ifaces s' = erase_ap n (ap_ifaces s)"
    and "br_ifaces_ap_instances s' = map_erase n (br_ifaces_ap_instances s)"
    and "length (nan_ifaces s') \<le> length (nan_ifaces s)" "p2p_ifaces s' = p2p_ifaces s" "sta_ifaces s' = sta_ifaces s"
  shows "chip_inv s'"
proof -
  have br: "is_bridged s' a \<Longrightarrow> is_bridged s a" for a
    by (auto simp: is_bridged_def assms(5) map_of_map_erase split: option.splits if_splits)
  have "length (filter (is_bridged s') (erase_ap n (ap_ifaces s))) \<le> length (filter (is_bridged s') (ap_ifaces s))"
    by (rule erase_ap_filter)
  also have "\<dots> \<le> length (filter (is_bridged s) (ap_ifaces s))" by (rule filter_length_mono) (rule br)
  finally have "interfaces_ok s'"
    using interfaces_fewer [OF assms(1-3)] assms(4,6-8) erase_ap_length [of n "ap_ifaces s"] by simp
  moreover have "bridges_ok s'" using assms(1)
    by (auto simp: chip_inv_def bridges_ok_def assms(4,5) keys_map_erase ordered_map_erase intro: erase_ap_names)
  ultimately show ?thesis using assms(1,2,8) by (simp add: chip_inv_def)
qed

lemma removeAp_inv:
  assumes "chip_inv s" "removeApIfaceInternal env n s = Some (r, s')"
  shows "chip_inv s'"
proof (cases "n \<in> ap_name ` set (ap_ifaces s)")
  case True
  then obtain s1 s2 s3 where s1: "invalidateAndRemoveDependencies n s = Some s1"
    and s2: "s2 = invalidateAndClearBridgedAp env n s1"
    and s3: "s3 = (chip_call (Invalidated T_AP n) s2)\<lparr>ap_ifaces := erase_ap n (ap_ifaces s2)\<rparr>"
    and s': "set_active env (notify_all (IfaceRemoved T_AP n) s3) = Some s'"
    using assms(2) by (auto simp: removeApIfaceInternal_def Let_def Option.bind_eq_Some_conv)
  have "br_ifaces_ap_instances s2 = map_erase n (br_ifaces_ap_instances s)"
  proof (cases "n = []")
    case True
    then have "n \<notin> fst ` set (br_ifaces_ap_instances s)"
      using assms(1) by (force simp: chip_inv_def bridges_ok_def kApBridgeIfacePrefix_def)
    then show ?thesis using True dependencies_frame(2) [OF s1]
      by (simp add: s2 invalidateAndClearBridgedAp_def map_erase_absent)
  qed (simp add: s2 clear_bridged_map dependencies_frame(2) [OF s1])
  then have "chip_inv s3"
    by (intro remove_ap_core_inv [OF assms(1)])
       (use dependencies_frame [OF s1] in \<open>simp_all add: s3 s2 clear_bridged_frame\<close>)
  then show ?thesis using set_active_inv [OF s'] by simp
qed (use assms in \<open>simp add: removeApIfaceInternal_def\<close>)

lemma remove_instance_names [simp]: "map ap_name (remove_instance_of n i as) = map ap_name as"
  by (induction as) auto

lemma remove_instance_image [simp]: "ap_name ` set (remove_instance_of n i as) = ap_name ` set as"
  by (metis list.set_map remove_instance_names)

lemma remove_instance_length [simp]: "length (remove_instance_of n i as) = length as"
  by (metis length_map remove_instance_names)

lemma remove_instance_filter:
  "length (filter (is_bridged s) (remove_instance_of n i as)) = length (filter (is_bridged s) as)"
  by (induction as) (auto simp: is_bridged_def split: option.splits)

lemma remove_instance_core_inv:
  assumes "chip_inv s" "modes s' = modes s" "current_mode_id s' = current_mode_id s"
    and "ap_ifaces s' = remove_instance_of n i (ap_ifaces s)"
    and "br_ifaces_ap_instances s' = br_ifaces_ap_instances s \<or>
      (\<exists>is. map_of (br_ifaces_ap_instances s) n = Some is \<and>
        br_ifaces_ap_instances s' = map_put n (removeAll i is) (br_ifaces_ap_instances s))"
    and "nan_ifaces s' = nan_ifaces s" "p2p_ifaces s' = p2p_ifaces s" "sta_ifaces s' = sta_ifaces s"
  shows "chip_inv s'"
proof -
  have ord: "ordered (br_ifaces_ap_instances s)" using assms(1) by (simp add: chip_inv_def bridges_ok_def)
  have br: "is_bridged s a" if a: "is_bridged s' a" for a
    using assms(5)
  proof
    assume "br_ifaces_ap_instances s' = br_ifaces_ap_instances s"
    then show ?thesis using a by (simp add: is_bridged_def)
  next
    assume "\<exists>is. map_of (br_ifaces_ap_instances s) n = Some is \<and>
        br_ifaces_ap_instances s' = map_put n (removeAll i is) (br_ifaces_ap_instances s)"
    then obtain "is" where "is": "map_of (br_ifaces_ap_instances s) n = Some is"
      "br_ifaces_ap_instances s' = map_put n (removeAll i is) (br_ifaces_ap_instances s)" by blast
    then show ?thesis using a ord
      by (auto simp: is_bridged_def map_of_map_put split: option.splits if_splits
          intro: less_le_trans [OF _ length_removeAll_less_eq])
  qed
  have "length (filter (is_bridged s') (ap_ifaces s')) \<le> length (filter (is_bridged s) (ap_ifaces s))"
    unfolding assms(4) remove_instance_filter by (rule filter_length_mono) (rule br)
  then have "interfaces_ok s'" by (intro interfaces_fewer [OF assms(1-3)]) (use assms(4,6-8) in simp_all)
  moreover have "bridges_ok s'"
  proof -
    have "fst ` set (br_ifaces_ap_instances s') = fst ` set (br_ifaces_ap_instances s)"
      using assms(5) by (metis fst_conv image_eqI insert_absorb keys_map_put map_of_SomeD)
    moreover have "ordered (br_ifaces_ap_instances s')" using assms(5) ord ordered_map_put by auto
    ultimately show ?thesis using assms(1,4) by (simp add: chip_inv_def bridges_ok_def)
  qed
  ultimately show ?thesis using assms(1,2,8) by (simp add: chip_inv_def)
qed

text \<open>The part of the call that talks to the bridge and the driver.\<close>

definition instance_part :: "wifi_env \<Rightarrow> string \<Rightarrow> string \<Rightarrow> WifiChip \<Rightarrow> wifi_result \<times> WifiChip" where
  "instance_part env n i s = (case map_of (br_ifaces_ap_instances s) n of
             None \<Rightarrow> (None, s)
           | Some instances \<Rightarrow>
               if i \<notin> set instances then (None, s)
               else let (ok, s1) = tool env ''removeIfaceFromBridge'' [n, i] s
                    in if \<not> ok then (Some ERROR_NOT_AVAILABLE, s1)
                       else let (st, s2) = hal_do (deleteVirtualInterface env i) s1
                            in if st \<noteq> WIFI_SUCCESS then (createWifiStatusFromLegacyError st, s2)
                               else (None, s2\<lparr>br_ifaces_ap_instances :=
                                       map_put n (removeAll i instances) (br_ifaces_ap_instances s2)\<rparr>))"

lemma removeInstanceE:
  assumes "removeIfaceInstanceFromBridgedApIfaceInternal env n i s = Some (r, s')" "res = instance_part env n i s"
  obtains "s' = s" | e where "n \<in> ap_name ` set (ap_ifaces s)" "fst res = Some e" "s' = snd res"
  | "n \<in> ap_name ` set (ap_ifaces s)" "fst res = None"
    "set_active env ((snd res)\<lparr>ap_ifaces := remove_instance_of n i (ap_ifaces (snd res))\<rparr>) = Some s'"
proof (cases "n \<notin> ap_name ` set (ap_ifaces s) \<or> i = []")
  case True
  then show thesis using assms(1) that(1) by (auto simp: removeIfaceInstanceFromBridgedApIfaceInternal_def split: if_splits)
next
  case False
  have op: "(if fst res \<noteq> None then Some res
     else Option.bind (set_active env ((snd res)\<lparr>ap_ifaces := remove_instance_of n i (ap_ifaces (snd res))\<rparr>))
            (\<lambda>s2. Some (None, s2))) = Some (r, s')"
    using assms(1) False
    unfolding removeIfaceInstanceFromBridgedApIfaceInternal_def instance_part_def [symmetric] assms(2) [symmetric]
    by (cases res; cases "fst res") auto
  have n: "n \<in> ap_name ` set (ap_ifaces s)" using False by blast
  show thesis
  proof (cases "fst res")
    case None
    then have "set_active env ((snd res)\<lparr>ap_ifaces := remove_instance_of n i (ap_ifaces (snd res))\<rparr>) = Some s'"
      using op by (simp add: Option.bind_eq_Some_conv)
    then show ?thesis by (rule that(3) [OF n None])
  next
    case (Some e)
    then show ?thesis using op by (intro that(2) [OF n Some]) simp
  qed
qed

lemma removeInstance_inv:
  assumes "chip_inv s" "removeIfaceInstanceFromBridgedApIfaceInternal env n i s = Some (r, s')"
  shows "chip_inv s'"
proof -
  define res where "res = instance_part env n i s"
  have frame: "modes (snd res) = modes s" "current_mode_id (snd res) = current_mode_id s"
    "ap_ifaces (snd res) = ap_ifaces s" "nan_ifaces (snd res) = nan_ifaces s" "p2p_ifaces (snd res) = p2p_ifaces s"
    "sta_ifaces (snd res) = sta_ifaces s"
    by (simp_all add: res_def instance_part_def Let_def case_prod_beta split: option.splits)
  have br: "br_ifaces_ap_instances (snd res) = br_ifaces_ap_instances s \<or>
      (\<exists>is. map_of (br_ifaces_ap_instances s) n = Some is \<and>
        br_ifaces_ap_instances (snd res) = map_put n (removeAll i is) (br_ifaces_ap_instances s)) \<and> fst res = None"
    by (simp add: res_def instance_part_def Let_def case_prod_beta split: option.splits)
  show ?thesis
  proof (cases rule: removeInstanceE [OF assms(2) res_def])
    case (2 e)
    then show ?thesis using br assms(1) chip_inv_cong [of "snd res" s] frame by simp
  next
    case 3
    have "chip_inv ((snd res)\<lparr>ap_ifaces := remove_instance_of n i (ap_ifaces (snd res))\<rparr>)"
      by (rule remove_instance_core_inv [OF assms(1)]) (use frame br in auto)
    then show ?thesis using set_active_inv [OF 3(3)] by simp
  qed (use assms(1) in simp)
qed

section \<open>Creation\<close>

lemma interfaces_more:
  assumes "chip_inv s" "canCurrentModeSupportConcurrencyTypeWithCurrentTypes t s = Some True"
    and "modes s' = modes s" "current_mode_id s' = current_mode_id s"
    and "getCurrentConcurrencyCombination s' = plus_one t (getCurrentConcurrencyCombination s)"
  shows "interfaces_ok s'"
  using assms can_allowed [of s t] by (simp add: chip_inv_def interfaces_ok_def)

lemma first_free_fresh:
  "first_free env t s is = Some n \<Longrightarrow>
   n \<notin> set (sta_ifaces s) \<and> n \<notin> ap_name ` set (ap_ifaces s) \<and> n \<notin> fst ` set (br_ifaces_ap_instances s)"
proof (induction "is")
  case (Cons i "is")
  then show ?case
    by (force simp: findUsingNameFromBridgedApInstances_def list_ex_iff split: option.splits if_splits)
qed simp

lemma createSta_inv:
  assumes "chip_inv s" "createStaIfaceInternal env s = Some (r, s')"
  shows "chip_inv s'"
proof -
  obtain can where can: "canCurrentModeSupportConcurrencyTypeWithCurrentTypes STA s = Some can"
    using assms(1) can_allowed by (auto simp: chip_inv_def)
  show ?thesis
  proof (cases can)
    case True
    then obtain n where n: "allocateStaIfaceName env s = Some n"
      using assms(2) can by (auto simp: createStaIfaceInternal_def Option.bind_eq_Some_conv)
    let ?s1 = "snd (hal_do (createVirtualInterface env n T_STA) s)"
    let ?s2 = "(chip_call (Call ''wifi_set_nodfs_flag'' [n, ''0'']) ?s1)\<lparr>sta_ifaces := sta_ifaces ?s1 @ [n]\<rparr>"
    have "s' = ?s1 \<or> set_active env (notify_all (IfaceAdded T_STA n) ?s2) = Some s'"
      using assms(2) can True n by (auto simp: createStaIfaceInternal_def case_prod_beta Let_def split: if_splits)
    moreover have "chip_inv ?s2"
    proof -
      have "getCurrentConcurrencyCombination ?s2 = plus_one STA (getCurrentConcurrencyCombination s)"
        using is_bridged_cong [of ?s2 s]
        by (intro ext) (simp add: getCurrentConcurrencyCombination_def split: IfaceConcurrencyType.splits)
      then have "interfaces_ok ?s2" using interfaces_more [OF assms(1), of STA ?s2] can True by simp
      then show ?thesis using assms(1) n first_free_fresh
        by (auto simp: chip_inv_def bridges_ok_def allocateStaIfaceName_def allocateApOrStaIfaceName_def)
    qed
    ultimately show ?thesis using assms(1) set_active_inv by fastforce
  qed (use assms can in \<open>auto simp: createStaIfaceInternal_def\<close>)
qed

lemma canE:
  assumes "chip_inv s"
  obtains "canCurrentModeSupportConcurrencyTypeWithCurrentTypes t s = Some True"
  | "canCurrentModeSupportConcurrencyTypeWithCurrentTypes t s = Some False"
  using assms can_allowed [of s t] by (cases "allowed (modes s) (current_mode_id s) (plus_one t (getCurrentConcurrencyCombination s))")
    (auto simp: chip_inv_def)

lemma createP2p_inv:
  assumes "chip_inv s" "createP2pIfaceInternal env s = Some (r, s')"
  shows "chip_inv s'"
proof (cases rule: canE [OF assms(1), of P2P])
  case 1
  let ?s2 = "s\<lparr>p2p_ifaces := p2p_ifaces s @ [getPredefinedP2pIfaceName env s]\<rparr>"
  have "getCurrentConcurrencyCombination ?s2 = plus_one P2P (getCurrentConcurrencyCombination s)"
    using is_bridged_cong [of ?s2 s]
    by (intro ext) (simp add: getCurrentConcurrencyCombination_def split: IfaceConcurrencyType.splits)
  then have "interfaces_ok ?s2" using interfaces_more [OF assms(1) 1, of ?s2] by simp
  then have "chip_inv ?s2" using assms(1) by (simp add: chip_inv_def bridges_ok_def)
  then show ?thesis using assms(2) 1 by (auto simp: createP2pIfaceInternal_def Let_def)
qed (use assms in \<open>auto simp: createP2pIfaceInternal_def\<close>)

lemma createNan_inv:
  assumes "chip_inv s" "createNanIfaceInternal env s = Some (r, s')"
  shows "chip_inv s'"
proof (cases rule: canE [OF assms(1), of NAN_IFACE])
  case 1
  define ded where "ded \<longleftrightarrow> getPredefinedNanIfaceName env s \<noteq> [] \<and>
    if_index env (Call ''if_nametoindex'' [getPredefinedNanIfaceName env s] # chip_trace s) \<noteq> 0"
  obtain n where n: "(if ded then Some (getPredefinedNanIfaceName env s) else getFirstActiveWlanIfaceName env s) = Some n"
    using assms(2) 1 by (auto simp: createNanIfaceInternal_def ded_def Let_def Option.bind_eq_Some_conv)
  define s1 where "s1 = (if ded then snd (tool env ''SetUpState'' [n, ''true''] s) else s)"
  define up where "up \<longleftrightarrow> \<not> ded \<or> fst (tool env ''SetUpState'' [n, ''true''] s)"
  define s2 where "s2 = chip_call (if up then Call ''nan_register_handler'' [n] else Invalidated T_NAN_IFACE n) s1"
  define s3 where "s3 = s2\<lparr>nan_ifaces := nan_ifaces s2 @ [if up then Some n else None]\<rparr>"
  have s': "s' = notify_all (IfaceAdded T_NAN_IFACE n) s3"
    using assms(2) 1 n by (auto simp: createNanIfaceInternal_def ded_def s1_def s2_def s3_def up_def case_prod_beta Let_def)
  have f: "ap_ifaces s3 = ap_ifaces s" "br_ifaces_ap_instances s3 = br_ifaces_ap_instances s" "p2p_ifaces s3 = p2p_ifaces s"
    "sta_ifaces s3 = sta_ifaces s" "length (nan_ifaces s3) = Suc (length (nan_ifaces s))" "modes s3 = modes s"
    "current_mode_id s3 = current_mode_id s"
    by (simp_all add: s3_def s2_def s1_def)
  have "getCurrentConcurrencyCombination s3 = plus_one NAN_IFACE (getCurrentConcurrencyCombination s)"
    by (intro ext) (simp add: getCurrentConcurrencyCombination_def f is_bridged_cong [OF f(2)] split: IfaceConcurrencyType.splits)
  then have "interfaces_ok s3" using interfaces_more [OF assms(1) 1, of s3] by (simp add: f)
  then have "chip_inv s3" using assms(1) by (simp add: chip_inv_def bridges_ok_def f)
  then show ?thesis by (simp add: s')
qed (use assms in \<open>auto simp: createNanIfaceInternal_def\<close>)

lemma ap_name_not_bridged:
  assumes "chip_inv s" "(if dual_interface env then Some (dual_ap_name env s) else allocateApIfaceName env s) = Some n"
  shows "n \<notin> fst ` set (br_ifaces_ap_instances s)"
proof (cases "dual_interface env")
  case True
  then have "take 6 n \<noteq> kApBridgeIfacePrefix"
    using assms(2) by (auto simp: dual_ap_name_def kApBridgeIfacePrefix_def Let_def split: if_splits)
  then show ?thesis using assms(1) by (auto simp: chip_inv_def bridges_ok_def)
next
  case False
  then have a: "allocateApIfaceName env s = Some n" using assms(2) by simp
  have "n \<notin> ap_name ` set (ap_ifaces s)"
  proof (cases "find (\<lambda>n. n \<notin> ap_name ` set (ap_ifaces s)) (getPredefinedApIfaceNames env True s)")
    case None
    then obtain start where "first_free env T_AP s [start..<kMaxWlanIfaces] = Some n"
      using a by (auto simp: allocateApIfaceName_def allocateApOrStaIfaceName_def Option.bind_eq_Some_conv)
    then show ?thesis by (simp add: first_free_fresh)
  next
    case (Some m)
    then have "m = n" using a by (simp add: allocateApIfaceName_def)
    then show ?thesis using Some by (auto simp: find_Some_iff)
  qed
  then show ?thesis using assms(1) by (auto simp: chip_inv_def bridges_ok_def)
qed

lemma newAp_inv:
  assumes "newWifiApIface env n s = Some s'"
  shows "\<exists>a. ap_name a = n \<and> chip_inv s' = chip_inv (s\<lparr>ap_ifaces := ap_ifaces s @ [a]\<rparr>)"
proof -
  let ?a = "\<lparr>ap_name = n, ap_instances = (case map_of (br_ifaces_ap_instances s) n of None \<Rightarrow> [] | Some is \<Rightarrow> is)\<rparr>"
  have "set_active env (notify_all (IfaceAdded T_AP n) (s\<lparr>ap_ifaces := ap_ifaces s @ [?a]\<rparr>)) = Some s'"
    using assms by (simp add: newWifiApIface_def Let_def)
  then show ?thesis using set_active_inv by (intro exI [of _ ?a]) fastforce
qed

lemma createAp_inv:
  assumes "chip_inv s" "createApIfaceInternal env s = Some (r, s')"
  shows "chip_inv s'"
proof (cases rule: canE [OF assms(1), of AP])
  case 1
  define s1 where "s1 = (if dual_interface env then chip_call (Call ''property_set'' [''vendor.w1_wifi_type'', ''ap'']) s else s)"
  obtain n where n: "(if dual_interface env then Some (dual_ap_name env s) else allocateApIfaceName env s) = Some n"
    using assms(2) 1 by (auto simp: createApIfaceInternal_def Let_def Option.bind_eq_Some_conv)
  let ?s2 = "snd (createVirtualApInterface env n s1)"
  have s1: "chip_inv ?s2" using assms(1) chip_inv_cong [of ?s2 s] by (simp add: s1_def)
  have "s' = ?s2 \<or> newWifiApIface env n ?s2 = Some s'"
    using assms(2) 1 n by (auto simp: createApIfaceInternal_def s1_def case_prod_beta Let_def split: if_splits)
  moreover have "chip_inv (?s2\<lparr>ap_ifaces := ap_ifaces ?s2 @ [a]\<rparr>)" if a: "ap_name a = n" for a
  proof -
    define s3 where "s3 = ?s2\<lparr>ap_ifaces := ap_ifaces ?s2 @ [a]\<rparr>"
    have f: "ap_ifaces s3 = ap_ifaces s @ [a]" "br_ifaces_ap_instances s3 = br_ifaces_ap_instances s"
      "p2p_ifaces s3 = p2p_ifaces s" "sta_ifaces s3 = sta_ifaces s" "nan_ifaces s3 = nan_ifaces s" "modes s3 = modes s"
      "current_mode_id s3 = current_mode_id s"
      by (simp_all add: s3_def s1_def)
    have "\<not> is_bridged s a"
      using ap_name_not_bridged [OF assms(1) n] by (simp add: is_bridged_def a map_of_eq_None_iff [THEN iffD2])
    then have "getCurrentConcurrencyCombination s3 = plus_one AP (getCurrentConcurrencyCombination s)"
      by (intro ext) (simp add: getCurrentConcurrencyCombination_def f is_bridged_cong [OF f(2)] split: IfaceConcurrencyType.splits)
    then have "interfaces_ok s3" using interfaces_more [OF assms(1) 1, of s3] by (simp add: f)
    then have "chip_inv s3" using assms(1) by (auto simp: chip_inv_def bridges_ok_def f)
    then show ?thesis by (simp add: s3_def)
  qed
  ultimately show ?thesis using s1 newAp_inv by metis
qed (use assms in \<open>auto simp: createApIfaceInternal_def\<close>)

lemma can_bridged_no_ap:
  assumes "chip_inv s" "canCurrentModeSupportConcurrencyTypeWithCurrentTypes AP_BRIDGED s = Some True"
  shows "ap_ifaces s = [] \<and> br_ifaces_ap_instances s = []"
proof -
  let ?n = "getCurrentConcurrencyCombination s"
  have m: "modes_ok (modes s)" using assms(1) by (simp add: chip_inv_def)
  obtain c where c: "c \<in> set (getCurrentModeConcurrencyCombinations s)" "allows c (plus_one AP_BRIDGED ?n)"
    using assms(2) can_create [OF m] by auto
  have "?n AP = 0 \<and> ?n AP_BRIDGED = 0"
    using bridged_alone [OF c(2)] combinations_ok [OF m c(1)] by simp
  then have "ap_ifaces s = []"
    using sum_length_filter_compl [of "is_bridged s" "ap_ifaces s"] by (simp add: getCurrentConcurrencyCombination_def)
  then show ?thesis using no_interface_no_bridge [OF assms(1)] by simp
qed

lemma createBridgedE:
  assumes "createBridgedApIfaceInternal env s = Some (r, s')"
    and "canCurrentModeSupportConcurrencyTypeWithCurrentTypes AP_BRIDGED s = Some True"
  obtains "s' = s"
  | i where "s' = snd (createVirtualApInterface env i s)"
  | i j where "s' = snd (hal_do (deleteVirtualInterface env i)
      (snd (createVirtualApInterface env j (snd (createVirtualApInterface env i s)))))"
  | "is" s2 where "2 \<le> length is"
      "s2 = snd (createVirtualApInterface env (is ! 1) (snd (createVirtualApInterface env (is ! 0) s)))"
      "s' = invalidateAndClearBridgedAp env (kApBridgeIfacePrefix @ is ! 0)
         (snd (createBridge env (kApBridgeIfacePrefix @ is ! 0)
           (s2\<lparr>br_ifaces_ap_instances := map_put (kApBridgeIfacePrefix @ is ! 0) is (br_ifaces_ap_instances s2)\<rparr>)))"
  | "is" s2 s4 where "2 \<le> length is"
      "s2 = snd (createVirtualApInterface env (is ! 1) (snd (createVirtualApInterface env (is ! 0) s)))"
      "s4 = snd (bridge_all env (kApBridgeIfacePrefix @ is ! 0) is
         (snd (createBridge env (kApBridgeIfacePrefix @ is ! 0)
           (s2\<lparr>br_ifaces_ap_instances := map_put (kApBridgeIfacePrefix @ is ! 0) is (br_ifaces_ap_instances s2)\<rparr>))))"
      "s' = invalidateAndClearBridgedAp env (kApBridgeIfacePrefix @ is ! 0) s4 \<or>
       newWifiApIface env (kApBridgeIfacePrefix @ is ! 0) s4 = Some s'"
proof -
  obtain "is" where "is": "allocateBridgedApInstanceNames env s = Some is"
    using assms by (auto simp: createBridgedApIfaceInternal_def Let_def Option.bind_eq_Some_conv)
  note op = assms(1) [unfolded createBridgedApIfaceInternal_def assms(2) "is" Let_def case_prod_beta, simplified]
  define i0 where "i0 = is ! 0"
  define i1 where "i1 = is ! 1"
  note op' = op [folded i0_def i1_def]
  define s1 where "s1 = createVirtualApInterface env i0 s"
  define s2 where "s2 = createVirtualApInterface env i1 (snd s1)"
  note op'' = op' [folded s1_def s2_def]
  show thesis
  proof (cases "length is < 2")
    case True
    then show ?thesis using op that(1) by simp
  next
    case len: False
    show ?thesis
    proof (cases "fst s1")
      case (Some e)
      then have "s' = snd s1" using op'' len by (cases s1) auto
      then show ?thesis using that(2) by (simp add: s1_def)
    next
      case None1: None
      show ?thesis
      proof (cases "fst s2")
        case (Some e)
        then have "s' = snd (hal_do (deleteVirtualInterface env i0) (snd s2))" using op'' len None1 by (cases s2) auto
        then show ?thesis using that(3) by (simp add: s1_def s2_def)
      next
        case None
        then show ?thesis using op'' len None1 that(4) [of "is" "snd s2"] that(5) [of "is" "snd s2"]
          by (auto simp: s1_def s2_def i0_def i1_def split: if_splits)
      qed
    qed
  qed
qed

lemma createBridged_inv:
  assumes "chip_inv s" "createBridgedApIfaceInternal env s = Some (r, s')"
  shows "chip_inv s'"
proof (cases rule: canE [OF assms(1), of AP_BRIDGED])
  case 1
  have none: "ap_ifaces s = []" "br_ifaces_ap_instances s = []" using can_bridged_no_ap [OF assms(1) 1] by auto
  have cleared: "chip_inv (invalidateAndClearBridgedAp env br u)"
    if "br \<noteq> []" "br_ifaces_ap_instances u = [(br, is)]" "ap_ifaces u = []" "nan_ifaces u = nan_ifaces s"
      "p2p_ifaces u = p2p_ifaces s" "sta_ifaces u = sta_ifaces s" "modes u = modes s" "current_mode_id u = current_mode_id s"
    for br "is" and u :: WifiChip
  proof -
    have "br_ifaces_ap_instances (invalidateAndClearBridgedAp env br u) = []"
      using that by (simp add: clear_bridged_map map_erase_def)
    then show ?thesis using assms(1) that chip_inv_cong [of "invalidateAndClearBridgedAp env br u" s] none
      by (simp add: clear_bridged_frame)
  qed
  show ?thesis using assms(2) 1
  proof (cases rule: createBridgedE)
    case (2 i)
    then show ?thesis using assms(1) chip_inv_cong [of s' s] by simp
  next
    case (3 i j)
    then show ?thesis using assms(1) chip_inv_cong [of s' s] by simp
  next
    case (4 "is" s2)
    show ?thesis unfolding 4(3)
      by (rule cleared [of _ _ "is"]) (simp_all add: 4(2) none kApBridgeIfacePrefix_def)
  next
    case (5 "is" s2 s4)
    let ?br = "kApBridgeIfacePrefix @ is ! 0"
    have f: "ap_ifaces s4 = []" "br_ifaces_ap_instances s4 = [(?br, is)]" "p2p_ifaces s4 = p2p_ifaces s"
      "sta_ifaces s4 = sta_ifaces s" "nan_ifaces s4 = nan_ifaces s" "modes s4 = modes s" "current_mode_id s4 = current_mode_id s"
      by (simp_all add: 5(2,3) none)
    have "chip_inv (invalidateAndClearBridgedAp env ?br s4)"
      by (rule cleared [of _ _ "is"]) (simp_all add: f kApBridgeIfacePrefix_def)
    moreover have "chip_inv (s4\<lparr>ap_ifaces := ap_ifaces s4 @ [a]\<rparr>)" if a: "ap_name a = ?br" for a
    proof -
      define s5 where "s5 = s4\<lparr>ap_ifaces := ap_ifaces s4 @ [a]\<rparr>"
      have "is_bridged s5 a" using 5(1) by (simp add: is_bridged_def s5_def f a)
      then have "getCurrentConcurrencyCombination s5 = plus_one AP_BRIDGED (getCurrentConcurrencyCombination s)"
        by (intro ext) (simp add: getCurrentConcurrencyCombination_def s5_def f none split: IfaceConcurrencyType.splits)
      then have "interfaces_ok s5" using interfaces_more [OF assms(1) 1, of s5] by (simp add: s5_def f)
      then have "chip_inv s5" using assms(1) by (simp add: chip_inv_def bridges_ok_def s5_def f a kApBridgeIfacePrefix_def)
      then show ?thesis by (simp add: s5_def)
    qed
    ultimately show ?thesis using 5(4) newAp_inv by metis
  qed (use assms(1) in simp)
qed (use assms in \<open>auto simp: createBridgedApIfaceInternal_def\<close>)

section \<open>Configuration\<close>

lemma clear_all_frame:
  "ap_ifaces (invalidateAndClearBridgedApAll env s) = ap_ifaces s"
  "nan_ifaces (invalidateAndClearBridgedApAll env s) = nan_ifaces s"
  "p2p_ifaces (invalidateAndClearBridgedApAll env s) = p2p_ifaces s"
  "sta_ifaces (invalidateAndClearBridgedApAll env s) = sta_ifaces s"
  "modes (invalidateAndClearBridgedApAll env s) = modes s"
  "current_mode_id (invalidateAndClearBridgedApAll env s) = current_mode_id s"
  "is_valid (invalidateAndClearBridgedApAll env s) = is_valid s"
  "br_ifaces_ap_instances (invalidateAndClearBridgedApAll env s) = []"
  by (simp_all add: invalidateAndClearBridgedApAll_def fold_frame case_prod_beta)

lemma remove_all_frame:
  assumes "invalidateAndRemoveAllIfaces env s = Some s'"
  shows "no_interface s'" "br_ifaces_ap_instances s' = []" "modes s' = modes s" "current_mode_id s' = current_mode_id s"
    "is_valid s' = is_valid s"
  using assms by (auto simp: invalidateAndRemoveAllIfaces_def Let_def Option.bind_eq_Some_conv no_interface_def
      fold_frame clear_all_frame)

lemma retrieve_dynamic_frame:
  "ap_ifaces (retrieveDynamicIfaceCombination env s) = ap_ifaces s"
  "nan_ifaces (retrieveDynamicIfaceCombination env s) = nan_ifaces s"
  "p2p_ifaces (retrieveDynamicIfaceCombination env s) = p2p_ifaces s"
  "sta_ifaces (retrieveDynamicIfaceCombination env s) = sta_ifaces s"
  "current_mode_id (retrieveDynamicIfaceCombination env s) = current_mode_id s"
  "is_valid (retrieveDynamicIfaceCombination env s) = is_valid s"
  "br_ifaces_ap_instances (retrieveDynamicIfaceCombination env s) = br_ifaces_ap_instances s"
  by (simp_all add: retrieveDynamicIfaceCombination_def Let_def split: option.splits)

lemma retrieve_dynamic_modes:
  "modes (retrieveDynamicIfaceCombination env s) = modes s \<or>
   (\<exists>m tr. modes (retrieveDynamicIfaceCombination env s) = [m\<lparr>mode_id := kV3\<rparr>] \<and>
      convertLegacyIfaceCombinationsMatrixToChipMode (matrix env tr) = Some m)"
  by (auto simp: retrieveDynamicIfaceCombination_def Let_def split: option.splits)

lemma debug_info_frame:
  assumes "requestChipDebugInfoInternal env s = Some (info, s')"
  shows "ap_ifaces s' = ap_ifaces s" "nan_ifaces s' = nan_ifaces s" "p2p_ifaces s' = p2p_ifaces s"
    "sta_ifaces s' = sta_ifaces s" "modes s' = modes s" "current_mode_id s' = current_mode_id s" "is_valid s' = is_valid s"
    "br_ifaces_ap_instances s' = br_ifaces_ap_instances s"
  using assms by (auto simp: requestChipDebugInfoInternal_def Let_def Option.bind_eq_Some_conv split: if_splits)

text \<open>A configuration in steps: stop, change of the firmware, start, questions to the driver.\<close>

definition same_ifaces :: "WifiChip \<Rightarrow> WifiChip \<Rightarrow> bool" where
  "same_ifaces s' s \<longleftrightarrow> ap_ifaces s' = ap_ifaces s \<and> nan_ifaces s' = nan_ifaces s \<and> p2p_ifaces s' = p2p_ifaces s \<and>
     sta_ifaces s' = sta_ifaces s \<and> br_ifaces_ap_instances s' = br_ifaces_ap_instances s \<and>
     current_mode_id s' = current_mode_id s \<and> is_valid s' = is_valid s"

lemma same_ifaces_trans: "same_ifaces a b \<Longrightarrow> same_ifaces b c \<Longrightarrow> same_ifaces a c"
  by (simp add: same_ifaces_def)

definition stop_part :: "wifi_env \<Rightarrow> WifiChip \<Rightarrow> (int \<times> WifiChip) option" where
  "stop_part env s =
     (if isValidModeId (current_mode_id s) s
      then do {
        s1 \<leftarrow> invalidateAndRemoveAllIfaces env s;
        (st, h) \<leftarrow> hal_stop env (legacy s1);
        Some (st, s1\<lparr>legacy := h\<rparr>) }
      else Some (WIFI_SUCCESS, s))"

definition started_part :: "wifi_env \<Rightarrow> WifiChip \<Rightarrow> WifiChip option" where
  "started_part env s3 = do {
     ifname \<leftarrow> getFirstActiveWlanIfaceName env s3;
     let s4 = chip_call (Call ''wifi_set_radio_mode_change_handler'' [ifname]) s3;
     (info, s5) \<leftarrow> requestChipDebugInfoInternal env s4;
     let s6 = (case info of None \<Rightarrow> s5
               | Some (driver, firmware) \<Rightarrow>
                   chip_call (Call ''property_set'' [''vendor.wlan.driver.version'', driver])
                     (chip_call (Call ''property_set'' [''vendor.wlan.firmware.version'', firmware]) s5));
     Some (retrieveDynamicIfaceCombination env s6) }"

definition mode_part :: "wifi_env \<Rightarrow> int \<Rightarrow> WifiChip \<Rightarrow> bool \<times> WifiChip" where
  "mode_part env i s = (if i = kV1Sta then changeFirmwareMode env T_STA s
                        else if i = kV1Ap then changeFirmwareMode env T_AP s else (True, s))"

lemma handleChipConfiguration_parts:
  "handleChipConfiguration env i s = do {
     (stopped, s1) \<leftarrow> stop_part env s;
     if stopped \<noteq> WIFI_SUCCESS then Some (createWifiStatusFromLegacyError stopped, s1)
     else do {
       let (changed, s2) = mode_part env i s1;
       if \<not> changed then Some (Some ERROR_UNKNOWN, s2)
       else do {
         (st, h) \<leftarrow> hal_start env (legacy s2);
         if st \<noteq> WIFI_SUCCESS then Some (createWifiStatusFromLegacyError st, s2\<lparr>legacy := h\<rparr>)
         else map_option (Pair None) (started_part env (s2\<lparr>legacy := h\<rparr>)) } } }"
proof -
  have "map_option (Pair None) (started_part env u) = do {
       ifname \<leftarrow> getFirstActiveWlanIfaceName env u;
       let s4 = chip_call (Call ''wifi_set_radio_mode_change_handler'' [ifname]) u;
       (info, s5) \<leftarrow> requestChipDebugInfoInternal env s4;
       let s6 = (case info of None \<Rightarrow> s5
                 | Some (driver, firmware) \<Rightarrow>
                     chip_call (Call ''property_set'' [''vendor.wlan.driver.version'', driver])
                       (chip_call (Call ''property_set'' [''vendor.wlan.firmware.version'', firmware]) s5));
       Some (None :: wifi_result, retrieveDynamicIfaceCombination env s6) }" for u
    unfolding started_part_def
    by (cases "getFirstActiveWlanIfaceName env u";
        cases "requestChipDebugInfoInternal env
          (chip_call (Call ''wifi_set_radio_mode_change_handler'' [the (getFirstActiveWlanIfaceName env u)]) u)")
       (auto simp: Let_def)
  then show ?thesis
    unfolding handleChipConfiguration_def stop_part_def mode_part_def Let_def by presburger
qed

end
