(* ===== verification/Wifi_Configure.thy ===== *)
theory Wifi_Configure
  imports Wifi_Invariant
begin

text \<open>Configuration and the remaining calls keep the invariant, and so does every reachable state.\<close>

lemma started_part_frame:
  assumes "started_part env s = Some s'"
  shows "same_ifaces s' s \<and> (modes s' = modes s \<or>
     (\<exists>m tr. modes s' = [m\<lparr>mode_id := kV3\<rparr>] \<and> convertLegacyIfaceCombinationsMatrixToChipMode (matrix env tr) = Some m))"
proof -
  obtain n info s5 s6 where s5: "requestChipDebugInfoInternal env
      (chip_call (Call ''wifi_set_radio_mode_change_handler'' [n]) s) = Some (info, s5)"
    and s6: "s6 = (case info of None \<Rightarrow> s5 | Some (driver, firmware) \<Rightarrow>
       chip_call (Call ''property_set'' [''vendor.wlan.driver.version'', driver])
         (chip_call (Call ''property_set'' [''vendor.wlan.firmware.version'', firmware]) s5))"
    and s': "s' = retrieveDynamicIfaceCombination env s6"
    using assms by (auto simp: started_part_def Let_def Option.bind_eq_Some_conv)
  have "same_ifaces s6 s \<and> modes s6 = modes s"
    using debug_info_frame [OF s5] by (simp add: same_ifaces_def s6 split: option.splits)
  then show ?thesis using retrieve_dynamic_modes [of env s6] by (simp add: s' same_ifaces_def retrieve_dynamic_frame)
qed

lemma mode_part_frame: "same_ifaces (snd (mode_part env i s)) s \<and> modes (snd (mode_part env i s)) = modes s"
  by (simp add: mode_part_def same_ifaces_def changeFirmwareMode_def)

lemma stop_part_frame:
  assumes "chip_inv s" "stop_part env s = Some (st, s1)"
  shows "no_interface s1 \<and> br_ifaces_ap_instances s1 = [] \<and> modes s1 = modes s \<and>
    current_mode_id s1 = current_mode_id s \<and> is_valid s1 = is_valid s"
proof (cases "isValidModeId (current_mode_id s) s")
  case True
  then obtain u h where "invalidateAndRemoveAllIfaces env s = Some u" "s1 = u\<lparr>legacy := h\<rparr>"
    using assms(2) by (auto simp: stop_part_def Option.bind_eq_Some_conv)
  then show ?thesis using remove_all_frame [of env s u] by (simp add: no_interface_def)
next
  case False
  then have "no_interface s" by (rule invalid_mode_no_interface [OF assms(1)])
  then show ?thesis using assms False no_interface_no_bridge [OF assms(1)] by (simp add: stop_part_def no_interface_def)
qed

lemma handle_frame:
  assumes "chip_inv s" "handleChipConfiguration env i s = Some (r, s')"
  shows "no_interface s' \<and> br_ifaces_ap_instances s' = [] \<and> current_mode_id s' = current_mode_id s \<and> is_valid s' = is_valid s \<and>
    (modes s' = modes s \<or> r = None \<and>
     (\<exists>m tr. modes s' = [m\<lparr>mode_id := kV3\<rparr>] \<and> convertLegacyIfaceCombinationsMatrixToChipMode (matrix env tr) = Some m))"
proof -
  obtain st s1 where s1: "stop_part env s = Some (st, s1)"
    using assms(2) by (auto simp: handleChipConfiguration_parts Option.bind_eq_Some_conv)
  let ?s2 = "snd (mode_part env i s1)"
  have f2: "no_interface ?s2 \<and> br_ifaces_ap_instances ?s2 = [] \<and> modes ?s2 = modes s \<and>
      current_mode_id ?s2 = current_mode_id s \<and> is_valid ?s2 = is_valid s"
    using stop_part_frame [OF assms(1) s1] mode_part_frame [of env i s1] by (simp add: same_ifaces_def no_interface_def)
  have "s' = s1 \<or> s' = ?s2 \<or> (\<exists>h. s' = ?s2\<lparr>legacy := h\<rparr> \<or> r = None \<and> started_part env (?s2\<lparr>legacy := h\<rparr>) = Some s')"
    using assms(2) s1
    by (fastforce simp: handleChipConfiguration_parts case_prod_beta Let_def Option.bind_eq_Some_conv split: if_splits)
  then show ?thesis
  proof (elim disjE exE conjE)
    fix h assume h: "r = None" "started_part env (?s2\<lparr>legacy := h\<rparr>) = Some s'"
    show ?thesis using started_part_frame [OF h(2)] f2 h(1) by (auto simp: same_ifaces_def no_interface_def)
  qed (use stop_part_frame [OF assms(1) s1] f2 in \<open>auto simp: no_interface_def\<close>)
qed

lemma dynamic_modes_ok:
  "matrix_ok env \<Longrightarrow> convertLegacyIfaceCombinationsMatrixToChipMode (matrix env tr) = Some m \<Longrightarrow> modes_ok [m\<lparr>mode_id := i\<rparr>]"
  by (auto simp: matrix_ok_def modes_ok_def)

lemma configure_inv:
  assumes "chip_inv s" "matrix_ok env" "configureChipInternal env i s = Some (r, s')"
  shows "chip_inv s'"
proof (cases "\<not> isValidModeId i s \<or> i = current_mode_id s")
  case False
  then obtain r1 s1 where s1: "handleChipConfiguration env i s = Some (r1, s1)"
    using assms(3) by (auto simp: configureChipInternal_def Option.bind_eq_Some_conv split: if_splits)
  have f: "no_interface s1" "br_ifaces_ap_instances s1 = []" using handle_frame [OF assms(1) s1] by auto
  have "modes_ok (modes s1)"
    using handle_frame [OF assms(1) s1] assms(1) dynamic_modes_ok [OF assms(2)] by (auto simp: chip_inv_def)
  then have inv: "chip_inv (s1\<lparr>current_mode_id := j\<rparr>)" "chip_inv s1" for j
    using f by (auto intro!: no_interface_inv simp: no_interface_def)
  have step: "(case r1 of
          Some e \<Rightarrow> Some (Some e, notify_all (ChipReconfigureFailure e) s1)
        | None \<Rightarrow> do {
            s2 \<leftarrow> set_active env ((notify_all (ChipReconfigured i) s1)\<lparr>current_mode_id := i\<rparr>);
            Some (None, chip_call (Call ''wifi_set_subsystem_restart_handler'' []) s2) }) = Some (r, s')"
    using assms(3) False s1 by (simp add: configureChipInternal_def)
  show ?thesis
  proof (cases r1)
    case None
    then obtain s2 where "set_active env ((notify_all (ChipReconfigured i) s1)\<lparr>current_mode_id := i\<rparr>) = Some s2"
      and s': "s' = chip_call (Call ''wifi_set_subsystem_restart_handler'' []) s2"
      using step by (auto simp: Option.bind_eq_Some_conv)
    then have "chip_inv s2 = chip_inv ((notify_all (ChipReconfigured i) s1)\<lparr>current_mode_id := i\<rparr>)" using set_active_inv by blast
    also have "\<dots> = chip_inv (s1\<lparr>current_mode_id := i\<rparr>)" by (rule chip_inv_cong) simp_all
    finally show ?thesis using inv(1) by (simp add: s')
  next
    case (Some e)
    then show ?thesis using step inv(2) by auto
  qed
qed (use assms in \<open>auto simp: configureChipInternal_def split: if_splits\<close>)

section \<open>The other calls\<close>

lemma register_callback_inv:
  "chip_inv s \<Longrightarrow> registerEventCallbackInternal env cb s = Some (r, s') \<Longrightarrow> chip_inv s'"
  by (erule chip_inv_cong [THEN iffD2, rotated -1])
     (auto simp: registerEventCallbackInternal_def addCallback_def case_prod_beta Let_def split: if_splits)

lemma rtt_inv: "chip_inv s \<Longrightarrow> createRttControllerInternal env s = Some (r, s') \<Longrightarrow> chip_inv s'"
  by (erule chip_inv_cong [THEN iffD2, rotated -1])
     (auto simp: createRttControllerInternal_def Option.bind_eq_Some_conv split: if_splits)

lemma register_ring_frame:
  assumes "registerDebugRingBufferCallback env s = Some (r, s')"
  shows "same_ifaces s' s \<and> modes s' = modes s"
proof (cases "debug_ring_buffer_cb_registered s")
  case False
  then obtain n where n: "getFirstActiveWlanIfaceName env s = Some n"
    using assms by (cases "getFirstActiveWlanIfaceName env s") (simp_all add: registerDebugRingBufferCallback_def)
  have "s' = (if status env (chip_trace (chip_call (Call ''wifi_set_log_handler'' [n]) s)) = WIFI_SUCCESS
      then (chip_call (Call ''wifi_set_log_handler'' [n]) s)\<lparr>debug_ring_buffer_cb_registered := True\<rparr>
      else chip_call (Call ''wifi_set_log_handler'' [n]) s)"
    using assms False unfolding registerDebugRingBufferCallback_def n Let_def by simp
  then show ?thesis by (simp add: same_ifaces_def)
qed (use assms in \<open>simp add: registerDebugRingBufferCallback_def same_ifaces_def\<close>)

lemma start_logging_frame:
  assumes "startLoggingToDebugRingBufferInternal env ring s = Some (r, s')"
  shows "same_ifaces s' s \<and> modes s' = modes s"
proof -
  obtain r1 s1 where s1: "registerDebugRingBufferCallback env s = Some (r1, s1)"
    using assms by (auto simp: startLoggingToDebugRingBufferInternal_def Option.bind_eq_Some_conv)
  then have "same_ifaces s' s1 \<and> modes s' = modes s1"
    using assms by (auto simp: startLoggingToDebugRingBufferInternal_def Let_def same_ifaces_def Option.bind_eq_Some_conv split: if_splits)
  then show ?thesis using register_ring_frame [OF s1] same_ifaces_trans by auto
qed

lemma stop_logging_frame:
  assumes "stopLoggingToDebugRingBufferInternal env s = Some (r, s')"
  shows "same_ifaces s' s \<and> modes s' = modes s"
  using assms by (clarsimp simp: stopLoggingToDebugRingBufferInternal_def Let_def same_ifaces_def Option.bind_eq_Some_conv)

lemma same_inv: "same_ifaces s' s \<Longrightarrow> modes s' = modes s \<Longrightarrow> chip_inv s \<Longrightarrow> chip_inv s'"
  using chip_inv_cong [of s' s] by (simp add: same_ifaces_def)

lemma work_inv:
  assumes "chip_inv s" "matrix_ok env" "chip_work env fe op s = Some (r, s')"
  shows "chip_inv s'"
proof (cases op)
  case (CallbackDeath cb)
  then show ?thesis using assms by (auto simp: handleCallbackDeath_def intro!: same_inv [OF _ _ assms(1)] simp: same_ifaces_def)
next
  case DebugInfo
  then obtain info where "requestChipDebugInfoInternal env s = Some (info, s')" using assms(3) by auto
  then show ?thesis using debug_info_frame by (intro same_inv [OF _ _ assms(1)]) (auto simp: same_ifaces_def)
next
  case FlushRings
  then show ?thesis using assms(3)
    by (intro same_inv [OF _ _ assms(1)]) (auto simp: flushRingBufferToFileInternal_def case_prod_beta Let_def same_ifaces_def)
next
  case (RingData n d)
  then show ?thesis using assms(3) by (intro same_inv [OF _ _ assms(1)]) (auto simp: same_ifaces_def)
next
  case (RegisterCallback cb)
  then show ?thesis using assms(3) by (auto intro: register_callback_inv [OF assms(1)])
next
  case (Configure i)
  then show ?thesis using assms(3) by (auto intro: configure_inv [OF assms(1,2)])
next
  case CreateAp
  then show ?thesis using assms(3) by (auto intro: createAp_inv [OF assms(1)])
next
  case CreateBridgedAp
  then show ?thesis using assms(3) by (auto intro: createBridged_inv [OF assms(1)])
next
  case (RemoveAp n)
  then show ?thesis using assms(3) by (auto intro: removeAp_inv [OF assms(1)])
next
  case (RemoveInstance n i)
  then show ?thesis using assms(3) by (auto intro: removeInstance_inv [OF assms(1)])
next
  case CreateNan
  then show ?thesis using assms(3) by (auto intro: createNan_inv [OF assms(1)])
next
  case (RemoveNan n)
  then show ?thesis using assms(3) by (auto intro: removeNan_inv [OF assms(1)])
next
  case CreateP2p
  then show ?thesis using assms(3) by (auto intro: createP2p_inv [OF assms(1)])
next
  case (RemoveP2p n)
  then show ?thesis using assms(3) by (auto intro: removeP2p_inv [OF assms(1)])
next
  case CreateSta
  then show ?thesis using assms(3) by (auto intro: createSta_inv [OF assms(1)])
next
  case (RemoveSta n)
  then show ?thesis using assms(3) by (auto intro: removeSta_inv [OF assms(1)])
next
  case CreateRtt
  then show ?thesis using assms(3) by (auto intro: rtt_inv [OF assms(1)])
next
  case (StartLogging ring)
  then show ?thesis using assms(3) start_logging_frame [of env ring s r s'] by (intro same_inv [OF _ _ assms(1)]) simp_all
next
  case StopLogging
  then show ?thesis using assms(3) stop_logging_frame [of env s r s'] by (intro same_inv [OF _ _ assms(1)]) simp_all
qed

lemma perform_inv: "chip_inv s \<Longrightarrow> matrix_ok env \<Longrightarrow> chip_perform env fe op s = Some (r, s') \<Longrightarrow> chip_inv s'"
  using work_inv by (auto simp: chip_perform_def validateAndCall_def split: if_splits)

lemma new_chip_inv: "modes_ok ms \<Longrightarrow> chip_inv (new_WifiChip env i h ms a)"
  by (rule no_interface_inv) (simp_all add: new_WifiChip_def no_interface_def)

lemma reach_inv: "chip_reach env s0 s \<Longrightarrow> matrix_ok env \<Longrightarrow> chip_inv s0 \<Longrightarrow> chip_inv s"
  by (induction rule: chip_reach.induct) (auto intro: perform_inv)

end
