(* ===== verification/Wifi_Live.thy ===== *)
theory Wifi_Live
  imports Wifi_Configure
begin

text \<open>
  The legacy HAL over the life of a chip: with a vendor library that ends its event loop after a
  cleanup and lists its interfaces after an initialization, no call finds the HAL in a state in
  which its checks fail.
\<close>

section \<open>The legacy HAL\<close>

definition vendor_ok :: "wifi_env \<Rightarrow> bool" where
  "vendor_ok env \<longleftrightarrow>
     (\<forall>tr. stop_completes env (Call ''wifi_cleanup'' [] # tr) \<and> loop_ends env (Call ''wifi_cleanup'' [] # tr)) \<and>
     (\<forall>tr. succeeds env (Call ''wifi_initialize'' [] # tr) \<longleftrightarrow> status env (Call ''wifi_initialize'' [] # tr) = WIFI_SUCCESS) \<and>
     (\<forall>tr. let t = Call ''wifi_get_ifaces'' [] # Call ''wifi_initialize'' [] # tr
           in status env t = WIFI_SUCCESS \<and> add_handles (ifaces env t) [] \<noteq> []) \<and>
     (\<forall>n tr. succeeds env (Call ''SetUpState'' [n, ''true''] # tr))"

definition hal_ok :: "WifiLegacyHal \<Rightarrow> bool" where
  "hal_ok h \<longleftrightarrow> \<not> awaiting_event_loop_termination h \<and> global_handle h = is_started h \<and>
     (is_started h \<or> iface_name_to_handle h = [])"

lemma hal_start_ok:
  assumes "vendor_ok env" "hal_ok h" "\<not> is_started h"
  shows "\<exists>st h'. hal_start env h = Some (st, h') \<and> hal_ok h' \<and> (is_started h' \<longleftrightarrow> st = WIFI_SUCCESS)"
proof -
  have idle: "\<not> global_handle h" "iface_name_to_handle h = []" "\<not> awaiting_event_loop_termination h"
    using assms(2,3) by (auto simp: hal_ok_def)
  define h1 where "h1 = called (Call ''wifi_wait_for_driver_ready'' []) h"
  define h2 where "h2 = (if is_primary h
     then called (Call ''SetWifiUpState'' [''true'']) (called (Call ''property_set'' [''wlan.driver.status'', ''ok'']) h1) else h1)"
  define h3 where "h3 = called (Call ''wifi_initialize'' []) h2"
  define h4 where "h4 = h3\<lparr>global_handle := succeeds env (calls h3)\<rparr>"
  have idle3: "\<not> is_started u" "iface_name_to_handle u = []" "\<not> awaiting_event_loop_termination u" if "u \<in> {h1, h2, h3, h4}" for u
    using that idle assms(3) by (auto simp: h1_def h2_def h3_def h4_def split: if_splits)
  have idle2: "\<not> global_handle u" if "u \<in> {h1, h2}" for u using that idle by (auto simp: h1_def h2_def split: if_splits)
  have c3: "calls h3 = Call ''wifi_initialize'' [] # calls h2" by (simp add: h3_def called_def)
  then have init: "succeeds env (calls h3) \<longleftrightarrow> status env (calls h3) = WIFI_SUCCESS" using assms(1) by (simp add: vendor_ok_def)
  obtain h5 where get: "retrieveIfaceHandles env h4 = (WIFI_SUCCESS, h5)" "iface_name_to_handle h5 \<noteq> []"
    using assms(1) c3 by (auto simp: vendor_ok_def retrieveIfaceHandles_def h4_def called_def Let_def)
  have h5: "global_handle h5 = global_handle h4" "\<not> awaiting_event_loop_termination h5"
    using retrieve_frame [of env h4] idle3(3) [of h4] get(1) by auto
  have s: "hal_start env h =
    (if status env (calls h1) = WIFI_ERROR_TIMED_OUT \<or> status env (calls h1) = WIFI_ERROR_UNKNOWN then Some (status env (calls h1), h1)
     else if is_primary h \<and> \<not> succeeds env (calls h2) then Some (WIFI_ERROR_UNKNOWN, h2)
     else if status env (calls h3) \<noteq> WIFI_SUCCESS \<or> \<not> global_handle h4 then Some (status env (calls h3), h4)
     else Some (WIFI_SUCCESS, h5\<lparr>is_started := True\<rparr>))"
    unfolding hal_start_def Let_def h1_def [symmetric] h2_def [symmetric] h3_def [symmetric] h4_def [symmetric] get(1)
    using idle assms(3) get(2) by simp
  have g4: "global_handle h4 \<longleftrightarrow> succeeds env (calls h3)" by (simp add: h4_def)
  have ok12: "hal_ok u" if "u \<in> {h1, h2}" for u unfolding hal_ok_def using idle3 [of u] idle2 [OF that] that by blast
  have ok4: "hal_ok h4" if "\<not> global_handle h4" unfolding hal_ok_def using idle3 [of h4] that by blast
  have ok5: "hal_ok (h5\<lparr>is_started := True\<rparr>)" if "global_handle h4" unfolding hal_ok_def using h5 that by simp
  have off: "\<not> is_started h1" "\<not> is_started h2" "\<not> is_started h4" using idle3(1) by simp_all
  show ?thesis unfolding s using ok12 [of h1] ok12 [of h2] ok4 ok5 off init g4
    by (simp add: WIFI_SUCCESS_def WIFI_ERROR_TIMED_OUT_def WIFI_ERROR_UNKNOWN_def)
qed

lemma hal_stop_ok:
  assumes "vendor_ok env" "hal_ok h"
  shows "\<exists>h'. hal_stop env h = Some (WIFI_SUCCESS, h') \<and> hal_ok h' \<and> \<not> is_started h'"
  using assms
  by (auto simp: hal_stop_def vendor_ok_def called_def onAsyncStopComplete_def hal_invalidate_def runEventLoop_end_def
      hal_ok_def Let_def)

section \<open>What the calls keep\<close>

definition keeps :: "WifiChip \<Rightarrow> WifiChip \<Rightarrow> bool" where
  "keeps s s' \<longleftrightarrow> global_handle (legacy s') = global_handle (legacy s) \<and>
     awaiting_event_loop_termination (legacy s') = awaiting_event_loop_termination (legacy s) \<and>
     is_started (legacy s') = is_started (legacy s) \<and> modes s' = modes s \<and> current_mode_id s' = current_mode_id s \<and>
     (None \<in> set (nan_ifaces s') \<longrightarrow> None \<in> set (nan_ifaces s)) \<and> is_valid s' = is_valid s"

lemma keeps_refl [simp]: "keeps s s"
  by (simp add: keeps_def)

lemma keeps_trans: "keeps a b \<Longrightarrow> keeps b c \<Longrightarrow> keeps a c"
  by (simp add: keeps_def)

lemma set_active_keeps: "set_active env s = Some s' \<Longrightarrow> keeps s s'"
  by (elim set_activeE) (simp add: keeps_def)

lemma dependencies_keeps:
  assumes "invalidateAndRemoveDependencies n s = Some s'"
  shows "keeps s s'"
proof -
  obtain nans where "s' = (fold (\<lambda>n. chip_call (RttInvalidated n)) (filter (\<lambda>m. m = n) (rtt_controllers s))
      (fold (\<lambda>n s. notify_all (IfaceRemoved T_NAN_IFACE n) (chip_call (Invalidated T_NAN_IFACE n) s)) (filter (\<lambda>m. m = n) nans) s))
      \<lparr>nan_ifaces := filter (\<lambda>m. m \<noteq> Some n) (nan_ifaces s), rtt_controllers := filter (\<lambda>m. m \<noteq> n) (rtt_controllers s)\<rparr>"
    using assms by (auto simp: invalidateAndRemoveDependencies_def Let_def Option.bind_eq_Some_conv)
  then show ?thesis by (simp add: keeps_def fold_frame fold_hal)
qed

lemma removeSta_keeps:
  assumes "removeStaIfaceInternal env n s = Some (r, s')"
  shows "keeps s s'"
proof (cases "n \<in> set (sta_ifaces s)")
  case True
  then obtain s1 s3 where s1: "invalidateAndRemoveDependencies n s = Some s1"
    and s3: "s3 = (snd (hal_do (deleteVirtualInterface env n) s1))\<lparr>sta_ifaces := remove1 n (sta_ifaces s1)\<rparr>"
    and s': "set_active env (notify_all (IfaceRemoved T_STA n) (chip_call (Invalidated T_STA n) s3)) = Some s'"
    using assms by (auto simp: removeStaIfaceInternal_def Let_def Option.bind_eq_Some_conv)
  have "keeps s1 (notify_all (IfaceRemoved T_STA n) (chip_call (Invalidated T_STA n) s3))" by (simp add: keeps_def s3)
  then show ?thesis using dependencies_keeps [OF s1] set_active_keeps [OF s'] keeps_trans by blast
qed (use assms in \<open>simp add: removeStaIfaceInternal_def\<close>)

lemma clear_bridged_keeps: "keeps s (invalidateAndClearBridgedAp env br s)"
  by (simp add: invalidateAndClearBridgedAp_def Let_def keeps_def fold_frame fold_hal split: option.splits)

lemma removeAp_keeps:
  assumes "removeApIfaceInternal env n s = Some (r, s')"
  shows "keeps s s'"
proof (cases "n \<in> ap_name ` set (ap_ifaces s)")
  case True
  then obtain s1 s2 where s1: "invalidateAndRemoveDependencies n s = Some s1"
    and s2: "s2 = invalidateAndClearBridgedAp env n s1"
    and s': "set_active env (notify_all (IfaceRemoved T_AP n)
        ((chip_call (Invalidated T_AP n) s2)\<lparr>ap_ifaces := erase_ap n (ap_ifaces s2)\<rparr>)) = Some s'"
    using assms by (auto simp: removeApIfaceInternal_def Let_def Option.bind_eq_Some_conv)
  have "keeps s2 (notify_all (IfaceRemoved T_AP n) ((chip_call (Invalidated T_AP n) s2)\<lparr>ap_ifaces := erase_ap n (ap_ifaces s2)\<rparr>))"
    by (simp add: keeps_def)
  then show ?thesis
    using dependencies_keeps [OF s1] clear_bridged_keeps [of s1 env n] set_active_keeps [OF s'] keeps_trans unfolding s2 by blast
qed (use assms in \<open>simp add: removeApIfaceInternal_def\<close>)

lemma without_first_subset: "set (takeWhile P xs @ tl (dropWhile P xs)) \<subseteq> set xs"
  by (induction xs) auto

lemma removeNan_keeps:
  assumes "removeNanIfaceInternal n s = Some (r, s')"
  shows "keeps s s'"
proof -
  have "s' = s \<or> s' = notify_all (IfaceRemoved T_NAN_IFACE n) (chip_call (Invalidated T_NAN_IFACE n)
      (s\<lparr>nan_ifaces := takeWhile (\<lambda>m. m \<noteq> Some n) (nan_ifaces s) @ tl (dropWhile (\<lambda>m. m \<noteq> Some n) (nan_ifaces s))\<rparr>))"
    using assms by (auto simp: removeNanIfaceInternal_def Let_def split: if_splits)
  then show ?thesis using without_first_subset [of "\<lambda>m. m \<noteq> Some n" "nan_ifaces s"] by (auto simp: keeps_def)
qed

lemma removeP2p_keeps: "removeP2pIfaceInternal n s = Some (r, s') \<Longrightarrow> keeps s s'"
  by (auto simp: removeP2pIfaceInternal_def keeps_def split: if_splits)

lemma createP2p_keeps: "createP2pIfaceInternal env s = Some (r, s') \<Longrightarrow> keeps s s'"
  by (auto simp: createP2pIfaceInternal_def Let_def keeps_def Option.bind_eq_Some_conv split: if_splits)

lemma createSta_keeps:
  assumes "createStaIfaceInternal env s = Some (r, s')"
  shows "keeps s s'"
proof -
  have "s' = s \<or> (\<exists>n. s' = snd (hal_do (createVirtualInterface env n T_STA) s) \<or>
     set_active env (notify_all (IfaceAdded T_STA n)
       ((chip_call (Call ''wifi_set_nodfs_flag'' [n, ''0'']) (snd (hal_do (createVirtualInterface env n T_STA) s)))\<lparr>sta_ifaces := sta_ifaces (snd (hal_do (createVirtualInterface env n T_STA) s)) @ [n]\<rparr>)) = Some s')"
    using assms by (auto simp: createStaIfaceInternal_def case_prod_beta Let_def Option.bind_eq_Some_conv split: if_splits)
  then show ?thesis by (elim disjE exE) (auto elim!: set_activeE simp: keeps_def)
qed

lemma newAp_keeps: "newWifiApIface env n s = Some s' \<Longrightarrow> keeps s s'"
  by (auto simp: newWifiApIface_def Let_def keeps_def elim!: set_activeE)

lemma createAp_keeps:
  assumes "createApIfaceInternal env s = Some (r, s')"
  shows "keeps s s'"
proof -
  define s1 where "s1 = (if dual_interface env then chip_call (Call ''property_set'' [''vendor.w1_wifi_type'', ''ap'']) s else s)"
  have "s' = s \<or> (\<exists>n. s' = snd (createVirtualApInterface env n s1) \<or>
      newWifiApIface env n (snd (createVirtualApInterface env n s1)) = Some s')"
    using assms by (auto simp: createApIfaceInternal_def s1_def case_prod_beta Let_def Option.bind_eq_Some_conv split: if_splits)
      (metis snd_conv)+
  moreover have "keeps s (snd (createVirtualApInterface env n s1))" for n by (simp add: keeps_def s1_def)
  ultimately show ?thesis using newAp_keeps keeps_trans keeps_refl by blast
qed

lemma createBridged_keeps:
  assumes "chip_inv s" "createBridgedApIfaceInternal env s = Some (r, s')"
  shows "keeps s s'"
proof (cases rule: canE [OF assms(1), of AP_BRIDGED])
  case 1
  show ?thesis using assms(2) 1
  proof (cases rule: createBridgedE)
    case (4 "is" s2)
    let ?u = "snd (createBridge env (kApBridgeIfacePrefix @ is ! 0)
           (s2\<lparr>br_ifaces_ap_instances := map_put (kApBridgeIfacePrefix @ is ! 0) is (br_ifaces_ap_instances s2)\<rparr>))"
    have "keeps s ?u" by (simp add: keeps_def 4(2))
    then show ?thesis using keeps_trans clear_bridged_keeps 4(3) by blast
  next
    case (5 "is" s2 s4)
    have "keeps s s4" by (simp add: keeps_def 5(2,3))
    then show ?thesis using 5(4) keeps_trans clear_bridged_keeps newAp_keeps by blast
  qed (auto simp: keeps_def)
qed (use assms in \<open>auto simp: createBridgedApIfaceInternal_def\<close>)

lemma createNan_keeps:
  assumes "vendor_ok env" "createNanIfaceInternal env s = Some (r, s')"
  shows "keeps s s'"
proof -
  have up: "fst (tool env ''SetUpState'' [n, ''true''] u)" for n u
    using assms(1) by (simp add: vendor_ok_def tool_def chip_trace_def chip_call_def called_def Let_def)
  show ?thesis using assms(2)
    by (auto simp: createNanIfaceInternal_def case_prod_beta Let_def Option.bind_eq_Some_conv keeps_def up split: if_splits)
qed

lemma removeInstance_keeps:
  assumes "removeIfaceInstanceFromBridgedApIfaceInternal env n i s = Some (r, s')"
  shows "keeps s s'"
proof -
  have k: "keeps s (snd (instance_part env n i s))"
    by (simp add: instance_part_def keeps_def Let_def case_prod_beta split: option.splits)
  show ?thesis
  proof (cases rule: removeInstanceE [OF assms refl])
    case 3
    have "keeps (snd (instance_part env n i s)) ((snd (instance_part env n i s))\<lparr>ap_ifaces := as\<rparr>)" for as by (simp add: keeps_def)
    then show ?thesis using k set_active_keeps [OF 3(3)] keeps_trans by blast
  qed (use k in simp_all)
qed

lemma rtt_keeps: "createRttControllerInternal env s = Some (r, s') \<Longrightarrow> keeps s s'"
  by (auto simp: createRttControllerInternal_def Option.bind_eq_Some_conv keeps_def split: if_splits)

text \<open>Calls that only speak to the outside keep the handles as well.\<close>

definition keeps_all :: "WifiChip \<Rightarrow> WifiChip \<Rightarrow> bool" where
  "keeps_all s s' \<longleftrightarrow> keeps s s' \<and> iface_name_to_handle (legacy s') = iface_name_to_handle (legacy s)"

lemma register_keeps: "registerEventCallbackInternal env cb s = Some (r, s') \<Longrightarrow> keeps_all s s'"
  by (auto simp: registerEventCallbackInternal_def addCallback_def case_prod_beta Let_def keeps_all_def keeps_def split: if_splits)

lemma debug_info_keeps: "requestChipDebugInfoInternal env s = Some (info, s') \<Longrightarrow> keeps_all s s'"
  by (auto simp: requestChipDebugInfoInternal_def Let_def Option.bind_eq_Some_conv keeps_all_def keeps_def split: if_splits)

lemma register_ring_keeps: "registerDebugRingBufferCallback env s = Some (r, s') \<Longrightarrow> keeps_all s s'"
  unfolding registerDebugRingBufferCallback_def
  by (cases "debug_ring_buffer_cb_registered s"; cases "getFirstActiveWlanIfaceName env s")
     (clarsimp simp: keeps_all_def keeps_def Let_def)+

lemma stop_logging_keeps: "stopLoggingToDebugRingBufferInternal env s = Some (r, s') \<Longrightarrow> keeps_all s s'"
  by (clarsimp simp: stopLoggingToDebugRingBufferInternal_def Let_def keeps_all_def keeps_def Option.bind_eq_Some_conv)

lemma start_logging_keeps:
  assumes "startLoggingToDebugRingBufferInternal env ring s = Some (r, s')"
  shows "keeps_all s s'"
proof -
  obtain r1 s1 where s1: "registerDebugRingBufferCallback env s = Some (r1, s1)"
    using assms by (auto simp: startLoggingToDebugRingBufferInternal_def Option.bind_eq_Some_conv)
  then have "keeps_all s1 s'"
    using assms by (auto simp: startLoggingToDebugRingBufferInternal_def Let_def keeps_all_def keeps_def Option.bind_eq_Some_conv split: if_splits)
  then show ?thesis using register_ring_keeps [OF s1] by (auto simp: keeps_all_def intro: keeps_trans)
qed

end
