(* ===== verification/Wifi_Service_Lemmas.thy ===== *)
theory Wifi_Service_Lemmas
  imports Wifi_Live
begin

text \<open>
  The chip and the service as a whole: a configuration and a stop of the service return in every
  state that can be reached.
\<close>

section \<open>The chip\<close>

lemma work_keeps:
  assumes "chip_inv s" "vendor_ok env" "chip_work env fe op s = Some (r, s')" "\<And>i. op \<noteq> Configure i"
  shows "keeps s s'"
proof (cases op)
  case (CallbackDeath cb)
  then show ?thesis using assms(3) by (auto simp: handleCallbackDeath_def keeps_def)
next
  case FlushRings
  then show ?thesis using assms(3) by (auto simp: flushRingBufferToFileInternal_def case_prod_beta Let_def keeps_def)
next
  case (RingData n d)
  then show ?thesis using assms(3) by (auto simp: keeps_def)
next
  case DebugInfo
  then show ?thesis using assms(3) debug_info_keeps by (auto simp: keeps_all_def)
next
  case CreateBridgedAp
  then show ?thesis using assms(3) createBridged_keeps [OF assms(1)] by auto
next
  case CreateNan
  then show ?thesis using assms(3) createNan_keeps [OF assms(2)] by auto
qed (use assms(3,4) register_keeps createAp_keeps removeAp_keeps removeInstance_keeps removeNan_keeps createP2p_keeps
      removeP2p_keeps createSta_keeps removeSta_keeps rtt_keeps start_logging_keeps stop_logging_keeps
      in \<open>auto simp: keeps_all_def\<close>)

text \<open>Without a valid mode there is no interface, and the handles stay as they are.\<close>

lemma can_invalid: "\<not> isValidModeId (current_mode_id s) s \<Longrightarrow> canCurrentModeSupportConcurrencyTypeWithCurrentTypes t s = Some False"
  by (simp add: canCurrentModeSupportConcurrencyTypeWithCurrentTypes_def)

lemma work_idle:
  assumes "chip_inv s" "\<not> isValidModeId (current_mode_id s) s" "chip_work env fe op s = Some (r, s')" "\<And>i. op \<noteq> Configure i"
  shows "iface_name_to_handle (legacy s') = iface_name_to_handle (legacy s)"
proof -
  have none: "ap_ifaces s = []" "nan_ifaces s = []" "p2p_ifaces s = []" "sta_ifaces s = []"
    using invalid_mode_no_interface [OF assms(1,2)] by (auto simp: no_interface_def)
  show ?thesis
  proof (cases op)
    case (RegisterCallback cb)
    then show ?thesis using assms(3) register_keeps by (auto simp: keeps_all_def)
  next
    case DebugInfo
    then show ?thesis using assms(3) debug_info_keeps by (auto simp: keeps_all_def)
  next
    case (StartLogging ring)
    then show ?thesis using assms(3) start_logging_keeps by (auto simp: keeps_all_def)
  next
    case StopLogging
    then show ?thesis using assms(3) stop_logging_keeps by (auto simp: keeps_all_def)
  next
    case FlushRings
    then show ?thesis using assms(3) by (auto simp: flushRingBufferToFileInternal_def case_prod_beta Let_def)
  qed (use assms(3,4) none can_invalid [OF assms(2)] in
      \<open>auto simp: handleCallbackDeath_def createApIfaceInternal_def createBridgedApIfaceInternal_def removeApIfaceInternal_def
        removeIfaceInstanceFromBridgedApIfaceInternal_def createNanIfaceInternal_def removeNanIfaceInternal_def
        createP2pIfaceInternal_def removeP2pIfaceInternal_def createStaIfaceInternal_def removeStaIfaceInternal_def
        createRttControllerInternal_def\<close>)
qed

text \<open>A chip with one mode: the HAL runs exactly when the mode is set.\<close>

definition chip_live :: "WifiChip \<Rightarrow> bool" where
  "chip_live s \<longleftrightarrow> chip_inv s \<and> hal_ok (legacy s) \<and> is_started (legacy s) = isValidModeId (current_mode_id s) s \<and>
     (\<forall>m\<in>set (modes s). mode_id m = kV3) \<and> current_mode_id s \<in> {kInvalid, kV3} \<and> None \<notin> set (nan_ifaces s)"

lemma valid_cong: "modes s' = modes s \<Longrightarrow> isValidModeId i s' = isValidModeId i s"
  by (simp add: isValidModeId_def)

lemma work_live:
  assumes "chip_live s" "vendor_ok env" "matrix_ok env" "chip_work env fe op s = Some (r, s')" "\<And>i. op \<noteq> Configure i"
  shows "chip_live s'"
proof -
  have inv: "chip_inv s" using assms(1) by (simp add: chip_live_def)
  have k: "keeps s s'" by (rule work_keeps [OF inv assms(2,4,5)])
  have "hal_ok (legacy s')"
  proof (cases "isValidModeId (current_mode_id s) s")
    case True
    then show ?thesis using k assms(1) by (auto simp: chip_live_def hal_ok_def keeps_def)
  next
    case False
    then show ?thesis using k assms(1) work_idle [OF inv False assms(4,5)] by (auto simp: chip_live_def hal_ok_def keeps_def)
  qed
  then show ?thesis using assms(1) k work_inv [OF inv assms(3,4)] valid_cong [of s' s]
    by (auto simp: chip_live_def keeps_def)
qed

lemma nan_names_some: "None \<notin> set xs \<Longrightarrow> \<exists>ys. those xs = Some ys"
proof (induction xs)
  case (Cons x xs)
  then show ?case by (cases x) auto
qed simp

lemma remove_all_returns:
  assumes "None \<notin> set (nan_ifaces s)"
  shows "\<exists>s'. invalidateAndRemoveAllIfaces env s = Some s' \<and> is_started (legacy s') = is_started (legacy s) \<and>
    global_handle (legacy s') = global_handle (legacy s) \<and>
    awaiting_event_loop_termination (legacy s') = awaiting_event_loop_termination (legacy s) \<and>
    (br_ifaces_ap_instances s = [] \<longrightarrow> iface_name_to_handle (legacy s') = iface_name_to_handle (legacy s))"
proof -
  obtain ns where "nan_names s = Some ns" using nan_names_some [OF assms] by (auto simp: nan_names_def)
  then show ?thesis
    by (simp add: invalidateAndRemoveAllIfaces_def Let_def fold_hal invalidateAndClearBridgedApAll_def case_prod_beta)
qed

lemma remove_all_hal_ok:
  assumes "chip_live s"
  shows "\<exists>s'. invalidateAndRemoveAllIfaces env s = Some s' \<and> hal_ok (legacy s') \<and> is_started (legacy s') = is_started (legacy s)"
proof -
  have inv: "chip_inv s" and nan: "None \<notin> set (nan_ifaces s)" and h: "hal_ok (legacy s)"
    using assms by (auto simp: chip_live_def)
  have "is_started (legacy s) \<or> br_ifaces_ap_instances s = []"
    using assms invalid_mode_no_interface [OF inv] no_interface_no_bridge [OF inv] by (auto simp: chip_live_def no_interface_def)
  then show ?thesis using remove_all_returns [OF nan, of env] h by (auto simp: hal_ok_def)
qed

section \<open>Configuration returns\<close>

lemma first_name_no_interface: "no_interface s \<Longrightarrow> \<exists>n. getFirstActiveWlanIfaceName env s = Some n"
  by (simp add: no_interface_def getFirstActiveWlanIfaceName_def getWlanIfaceNameWithType_def getWlanIfaceName_def
      kMaxWlanIfaces_def Let_def)

lemma debug_info_returns:
  "getFirstActiveWlanIfaceName env s = Some m \<Longrightarrow> requestChipDebugInfoInternal env s \<noteq> None"
  by (simp add: requestChipDebugInfoInternal_def Let_def)

lemma started_part_returns:
  assumes "no_interface s"
  shows "\<exists>s'. started_part env s = Some s' \<and> global_handle (legacy s') = global_handle (legacy s) \<and>
    awaiting_event_loop_termination (legacy s') = awaiting_event_loop_termination (legacy s) \<and>
    is_started (legacy s') = is_started (legacy s) \<and> iface_name_to_handle (legacy s') = iface_name_to_handle (legacy s)"
proof -
  obtain n where n: "getFirstActiveWlanIfaceName env s = Some n" using first_name_no_interface [OF assms] by blast
  let ?s4 = "chip_call (Call ''wifi_set_radio_mode_change_handler'' [n]) s"
  obtain m where m: "getFirstActiveWlanIfaceName env ?s4 = Some m"
    using first_name_no_interface [of ?s4] assms by (auto simp: no_interface_def)
  obtain info s5 where s5: "requestChipDebugInfoInternal env ?s4 = Some (info, s5)"
    using debug_info_returns [OF m] by auto
  have dyn: "f (legacy (retrieveDynamicIfaceCombination env u)) = f (legacy u)" if "\<And>c h. f (called c h) = f h" for f :: "WifiLegacyHal \<Rightarrow> 'z" and u
    using that by (simp add: retrieveDynamicIfaceCombination_def Let_def chip_call_def split: option.splits)
  have "keeps_all ?s4 s5" by (rule debug_info_keeps [OF s5])
  then show ?thesis
    by (simp add: started_part_def n s5 Let_def dyn keeps_all_def keeps_def split: option.splits)
qed

lemma V3_not_V1: "kV3 \<noteq> kV1Sta" "kV3 \<noteq> kV1Ap" "kV3 \<noteq> kInvalid"
  by (simp_all add: kV3_def kV1Sta_def kV1Ap_def kInvalid_def)

lemma createStatus_None: "createWifiStatusFromLegacyError st = None \<longleftrightarrow> st = WIFI_SUCCESS"
  by (simp add: createWifiStatusFromLegacyError_def WIFI_SUCCESS_def)

text \<open>The first configuration of a chip, to its only mode.\<close>

lemma handle_returns:
  assumes "chip_live s" "vendor_ok env" "\<not> isValidModeId (current_mode_id s) s"
  shows "\<exists>r s'. handleChipConfiguration env kV3 s = Some (r, s') \<and> hal_ok (legacy s') \<and> (is_started (legacy s') \<longleftrightarrow> r = None)"
proof -
  have inv: "chip_inv s" and h: "hal_ok (legacy s)" "\<not> is_started (legacy s)" using assms(1,3) by (auto simp: chip_live_def)
  obtain st h' where s: "hal_start env (legacy s) = Some (st, h')" "hal_ok h'" "is_started h' \<longleftrightarrow> st = WIFI_SUCCESS"
    using hal_start_ok [OF assms(2) h] by blast
  have handle: "handleChipConfiguration env kV3 s =
      (if st \<noteq> WIFI_SUCCESS then Some (createWifiStatusFromLegacyError st, s\<lparr>legacy := h'\<rparr>)
       else map_option (Pair None) (started_part env (s\<lparr>legacy := h'\<rparr>)))"
    using assms(3) V3_not_V1 by (simp add: handleChipConfiguration_parts stop_part_def mode_part_def s(1))
  obtain s' where s': "started_part env (s\<lparr>legacy := h'\<rparr>) = Some s'" "global_handle (legacy s') = global_handle h'"
    "awaiting_event_loop_termination (legacy s') = awaiting_event_loop_termination h'"
    "is_started (legacy s') = is_started h'" "iface_name_to_handle (legacy s') = iface_name_to_handle h'"
    using started_part_returns [of "s\<lparr>legacy := h'\<rparr>" env] invalid_mode_no_interface [OF inv assms(3)]
    by (auto simp: no_interface_def)
  show ?thesis
  proof (cases "st = WIFI_SUCCESS")
    case True
    then show ?thesis using handle s' s(2,3) by (simp add: hal_ok_def)
  next
    case False
    then show ?thesis using handle s(2,3) createStatus_None [of st] by simp
  qed
qed

lemma configure_live:
  assumes "chip_live s" "vendor_ok env" "matrix_ok env"
  shows "\<exists>r s'. configureChipInternal env i s = Some (r, s') \<and> chip_live s'"
proof (cases "\<not> isValidModeId i s \<or> i = current_mode_id s")
  case True
  then show ?thesis using assms(1) by (auto simp: configureChipInternal_def)
next
  case False
  have inv: "chip_inv s" using assms(1) by (simp add: chip_live_def)
  have i: "i = kV3" using False assms(1) by (auto simp: chip_live_def isValidModeId_def list_ex_iff)
  have cur: "current_mode_id s = kInvalid" using assms(1) False i by (auto simp: chip_live_def)
  then have bad: "\<not> isValidModeId (current_mode_id s) s"
    using assms(1) V3_not_V1 by (auto simp: chip_live_def isValidModeId_def list_ex_iff)
  obtain r s1 where s1: "handleChipConfiguration env kV3 s = Some (r, s1)" "hal_ok (legacy s1)" "is_started (legacy s1) \<longleftrightarrow> r = None"
    using handle_returns [OF assms(1,2) bad] by blast
  note f = handle_frame [OF inv s1(1)]
  have m1: "\<forall>m\<in>set (modes s1). mode_id m = kV3" "modes s1 \<noteq> []" "modes s1 = modes s \<or> r = None"
    using f assms(1) False by (auto simp: chip_live_def isValidModeId_def)
  show ?thesis
  proof (cases r)
    case (Some e)
    have "configureChipInternal env i s = Some (Some e, notify_all (ChipReconfigureFailure e) s1)"
      using False s1(1) i Some by (simp add: configureChipInternal_def)
    moreover from this have "chip_inv (notify_all (ChipReconfigureFailure e) s1)" by (rule configure_inv [OF inv assms(3)])
    moreover have "\<not> isValidModeId (current_mode_id s1) s1" using bad f m1(3) Some valid_cong [of s1 s] by simp
    ultimately show ?thesis using s1 f m1 Some cur
      by (simp add: chip_live_def hal_ok_def no_interface_def isValidModeId_def)
  next
    case None
    let ?u = "(notify_all (ChipReconfigured i) s1)\<lparr>current_mode_id := i\<rparr>"
    obtain n where "getFirstActiveWlanIfaceName env ?u = Some n"
      using first_name_no_interface [of ?u env] f by (auto simp: no_interface_def)
    then have c: "configureChipInternal env i s = Some (None, chip_call (Call ''wifi_set_subsystem_restart_handler'' [])
        (setActiveWlanIfaceNameProperty env n ?u))"
      using False s1(1) i None by (simp add: configureChipInternal_def set_active_def)
    then have "chip_inv (chip_call (Call ''wifi_set_subsystem_restart_handler'' []) (setActiveWlanIfaceNameProperty env n ?u))"
      by (rule configure_inv [OF inv assms(3)])
    moreover have "list_ex (\<lambda>m. mode_id m = kV3) (modes s1)" using m1 by (cases "modes s1") auto
    ultimately show ?thesis using c s1 f m1 None i
      by (simp add: chip_live_def hal_ok_def no_interface_def isValidModeId_def)
  qed
qed

section \<open>The service\<close>

text \<open>
  The calls of the service and of its chips in any order. A stop has two steps, with calls of
  other clients between them.
\<close>

datatype service_op = Register nat | Start | StopBegin | StopFinish | ChipCall nat chip_op

fun service_perform :: "wifi_env \<Rightarrow> flush_env \<Rightarrow> mode_config \<Rightarrow> bool list \<Rightarrow> service_op \<Rightarrow> Wifi \<Rightarrow> Wifi option" where
  "service_perform env fe cfg ps (Register cb) w = Some (snd (wifi_registerEventCallbackInternal env cb w))"
| "service_perform env fe cfg ps Start w = map_option snd (startInternal env cfg ps w)"
| "service_perform env fe cfg ps StopBegin w = (if run_state w = STARTED then stop_begin env fe w else Some w)"
| "service_perform env fe cfg ps StopFinish w =
     (if run_state w = STOPPING then map_option snd (stop_finish env w) else Some w)"
| "service_perform env fe cfg ps (ChipCall k op) w =
     (if k < length (chips w)
      then map_option (\<lambda>(r, c). w\<lparr>chips := (chips w)[k := c]\<rparr>) (chip_perform env fe op (chips w ! k))
      else Some w)"

inductive service_reach :: "wifi_env \<Rightarrow> mode_config \<Rightarrow> bool list \<Rightarrow> Wifi \<Rightarrow> bool" for env cfg ps where
  init: "service_reach env cfg ps new_Wifi"
| step: "service_reach env cfg ps w \<Longrightarrow> service_perform env fe cfg ps op w = Some w' \<Longrightarrow> service_reach env cfg ps w'"

definition config_ok :: "mode_config \<Rightarrow> bool" where
  "config_ok cfg \<longleftrightarrow> (\<forall>p. case getChipModes cfg p of None \<Rightarrow> False
     | Some ms \<Rightarrow> modes_ok ms \<and> (\<forall>m\<in>set ms. mode_id m = kV3))"

definition service_ok :: "Wifi \<Rightarrow> bool" where
  "service_ok w \<longleftrightarrow>
     (case run_state w of
        STARTED \<Rightarrow> legacy_hals w = [] \<and> (\<forall>c\<in>set (chips w). chip_live c)
      | STOPPING \<Rightarrow> chips w = [] \<and> (\<forall>h\<in>set (legacy_hals w). hal_ok h)
      | STOPPED \<Rightarrow> chips w = [] \<and> (\<forall>h\<in>set (legacy_hals w). hal_ok h \<and> \<not> is_started h))"

lemma perform_live:
  assumes "chip_live s" "vendor_ok env" "matrix_ok env" "chip_perform env fe op s = Some (r, s')"
  shows "chip_live s'"
proof (cases "is_valid s")
  case True
  then have w: "chip_work env fe op s = Some (r, s')" using assms(4) by (simp add: chip_perform_def validateAndCall_def)
  show ?thesis
  proof (cases "\<exists>i. op = Configure i")
    case True
    then obtain i where "op = Configure i" by blast
    then show ?thesis using w configure_live [OF assms(1-3), of i] by auto
  next
    case False
    then show ?thesis using work_live [OF assms(1-3) w] by blast
  qed
qed (use assms in \<open>simp add: chip_perform_def validateAndCall_def\<close>)

lemma new_chip_live:
  assumes "hal_ok h" "\<not> is_started h" "modes_ok ms" "\<forall>m\<in>set ms. mode_id m = kV3"
  shows "chip_live (new_WifiChip env i h ms a)"
proof -
  have "\<not> isValidModeId kInvalid (new_WifiChip env i h ms a)"
    using assms(4) V3_not_V1 by (auto simp: isValidModeId_def list_ex_iff new_WifiChip_def)
  then show ?thesis using assms new_chip_inv [OF assms(3), of env i h a]
    by (simp add: chip_live_def hal_ok_def new_WifiChip_def)
qed

lemma create_chips_live:
  assumes "config_ok cfg"
  shows "(\<forall>h\<in>set hs. hal_ok h \<and> \<not> is_started h) \<Longrightarrow>
    \<exists>cs. create_chips env cfg i hs = Some cs \<and> (\<forall>c\<in>set cs. chip_live c)"
proof (induction hs arbitrary: i)
  case (Cons h hs)
  obtain ms where ms: "getChipModes cfg (i = 0) = Some ms" "modes_ok ms" "\<forall>m\<in>set ms. mode_id m = kV3"
    using assms by (fastforce simp: config_ok_def split: option.splits)
  obtain cs where "create_chips env cfg (i + 1) hs = Some cs" "\<forall>c\<in>set cs. chip_live c" using Cons by fastforce
  then show ?case using ms new_chip_live Cons.prems by simp
qed simp

lemma invalidate_chips_ok:
  "(\<forall>c\<in>set cs. chip_live c) \<Longrightarrow> \<exists>hs. invalidate_chips env fe cs = Some hs \<and> (\<forall>h\<in>set hs. hal_ok h)"
proof (induction cs)
  case (Cons c cs)
  obtain ok m fs where w: "writeRingbufferFilesInternal fe (ringbuffer_map c) = (ok, m, fs)" by (metis prod_cases3)
  have "chip_live (c\<lparr>ringbuffer_map := m\<rparr>)"
    using Cons.prems chip_inv_cong [of "c\<lparr>ringbuffer_map := m\<rparr>" c] by (simp add: chip_live_def isValidModeId_def)
  then obtain c1 where c1: "invalidateAndRemoveAllIfaces env (c\<lparr>ringbuffer_map := m\<rparr>) = Some c1" "hal_ok (legacy c1)"
    using remove_all_hal_ok by blast
  obtain hs where "invalidate_chips env fe cs = Some hs" "\<forall>h\<in>set hs. hal_ok h" using Cons by auto
  then show ?case using c1 by (simp add: chip_invalidate_def w hal_ok_def)
qed simp

lemma stop_hals_ok:
  assumes "vendor_ok env"
  shows "(\<forall>h\<in>set hs. hal_ok h) \<Longrightarrow>
    \<exists>hs'. stop_hals env WIFI_SUCCESS hs = Some (WIFI_SUCCESS, hs') \<and> (\<forall>h\<in>set hs'. hal_ok h \<and> \<not> is_started h)"
proof (induction hs)
  case (Cons h hs)
  obtain h' where "hal_stop env h = Some (WIFI_SUCCESS, h')" "hal_ok h'" "\<not> is_started h'"
    using hal_stop_ok [OF assms, of h] Cons.prems by auto
  then show ?case using Cons by auto
qed simp

lemma wifi_notify_frame [simp]:
  "run_state (wifi_notify n w) = run_state w" "chips (wifi_notify n w) = chips w"
  "legacy_hals (wifi_notify n w) = legacy_hals w" "wifi_cbs (wifi_notify n w) = wifi_cbs w"
  unfolding wifi_notify_def by (rule fold_frame, simp add: wifi_call_def)+

lemma start_ok:
  assumes "config_ok cfg" "service_ok w"
  shows "\<exists>r w'. startInternal env cfg ps w = Some (r, w') \<and> service_ok w'"
proof (cases "run_state w")
  case STOPPED
  obtain r w1 where i: "initializeModeControllerAndLegacyHal env ps w = (r, w1)" by fastforce
  have w1: "run_state w1 = STOPPED" "chips w1 = []" "\<forall>h\<in>set (legacy_hals w1). hal_ok h \<and> \<not> is_started h"
    using i STOPPED assms(2)
    by (auto simp: initializeModeControllerAndLegacyHal_def wifi_call_def Let_def service_ok_def new_WifiLegacyHal_def hal_ok_def
        split: if_splits)
  obtain cs where "create_chips env cfg 0 (legacy_hals w1) = Some cs" "\<forall>c\<in>set cs. chip_live c"
    using create_chips_live [OF assms(1) w1(3)] by blast
  then show ?thesis using i w1 STOPPED by (cases r) (auto simp: startInternal_def service_ok_def)
qed (use assms(2) in \<open>simp_all add: startInternal_def\<close>)

lemma stop_begin_ok:
  assumes "service_ok w" "run_state w = STARTED"
  shows "\<exists>w'. stop_begin env fe w = Some w' \<and> service_ok w' \<and> run_state w' = STOPPING"
  using invalidate_chips_ok [of "chips w" env fe] assms by (auto simp: service_ok_def stop_begin_def)

lemma stop_finish_ok:
  assumes "vendor_ok env" "service_ok w" "run_state w = STOPPING"
  shows "\<exists>r w'. stop_finish env w = Some (r, w') \<and> service_ok w' \<and> run_state w' = STOPPED"
  using stop_hals_ok [OF assms(1), of "legacy_hals w"] assms(2,3)
  by (auto simp: service_ok_def stop_finish_def stopLegacyHalAndDeinitializeModeController_def wifi_call_def Let_def)

lemma service_reach_ok:
  assumes "vendor_ok env" "matrix_ok env" "config_ok cfg"
  shows "service_reach env cfg ps w \<Longrightarrow> service_ok w"
proof (induction rule: service_reach.induct)
  case init
  then show ?case by (simp add: service_ok_def new_Wifi_def)
next
  case (step w fe op w')
  show ?case
  proof (cases op)
    case (Register cb)
    have "run_state w' = run_state w \<and> chips w' = chips w \<and> legacy_hals w' = legacy_hals w"
      using step(2) Register by (clarsimp simp: wifi_registerEventCallbackInternal_def wifi_call_def Let_def)
    then show ?thesis using step.IH by (cases "run_state w") (simp_all add: service_ok_def)
  next
    case Start
    then show ?thesis using step start_ok [OF assms(3) step.IH, of env ps] by auto
  next
    case StopBegin
    then show ?thesis using step stop_begin_ok [OF step.IH, of env fe] by (auto split: if_splits)
  next
    case StopFinish
    then show ?thesis using step stop_finish_ok [OF assms(1) step.IH] by (auto split: if_splits)
  next
    case (ChipCall k op)
    show ?thesis
    proof (cases "k < length (chips w)")
      case True
      then obtain r c where c: "chip_perform env fe op (chips w ! k) = Some (r, c)" "w' = w\<lparr>chips := (chips w)[k := c]\<rparr>"
        using step(2) ChipCall by auto
      have run: "run_state w = STARTED" using True step.IH by (auto simp: service_ok_def split: RunState.splits)
      then have "chip_live c" using perform_live [OF _ assms(1,2) c(1)] step.IH True by (simp add: service_ok_def)
      then show ?thesis using step.IH run c(2) set_update_subset_insert [of "chips w" k c] by (auto simp: service_ok_def)
    qed (use step ChipCall in auto)
  qed
qed

end
