(* ===== verification/Wifi_Properties.thy ===== *)
theory Wifi_Properties
  imports Wifi_Service_Lemmas
begin

text \<open>Properties of the concurrency limits, of the Wi-Fi chip and of the service, with their witnesses.\<close>

section \<open>A device\<close>

text \<open>A device without faults, with the last of the preset modes and one dedicated pair of
  access point interfaces.\<close>

definition device :: "wifi_iface_combination list \<Rightarrow> wifi_env" where
  "device mx = \<lparr>status = (\<lambda>tr. 0), succeeds = (\<lambda>tr. True), ifaces = (\<lambda>tr. [(Some ''wlan0'', 1)]), matrix = (\<lambda>tr. mx),
     answer_text = (\<lambda>tr. ''wlan0''), stop_completes = (\<lambda>tr. True), loop_ends = (\<lambda>tr. True), if_index = (\<lambda>tr. 0),
     property = (\<lambda>key tr. if key = ''ro.vendor.wifi.sap.interface'' then ''ap0''
                          else if key = ''ro.vendor.wifi.sap.concurrent.iface'' then ''ap1'' else ''''),
     dual_interface = False\<rparr>"

definition preset :: "int \<Rightarrow> nat \<Rightarrow> ChipMode list" where
  "preset main k = snd (kDebugChipModes main ! k)"

fun chip_run :: "wifi_env \<Rightarrow> flush_env \<Rightarrow> chip_op list \<Rightarrow> WifiChip \<Rightarrow> WifiChip option" where
  "chip_run env fe [] s = Some s"
| "chip_run env fe (op # ops) s = Option.bind (chip_perform env fe op s) (\<lambda>(r, s'). chip_run env fe ops s')"

lemma run_reach_from:
  "chip_run env fe ops s = Some s' \<Longrightarrow> chip_reach env s0 s \<Longrightarrow> chip_reach env s0 s'"
  by (induction ops arbitrary: s) (auto simp: Option.bind_eq_Some_conv intro: chip_reach.step)

lemma run_reach: "chip_run env fe ops s = Some s' \<Longrightarrow> chip_reach env s s'"
  by (rule run_reach_from [OF _ chip_reach.init])

lemma preset_ok: "modes_ok (preset i 5)"
proof -
  have "preset i 5 = [\<lparr>mode_id = i, availableCombinations =
         [[limit [STA] 1, limit [P2P, NAN_IFACE, AP, AP_BRIDGED] 1], [limit [STA] 2]]\<rparr>]"
    by (simp add: preset_def kDebugChipModes_def)
  moreover have "replicate 2 x = [x, x]" for x :: "IfaceConcurrencyType list" by (simp add: numeral_2_eq_2)
  ultimately show ?thesis
    by (simp add: modes_ok_def combination_ok_def bridge_ok_def places_def limit_def)
qed

lemma no_matrix_ok: "matrix_ok (device [])"
  by (simp add: matrix_ok_def device_def convertLegacyIfaceCombinationsMatrixToChipMode_def)

lemma device_ok: "vendor_ok (device mx)"
  by (simp add: vendor_ok_def device_def WIFI_SUCCESS_def)

definition quiet_flush :: flush_env where
  "quiet_flush = \<lparr>flush_now = 0, flush_dir = None, unlinks = (\<lambda>n. True), mkstemp_ok = (\<lambda>n. True), write_ok = (\<lambda>n. True)\<rparr>"

section \<open>Concurrency limits\<close>

text \<open>C34. The expansion of a concurrency combination, which fills a vector of interface counts by
  an arithmetic of spans, is exactly the set of counts that arise when every place of the
  combination is given one of its types; each place multiplies the number of entries by the
  number of its types.\<close>

theorem expansion_is_assignment:
  assumes "combination_ok c"
  shows "map_option set (expandConcurrencyCombinations c) = Some {e. \<exists>ts. choice ts (places c) \<and> e = count_list ts} \<and>
    map_option length (expandConcurrencyCombinations c) = Some (prod_list (map length (places c)))"
  using expand_enumerates [OF assms] by auto

theorem expansion_is_assignment_witness:
  "map_option length (expandConcurrencyCombinations [limit [STA] 2, limit [P2P, NAN_IFACE] 3]) = Some 8"
proof -
  let ?c = "[limit [STA] 2, limit [P2P, NAN_IFACE] 3]"
  have p: "places ?c = [[STA], [STA], [P2P, NAN_IFACE], [P2P, NAN_IFACE], [P2P, NAN_IFACE]]"
    by (simp add: places_def limit_def numeral_2_eq_2 numeral_3_eq_3)
  have "combination_ok ?c" unfolding combination_ok_def p by simp
  from conjunct2 [OF expansion_is_assignment [OF this]] show ?thesis unfolding p by (simp add: eval_nat_numeral)
qed

section \<open>The chip\<close>



lemma debug_info_dynamic:
  "requestChipDebugInfoInternal env s = Some (info, s') \<Longrightarrow> using_dynamic_iface_combination s' = using_dynamic_iface_combination s"
  by (auto simp: requestChipDebugInfoInternal_def Let_def Option.bind_eq_Some_conv split: if_splits)

lemma started_part_dynamic:
  assumes "started_part env s = Some s'" "\<not> using_dynamic_iface_combination s" "using_dynamic_iface_combination s'"
  shows "\<exists>m. modes s' = [m\<lparr>mode_id := kV3\<rparr>]"
proof -
  obtain s6 where s6: "s' = retrieveDynamicIfaceCombination env s6" "\<not> using_dynamic_iface_combination s6"
    using assms(1,2) by (auto simp: started_part_def Let_def Option.bind_eq_Some_conv dest!: debug_info_dynamic split: option.splits)
  then show ?thesis using assms(3) by (auto simp: retrieveDynamicIfaceCombination_def Let_def split: if_splits option.splits)
qed

lemma first_configuration:
  assumes "vendor_ok env" "\<not> isValidModeId (current_mode_id s) s" "hal_ok (legacy s)" "\<not> is_started (legacy s)"
    and "no_interface s" "handleChipConfiguration env i s = Some (None, s1)"
  shows "\<exists>s3. started_part env s3 = Some s1 \<and> using_dynamic_iface_combination s3 = using_dynamic_iface_combination s \<and>
    global_handle (legacy s1)"
proof -
  let ?s2 = "snd (mode_part env i s)"
  have s2: "hal_ok (legacy ?s2)" "\<not> is_started (legacy ?s2)" "no_interface ?s2"
    "using_dynamic_iface_combination ?s2 = using_dynamic_iface_combination s"
    using assms(3-5) by (simp_all add: mode_part_def changeFirmwareMode_def hal_ok_def no_interface_def)
  obtain st h where h: "hal_start env (legacy ?s2) = Some (st, h)" "hal_ok h" "is_started h \<longleftrightarrow> st = WIFI_SUCCESS"
    using hal_start_ok [OF assms(1) s2(1,2)] by blast
  have op: "(if \<not> fst (mode_part env i s) then Some (Some ERROR_UNKNOWN, ?s2)
      else if st \<noteq> WIFI_SUCCESS then Some (createWifiStatusFromLegacyError st, ?s2\<lparr>legacy := h\<rparr>)
      else map_option (Pair None) (started_part env (?s2\<lparr>legacy := h\<rparr>))) = Some (None, s1)"
    using assms(2,6) h(1) by (simp add: handleChipConfiguration_parts stop_part_def case_prod_beta split: if_splits)
  then have st: "st = WIFI_SUCCESS" "started_part env (?s2\<lparr>legacy := h\<rparr>) = Some s1"
    using createStatus_None by (auto split: if_splits)
  moreover have "global_handle (legacy s1)"
    using started_part_returns [of "?s2\<lparr>legacy := h\<rparr>" env] s2(3) st h(2,3) by (auto simp: no_interface_def hal_ok_def)
  ultimately show ?thesis using s2(4) by (intro exI [of _ "?s2\<lparr>legacy := h\<rparr>"]) simp
qed

text \<open>C40. A chip with firmware modes whose driver also reports its combinations is trapped after its
  first configuration: the modes are replaced by the single reported mode, so the mode just set is
  no longer valid, and a configuration to the reported mode does not stop the running legacy HAL
  first and ends the process at the check of its global handle.\<close>

theorem reported_modes_trap:
  assumes "vendor_ok env" "modes_ok ms" "s = new_WifiChip env c (new_WifiLegacyHal p) ms a"
    and "\<forall>m\<in>set ms. mode_id m \<noteq> kInvalid" "configureChipInternal env i s = Some (None, s')" "i \<noteq> kV3"
    and "using_dynamic_iface_combination s'"
  shows "getModeInternal s' = (Some ERROR_NOT_AVAILABLE, i) \<and> isValidModeId kV3 s' \<and> configureChipInternal env kV3 s' = None"
proof -
  have new: "\<not> isValidModeId (current_mode_id s) s" "hal_ok (legacy s)" "\<not> is_started (legacy s)" "no_interface s"
    "\<not> using_dynamic_iface_combination s" "current_mode_id s = kInvalid" "chip_inv s"
    using assms(4) new_chip_inv [OF assms(2)] unfolding assms(3)
    by (auto simp: new_WifiChip_def isValidModeId_def list_ex_iff hal_ok_def new_WifiLegacyHal_def no_interface_def)
  have i: "isValidModeId i s" "i \<noteq> kInvalid"
    using assms(5) new(1,6) by (auto simp: configureChipInternal_def split: if_splits)
  obtain s1 s2 where s1: "handleChipConfiguration env i s = Some (None, s1)"
    and s2: "set_active env ((notify_all (ChipReconfigured i) s1)\<lparr>current_mode_id := i\<rparr>) = Some s2"
    and s': "s' = chip_call (Call ''wifi_set_subsystem_restart_handler'' []) s2"
    using assms(5) i new(6) by (auto simp: configureChipInternal_def Option.bind_eq_Some_conv split: option.splits)
  have same: "modes s' = modes s1" "current_mode_id s' = i" "global_handle (legacy s') = global_handle (legacy s1)"
    "using_dynamic_iface_combination s' = using_dynamic_iface_combination s1"
    using s2 unfolding s' by (auto elim!: set_activeE)
  obtain s3 where s3: "started_part env s3 = Some s1" "\<not> using_dynamic_iface_combination s3" "global_handle (legacy s1)"
    using first_configuration [OF assms(1) new(1-4) s1] new(5) by blast
  obtain m where "modes s' = [m\<lparr>mode_id := kV3\<rparr>]"
    using started_part_dynamic [OF s3(1,2)] assms(7) same(1,4) by auto
  then have v: "isValidModeId kV3 s'" "\<not> isValidModeId i s'" using assms(6) by (auto simp: isValidModeId_def)
  have "hal_start env (legacy s') = None" using s3(3) same(3) by (simp add: hal_start_def)
  then have "configureChipInternal env kV3 s' = None"
    using v same(2) assms(6) V3_not_V1
    by (simp add: configureChipInternal_def handleChipConfiguration_parts stop_part_def mode_part_def)
  then show ?thesis using v same(2) by (simp add: getModeInternal_def)
qed

definition one_station :: "wifi_iface_combination list" where
  "one_station = [\<lparr>max_ifaces = 1, iface_limits = [\<lparr>max_limit = 1, iface_mask = 1\<rparr>]\<rparr>]"

theorem reported_modes_trap_witness:
  "\<exists>s'. configureChipInternal (device one_station) 0
      (new_WifiChip (device one_station) 0 (new_WifiLegacyHal True) (preset kV1Sta 5) []) = Some (None, s') \<and>
    configureChipInternal (device one_station) kV3 s' = None"
proof -
  let ?s = "new_WifiChip (device one_station) 0 (new_WifiLegacyHal True) (preset kV1Sta 5) []"
  have "map_option (\<lambda>(r, s). (r, using_dynamic_iface_combination s)) (configureChipInternal (device one_station) 0 ?s) = Some (None, True)"
    by code_simp
  then obtain s' where s': "configureChipInternal (device one_station) 0 ?s = Some (None, s')" "using_dynamic_iface_combination s'"
    by auto
  have "\<forall>m\<in>set (preset kV1Sta 5). mode_id m \<noteq> kInvalid"
    by (simp add: preset_def kDebugChipModes_def kV1Sta_def kInvalid_def)
  from reported_modes_trap [OF device_ok preset_ok refl this s'(1) _ s'(2)] have "configureChipInternal (device one_station) kV3 s' = None"
    by (simp add: kV3_def)
  then show ?thesis using s'(1) by blast
qed

section \<open>The service\<close>


definition one_chip :: mode_config where
  "one_chip = \<lparr>main_mode = kV3, primary_modes = preset kV3 5, secondary_modes = [], debug_preset = []\<rparr>"

fun service_run :: "wifi_env \<Rightarrow> flush_env \<Rightarrow> mode_config \<Rightarrow> bool list \<Rightarrow> service_op list \<Rightarrow> Wifi \<Rightarrow> Wifi option" where
  "service_run env fe cfg ps [] w = Some w"
| "service_run env fe cfg ps (op # ops) w = Option.bind (service_perform env fe cfg ps op w) (service_run env fe cfg ps ops)"

lemma service_run_reach:
  "service_run env fe cfg ps ops w = Some w' \<Longrightarrow> service_reach env cfg ps w \<Longrightarrow> service_reach env cfg ps w'"
  by (induction ops arbitrary: w) (auto simp: Option.bind_eq_Some_conv intro: service_reach.step)


end
