(* ===== verification/Spec2Isabelle.thy ===== *)
theory Spec2Isabelle
  imports Boot_Properties Thread_Pool_Properties Power_Properties
    Cec_Queue_Properties Cec_Faults Hdmi_Connection_Properties
    Wifi_Ring_Properties Wifi_Cpio_Properties Wifi_Properties
begin

text \<open>
  A verification development for the Android hardware services of the Amlogic platform: the A/B boot
  control, the item list and thread pool of the media utilities, the performance hint manager and
  power service, the HDMI-CEC library with its services, and the Wi-Fi service.

  \<^bold>\<open>Conventions.\<close> The code is C and C++. A class or struct is a record, an enumeration a datatype or a
  set of constants, a method a function on the record that returns the new record. Integers whose
  width matters are words; others are \<open>int\<close> or \<open>nat\<close>, with wrap-around written out. \<open>None\<close> as the result of
  a method stands for undefined behaviour, a failed CHECK or an exception, so that a result \<open>Some\<close> is a
  claim of memory safety. What the code asks of the kernel, drivers, vendor libraries, the property
  service, clocks and the allocator is a parameter; an answer may depend on everything that was
  asked before. Threads are sequences of steps between their critical sections, in any interleaving.

  \<^bold>\<open>Boot control\<close> (boot_ctrl). \<open>Boot_Layout\<close> holds the block of boot_control_definition.h bit by bit and
  its byte image; \<open>Boot_Crc\<close> the checksum with its table; \<open>Boot_Device\<close> the misc partition, the bootloader
  environment and the helpers that access them, with the locale \<open>block_store\<close> for a stored block;
  \<open>Boot_Control\<close> the class BootControl of libboot_control.cpp; \<open>Boot_Hal\<close> the AIDL service, the C module and
  the system-control proxy. \<open>Boot_Lemmas\<close> and \<open>Boot_Properties\<close> show: every sequence of calls keeps a valid
  block; the service implements an abstract A/B machine; damage to four adjacent bytes is detected;
  what each call changes and what it leaves; the checksum table computes the bitwise checksum; the
  byte image is a bijection; the slot count of a stored block is not bounded.

  \<^bold>\<open>Item list and thread pool\<close> (media/amavutils). \<open>Linked_List\<close> is the intrusive list of list.h on a heap of
  nodes, \<open>Item_List\<close> every operation of itemlist.c on it with the list mutex, \<open>Item_List_Lemmas\<close> the effect
  of each operation on the sequence that the pointers represent. \<open>Item_List_Properties\<close> has the
  interface \<open>fifo_queue\<close>, interpreted on these operations: first-in first-out order, bounds under
  interleaved additions, release of all memory. \<open>Keyed_List\<close> gives the interface \<open>keyed_list\<close> through which
  \<open>Thread_Pool\<close> (amthreadpool.c) uses its lists as tables. \<open>Thread_Pool_Lemmas\<close> and \<open>Thread_Pool_Properties\<close>
  show memory safety when children are joined first, that cancelling reaches all members and that
  an exit request is not lost in a sleep.

  \<^bold>\<open>Performance hints and power\<close> (power). \<open>Std_Map\<close> is the part of the C++ library in use. \<open>Perf_Node\<close> models
  requests and nodes, \<open>Perf_Hints\<close> the looper thread and the hint manager, \<open>Perf_Config\<close> the parser of the
  configuration and the verifier, \<open>Interaction\<close> the interaction handler with its thread, \<open>Power_Hal\<close> the
  power service. The lemma and property theories show: nodes carry the value of their best live
  request and the looper keeps up with expiries; a hint boosts its nodes and its end undoes it; an
  accepted configuration is usable; the interaction hint is taken and released in turn.

  \<^bold>\<open>HDMI-CEC\<close> (hdmi_cec, hdmiconnection). \<open>Cec_Queue\<close> is the delayed message queue with its thread,
  \<open>Cec_Base\<close> the constants, utilities and outside of the library (on the string functions of \<open>Std_Text\<close>),
  \<open>Cec_Control\<close> the class HdmiCecControl, \<open>Cec_Hal\<close> the AIDL service and the C module, \<open>Hdmi_Connection\<close> the
  connection service that shares the port array with the library. \<open>Cec_Lemmas\<close> and \<open>Cec_Start\<close> hold
  the invariant. The property theories show: all calls, bus events and deliveries are defined on a
  platform as documented; messages are delivered in order; connection status, announcements, one
  touch play; the bytes of a message parse back; \<open>Cec_Faults\<close> has the calls that go wrong.

  \<^bold>\<open>Wi-Fi\<close> (wifi). \<open>Wifi_Ring\<close> models ringbuffer.cpp and the flush to tombstone files, \<open>Wifi_Cpio\<close> the cpio
  archive of a dump, \<open>Wifi_Concurrency\<close> the combinations of interfaces, \<open>Wifi_Legacy\<close> start, stop and
  interface handles of the legacy HAL object, \<open>Wifi_Chip\<close> the chip object of wifi_chip.cpp, \<open>Wifi_Service\<close>
  wifi.cpp and the chip modes of wifi_feature_flags.cpp. A stop of the service is two steps, since
  it releases the lock while it waits for the vendor library; a reconfiguration of a chip, which
  waits in the same way, is one step. \<open>Wifi_Chip_Lemmas\<close>, \<open>Wifi_Reach\<close>, \<open>Wifi_Invariant\<close> and \<open>Wifi_Configure\<close>
  prove that in every reachable state the interfaces are within the limits of the mode; \<open>Wifi_Live\<close>
  and \<open>Wifi_Service_Lemmas\<close> that the service can always be stopped, with a vendor library that behaves
  as documented. \<open>Wifi_Properties\<close> states both, the meaning of the expansion of combinations, and a chip
  that is trapped by the modes its driver reports. The other property theories show that a ring
  keeps the newest data, that logged data reaches its file, which old files go, and that an archive
  reads back.

  \<^bold>\<open>Loops and bounds.\<close> Loops that the code bounds itself are recursions with the same bound; loops over
  what a driver or a directory returns are recursions on the list of answers. Loops that wait for
  another thread are steps, and their end is proved from the hypotheses on the outside. No model
  has fuel: a loop that need not end, such as the walk along the pointers of a list or the wait of
  the system-control proxy, is a partial function whose value \<open>None\<close> is not returning, and the
  lemmas show that it returns, or for the destructor of the CEC library that it does not. Products that int32_t arithmetic could wrap are
  computed with the wrap, and a hypothesis (\<open>combination_ok\<close>) excludes it where the result depends on it.

  \<^bold>\<open>Not modelled.\<close> The audio decoders of LibAudio and the camera service are third-party signal
  processing and driver orchestration. The codec, player and attribute helpers of media, and the
  services dumpstate, earc, fastboot, health, ir, lights, memtrack, screen_source, tb_modules, thermal
  and usb mostly read and write driver files. The keymaster, gatekeeper and oemlock services marshal
  requests for trusted applications through libraries that are not part of the sources. In wifi,
  the interface objects and the methods that pass one request to the vendor library, the
  conversion of their structures, and the loading of vendor libraries are left out. Logging, dumps
  of state and binder plumbing are left out everywhere.
\<close>

end
